(* ===== verification/Prelude.thy ===== *)
theory Prelude
  imports Complex_Main "HOL-Library.Word" "HOL-Library.Multiset" "HOL-Library.Product_Lexorder"
begin

text \<open>
  Shared ground of the development: the machine integers the code uses, the collections of
  simplification rules the component proofs draw on, and generic facts on Go's
  limited iteration over a map and on sorting.

  A Go \<^verbatim>\<open>int64\<close> that takes part in arithmetic which can overflow (a duration, a nanosecond
  count) is an \<open>i64\<close>, a 64-bit word read with \<open>sint\<close>. Counters that are only ever moved by one
  per operation (IDs, attempts, generations) are mathematical integers.
\<close>

type_synonym i64 = "64 word"

named_theorems op_defs \<open>definitions of the operations of a store\<close>
named_theorems frame_simps \<open>fields an operation leaves alone\<close>

subsection \<open>64-bit signed integers\<close>

definition min_i64 :: int where
  "min_i64 = - 9223372036854775808"

definition max_i64 :: int where
  "max_i64 = 9223372036854775807"

lemma i64_bounds [simp]: "min_i64 \<le> sint (w :: i64)" "sint (w :: i64) \<le> max_i64"
  using sint_range_size [of w] by (simp_all add: min_i64_def max_i64_def word_size)

lemma sint_word_of_int [simp]:
  assumes "min_i64 \<le> k" "k \<le> max_i64"
  shows "sint (word_of_int k :: i64) = k"
  using assms by (simp add: signed_of_int signed_take_bit_int_eq_self_iff min_i64_def max_i64_def)

lemma sint_wrap:
  "sint (word_of_int k :: i64) = (k + 9223372036854775808) mod 18446744073709551616 - 9223372036854775808"
  by (simp add: int_word_sint)

lemma sint_wrap_cases:
  assumes "- 18446744073709551616 < k" "k < 18446744073709551616"
  shows "sint (word_of_int k :: i64) =
     (if k < min_i64 then k + 18446744073709551616
      else if max_i64 < k then k - 18446744073709551616 else k)"
proof -
  consider (low) "k < min_i64" | (high) "max_i64 < k" | (mid) "min_i64 \<le> k" "k \<le> max_i64"
    by linarith
  then show ?thesis
  proof cases
    case low
    then have "(k + 9223372036854775808) mod 18446744073709551616
        = (k + 9223372036854775808 + 18446744073709551616) mod 18446744073709551616"
      by (metis mod_add_self2)
    also have "\<dots> = k + 9223372036854775808 + 18446744073709551616"
      using low assms by (intro mod_pos_pos_trivial) (simp_all add: min_i64_def)
    finally show ?thesis using low by (simp add: sint_wrap)
  next
    case high
    then have "(k + 9223372036854775808) mod 18446744073709551616
        = (k + 9223372036854775808 - 18446744073709551616) mod 18446744073709551616"
      by (metis minus_mod_self2)
    also have "\<dots> = k + 9223372036854775808 - 18446744073709551616"
      using high assms by (intro mod_pos_pos_trivial) (simp_all add: max_i64_def)
    finally show ?thesis using high by (simp add: sint_wrap min_i64_def max_i64_def)
  qed simp
qed

lemma sint_sub_wrap:
  "sint (a - b :: i64) =
     (if sint a - sint b < min_i64 then sint a - sint b + 18446744073709551616
      else if max_i64 < sint a - sint b then sint a - sint b - 18446744073709551616
      else sint a - sint b)"
proof -
  have "a - b = word_of_int (sint a - sint b)" by simp
  moreover have "- 18446744073709551616 < sint a - sint b" "sint a - sint b < 18446744073709551616"
    using i64_bounds [of a] i64_bounds [of b] by (simp_all add: min_i64_def max_i64_def)
  ultimately show ?thesis using sint_wrap_cases by metis
qed

lemma sint_add_exact:
  assumes "min_i64 \<le> sint a + sint b" "sint a + sint b \<le> max_i64"
  shows "sint (a + b :: i64) = sint a + sint b"
  using assms
  by (simp add: sint_word_ariths signed_take_bit_int_eq_self_iff min_i64_def max_i64_def)

lemma sint_mult_exact:
  assumes "min_i64 \<le> sint a * sint b" "sint a * sint b \<le> max_i64"
  shows "sint (a * b :: i64) = sint a * sint b"
  using assms
  by (simp add: sint_word_ariths signed_take_bit_int_eq_self_iff min_i64_def max_i64_def)

lemma sint_uminus_exact: "min_i64 < sint a \<Longrightarrow> sint (- a :: i64) = - sint a"
  using i64_bounds [of a]
  by (simp add: sint_word_ariths signed_take_bit_int_eq_self_iff min_i64_def max_i64_def)

subsection \<open>Iteration over a Go map with a budget\<close>

text \<open>
  The maintenance loops of the memory backend all have the shape
  \<^verbatim>\<open>for k, v := range m { if n >= limit { break }; if P(v) { update or delete m[k]; n++ } }\<close>.
  Go visits the keys in an order it picks anew each time, so the order \<open>ks\<close> is an argument.
  The function \<open>f\<close> gives the new value of an entry, or \<open>None\<close> to delete it.
\<close>

fun range_limit ::
  "('v \<Rightarrow> bool) \<Rightarrow> ('v \<Rightarrow> 'v option) \<Rightarrow> int \<Rightarrow> int \<Rightarrow> 'k list \<Rightarrow> ('k \<rightharpoonup> 'v) \<Rightarrow> int \<times> ('k \<rightharpoonup> 'v)" where
  "range_limit P f limit n [] m = (n, m)"
| "range_limit P f limit n (k # ks) m =
     (if limit \<le> n then (n, m)
      else case m k of
        None \<Rightarrow> range_limit P f limit n ks m
      | Some v \<Rightarrow>
          if P v then range_limit P f limit (n + 1) ks (m(k := f v))
          else range_limit P f limit n ks m)"

text \<open>The keys such a loop acts on: the first \<open>limit - n\<close> that satisfy \<open>P\<close>, in iteration order.\<close>

definition hit :: "('v \<Rightarrow> bool) \<Rightarrow> ('k \<rightharpoonup> 'v) \<Rightarrow> 'k \<Rightarrow> bool" where
  "hit P m k = (case m k of None \<Rightarrow> False | Some v \<Rightarrow> P v)"

definition picked :: "('v \<Rightarrow> bool) \<Rightarrow> int \<Rightarrow> 'k list \<Rightarrow> ('k \<rightharpoonup> 'v) \<Rightarrow> 'k list" where
  "picked P budget ks m = take (nat budget) (filter (hit P m) ks)"

lemma hit_iff: "hit P m k \<longleftrightarrow> (\<exists>v. m k = Some v \<and> P v)"
  by (simp add: hit_def split: option.split)

lemma picked_sub: "k \<in> set (picked P l ks m) \<Longrightarrow> k \<in> set ks \<and> (\<exists>v. m k = Some v \<and> P v)"
  unfolding picked_def by (drule in_set_takeD) (auto simp: hit_iff)

lemma filter_hit_upd:
  "k \<notin> set ks \<Longrightarrow> filter (hit P (m(k := x))) ks = filter (hit P m) ks"
  by (rule filter_cong) (auto simp: hit_iff)

lemma hit_upd [simp]: "hit P (m(k \<mapsto> v)) i \<longleftrightarrow> (if i = k then P v else hit P m i)"
  by (auto simp: hit_iff)

lemma picked_upd: "k \<notin> set ks \<Longrightarrow> picked P l ks (m(k := x)) = picked P l ks m"
  by (simp add: picked_def filter_hit_upd)

lemma picked_Nil [simp]: "picked P l [] m = []"
  by (simp add: picked_def)

lemma picked_Cons:
  "picked P l (k # ks) m =
     (if l \<le> 0 then [] else if hit P m k then k # picked P (l - 1) ks m else picked P l ks m)"
proof (cases "l \<le> 0")
  case False
  then have "nat l = Suc (nat (l - 1))" by simp
  with False show ?thesis by (simp add: picked_def)
qed (simp add: picked_def)

lemma range_limit_picked:
  assumes "distinct ks"
  shows "range_limit P f limit n ks m =
     (n + int (length (picked P (limit - n) ks m)),
      \<lambda>k. if k \<in> set (picked P (limit - n) ks m) then f (the (m k)) else m k)"
  using assms
proof (induction ks arbitrary: n m)
  case Nil
  then show ?case by simp
next
  case (Cons k ks)
  note IH = Cons.IH [OF distinct.simps(2) [THEN iffD1, THEN conjunct2, OF Cons.prems]]
  have nin: "k \<notin> set ks" using Cons.prems by simp
  show ?case
  proof (cases "limit \<le> n")
    case True
    then show ?thesis by (simp add: picked_Cons)
  next
    case False
    note lt = this
    have nin': "k \<notin> set (picked P l ks m)" for l
      using nin picked_sub by fastforce
    show ?thesis
    proof (cases "hit P m k")
      case True
      then obtain v where v: "m k = Some v" "P v" by (auto simp: hit_iff)
      have "range_limit P f limit n (k # ks) m = range_limit P f limit (n + 1) ks (m(k := f v))"
        using lt v by simp
      also have "\<dots> = (n + 1 + int (length (picked P (limit - (n + 1)) ks m)),
          \<lambda>x. if x \<in> set (picked P (limit - (n + 1)) ks m) then f (the ((m(k := f v)) x)) else (m(k := f v)) x)"
        by (simp only: IH picked_upd [OF nin])
      finally show ?thesis
        using lt v nin' [of "limit - (n + 1)"] True
        by (auto simp: picked_Cons fun_eq_iff algebra_simps)
    next
      case False
      then have "range_limit P f limit n (k # ks) m = range_limit P f limit n ks m"
        using lt by (auto simp: hit_iff split: option.split)
      then show ?thesis using lt False by (simp add: IH picked_Cons)
    qed
  qed
qed

lemma length_picked_le: "0 \<le> l \<Longrightarrow> int (length (picked P l ks m)) \<le> l"
  by (simp add: picked_def)

lemma length_picked_neg: "l \<le> 0 \<Longrightarrow> picked P l ks m = []"
  by (simp add: picked_def)

lemma distinct_picked: "distinct ks \<Longrightarrow> distinct (picked P l ks m)"
  by (simp add: picked_def)

text \<open>A budget that is not used up reaches every key that qualifies.\<close>

lemma picked_all:
  assumes "int (length (picked P l ks m)) < l" "k \<in> set ks" "m k = Some v" "P v"
  shows "k \<in> set (picked P l ks m)"
proof -
  have "length (filter (hit P m) ks) \<le> nat l"
    using assms(1) by (simp add: picked_def min_def split: if_splits)
  then have "picked P l ks m = filter (hit P m) ks" by (simp add: picked_def)
  with assms(2-4) show ?thesis by (auto simp: hit_iff)
qed

subsection \<open>Sorting and its prefixes\<close>

lemma sort_key_eqI:
  assumes "mset xs = mset ys" "inj_on k (set xs)" "distinct xs"
  shows "sort_key k xs = sort_key k ys"
proof -
  have 1: "sorted (map k (sort_key k xs))" "sorted (map k (sort_key k ys))" by simp_all
  have ms: "mset (sort_key k xs) = mset (sort_key k ys)" using assms(1) by simp
  have "mset (map k (sort_key k xs)) = mset (map k (sort_key k ys))" using ms by (simp add: mset_map)
  then have eq: "map k (sort_key k xs) = map k (sort_key k ys)"
    using 1 by (metis properties_for_sort sorted_sort_id)
  have "set xs = set ys" using assms(1) by (rule mset_eq_setD)
  then have "inj_on k (set (sort_key k xs) \<union> set (sort_key k ys))" using assms(2) by simp
  with eq show ?thesis by (rule map_inj_on)
qed

lemma take_sorted_least:
  assumes "sorted (map k xs)" "x \<in> set (take n xs)" "y \<in> set (drop n xs)"
  shows "k x \<le> k y"
proof -
  have "sorted (map k (take n xs) @ map k (drop n xs))"
    using assms(1) by (metis append_take_drop_id map_append)
  with assms(2,3) show ?thesis by (auto simp: sorted_append)
qed

subsection \<open>The first element with an image\<close>

fun first_some :: "('a \<Rightarrow> 'b option) \<Rightarrow> 'a list \<Rightarrow> 'b option" where
  "first_some f [] = None"
| "first_some f (x # xs) = (case f x of None \<Rightarrow> first_some f xs | Some y \<Rightarrow> Some y)"

lemma first_some_None: "first_some f xs = None \<longleftrightarrow> (\<forall>x\<in>set xs. f x = None)"
  by (induction xs) (auto split: option.split)

end
