(* ===== verification/Errors.thy ===== *)
theory Errors
  imports Prelude
begin

text \<open>
  Go error values: the sentinels and the \<^verbatim>\<open>StaleError\<close> of \<^verbatim>\<open>backend/errors.go\<close>, the control
  errors a worker returns (\<^verbatim>\<open>job.go\<close>) and the \<^verbatim>\<open>PanicError\<close> of \<^verbatim>\<open>executor.go\<close>, with the
  standard library's \<^verbatim>\<open>errors.Is\<close> and \<^verbatim>\<open>errors.As\<close> as a walk over the tree of wrapped errors.
\<close>

subsection \<open>Error values\<close>

datatype sentinel =
    ErrStaleAttempt
  | ErrNotSupported
  | ErrDuplicate
  | ErrQueuePaused
  | ErrInvalidTx
  | ErrAlreadyFinalized
  | ErrVersionMismatch
  | ErrDuplicateKind
  | ErrConflictingOptions
  | ErrInvalidMetadata
  | ErrTimeOutOfRange

text \<open>
  \<open>Wrapped msg e\<close> is a \<^verbatim>\<open>fmt.Errorf\<close> with one \<^verbatim>\<open>%w\<close>; \<open>msg\<close> is its whole text. A control error
  built from a nil error has \<open>None\<close> inside. The recovered value of a panic is kept as the text
  \<^verbatim>\<open>%v\<close> gives it.
\<close>

datatype go_error =
    Sentinel sentinel
  | ErrorString string
  | Wrapped string go_error
  | Joined "go_error list"
  | StaleError "int list"
  | CancelErr "go_error option"
  | SnoozeErr i64
  | RetryAtErr int "go_error option"
  | PanicError string string

definition Cancel :: "go_error option \<Rightarrow> go_error" where
  "Cancel err = CancelErr err"

definition SnoozeFor :: "i64 \<Rightarrow> go_error" where
  "SnoozeFor d = SnoozeErr d"

definition RetryAt :: "int \<Rightarrow> go_error option \<Rightarrow> go_error" where
  "RetryAt t err = RetryAtErr t err"

subsection \<open>errors.Is and errors.As\<close>

text \<open>
  The errors reached from \<open>e\<close> by \<^verbatim>\<open>Unwrap\<close>, in the pre-order the standard library walks. A
  \<^verbatim>\<open>StaleError\<close> unwraps to the sentinel; a \<^verbatim>\<open>PanicError\<close> and a \<^verbatim>\<open>snoozeErr\<close> unwrap to nothing.
\<close>

fun unwrap_chain :: "go_error \<Rightarrow> go_error list" where
  "unwrap_chain (Wrapped msg e) = Wrapped msg e # unwrap_chain e"
| "unwrap_chain (Joined es) = Joined es # concat (map unwrap_chain es)"
| "unwrap_chain (StaleError ids) = [StaleError ids, Sentinel ErrStaleAttempt]"
| "unwrap_chain (CancelErr (Some e)) = CancelErr (Some e) # unwrap_chain e"
| "unwrap_chain (RetryAtErr t (Some e)) = RetryAtErr t (Some e) # unwrap_chain e"
| "unwrap_chain e = [e]"

definition errors_Is :: "go_error \<Rightarrow> sentinel \<Rightarrow> bool" where
  "errors_Is e s \<longleftrightarrow> Sentinel s \<in> set (unwrap_chain e)"

text \<open>
  \<^verbatim>\<open>errors.As(err, &target)\<close> stops at the first error of the walk that has the target's type; \<open>as\<close>
  tells whether an error has it and what it carries.
\<close>

definition errors_As :: "(go_error \<Rightarrow> 'a option) \<Rightarrow> go_error \<Rightarrow> 'a option" where
  "errors_As as err = first_some as (unwrap_chain err)"

definition asCancel :: "go_error \<Rightarrow> go_error option option" where
  "asCancel = errors_As (\<lambda>e. case e of CancelErr inner \<Rightarrow> Some inner | _ \<Rightarrow> None)"

definition asSnooze :: "go_error \<Rightarrow> i64 option" where
  "asSnooze = errors_As (\<lambda>e. case e of SnoozeErr d \<Rightarrow> Some d | _ \<Rightarrow> None)"

definition asRetryAt :: "go_error \<Rightarrow> (int \<times> go_error option) option" where
  "asRetryAt = errors_As (\<lambda>e. case e of RetryAtErr t inner \<Rightarrow> Some (t, inner) | _ \<Rightarrow> None)"

definition asPanic :: "go_error \<Rightarrow> (string \<times> string) option" where
  "asPanic = errors_As (\<lambda>e. case e of PanicError r st \<Rightarrow> Some (r, st) | _ \<Rightarrow> None)"

subsection \<open>Error texts\<close>

text \<open>
  The texts \<^verbatim>\<open>%v\<close> gives to a duration, an instant and a list of IDs are formatting of the
  standard library that no decision of the code depends on, so they are an argument.
\<close>

record fmt =
  fmt_duration :: "i64 \<Rightarrow> string"
  fmt_time :: "int \<Rightarrow> string"
  fmt_ids :: "int list \<Rightarrow> string"

fun sentinel_text :: "sentinel \<Rightarrow> string" where
  "sentinel_text ErrStaleAttempt = ''goque: stale attempt''"
| "sentinel_text ErrNotSupported = ''goque: not supported by backend''"
| "sentinel_text ErrDuplicate = ''goque: duplicate job''"
| "sentinel_text ErrQueuePaused = ''goque: queue paused''"
| "sentinel_text ErrInvalidTx = ''goque: invalid transaction type''"
| "sentinel_text ErrAlreadyFinalized = ''goque: job already finalized''"
| "sentinel_text ErrVersionMismatch = ''goque: job args version mismatch''"
| "sentinel_text ErrDuplicateKind = ''goque: duplicate kind registration''"
| "sentinel_text ErrConflictingOptions = ''goque: conflicting job options''"
| "sentinel_text ErrInvalidMetadata = ''goque: metadata must be a JSON object''"
| "sentinel_text ErrTimeOutOfRange = ''goque: time outside the representable range''"

fun join_lines :: "string list \<Rightarrow> string" where
  "join_lines [] = []"
| "join_lines [s] = s"
| "join_lines (s # ss) = s @ [CHR 0x0A] @ join_lines ss"

fun Error :: "fmt \<Rightarrow> go_error \<Rightarrow> string" where
  "Error F (Sentinel s) = sentinel_text s"
| "Error F (ErrorString s) = s"
| "Error F (Wrapped msg e) = msg"
| "Error F (Joined es) = join_lines (map (Error F) es)"
| "Error F (StaleError ids) = ''stale attempt for job ids '' @ fmt_ids F ids"
| "Error F (CancelErr e) =
     ''goque cancel: '' @ (case e of None \<Rightarrow> ''<nil>'' | Some e' \<Rightarrow> Error F e')"
| "Error F (SnoozeErr d) = ''goque snooze: '' @ fmt_duration F d"
| "Error F (RetryAtErr t e) =
     ''goque retry at '' @ fmt_time F t @ '': '' @ (case e of None \<Rightarrow> ''<nil>'' | Some e' \<Rightarrow> Error F e')"
| "Error F (PanicError r st) = ''panic: '' @ r"

subsection \<open>What wrapping does to the walk\<close>

lemma unwrap_chain_self [simp]: "e \<in> set (unwrap_chain e)"
  by (cases e rule: unwrap_chain.cases) simp_all

lemma errors_Is_StaleError [simp]: "errors_Is (StaleError ids) s \<longleftrightarrow> s = ErrStaleAttempt"
  by (auto simp: errors_Is_def)

lemma errors_Is_Sentinel [simp]: "errors_Is (Sentinel s') s \<longleftrightarrow> s' = s"
  by (auto simp: errors_Is_def)

lemma errors_Is_Wrapped [simp]: "errors_Is (Wrapped msg e) s \<longleftrightarrow> errors_Is e s"
  by (auto simp: errors_Is_def)

lemmas as_defs = asCancel_def asSnooze_def asRetryAt_def asPanic_def errors_As_def

lemma asCancel_iff:
  "asCancel err = None \<longleftrightarrow> (\<forall>inner. CancelErr inner \<notin> set (unwrap_chain err))"
  by (auto simp: as_defs first_some_None split: go_error.splits)

lemma asSnooze_iff:
  "asSnooze err = None \<longleftrightarrow> (\<forall>d. SnoozeErr d \<notin> set (unwrap_chain err))"
  by (auto simp: as_defs first_some_None split: go_error.splits)

lemma asRetryAt_iff:
  "asRetryAt err = None \<longleftrightarrow> (\<forall>t inner. RetryAtErr t inner \<notin> set (unwrap_chain err))"
  by (auto simp: as_defs first_some_None split: go_error.splits)

lemma first_some_Some: "first_some f xs = Some y \<Longrightarrow> \<exists>x\<in>set xs. f x = Some y"
  by (induction xs) (auto split: option.splits)

lemma asCancel_Some: "asCancel err = Some inner \<Longrightarrow> CancelErr inner \<in> set (unwrap_chain err)"
  by (auto simp: as_defs dest!: first_some_Some split: go_error.splits)

lemma asSnooze_Some: "asSnooze err = Some d \<Longrightarrow> SnoozeErr d \<in> set (unwrap_chain err)"
  by (auto simp: as_defs dest!: first_some_Some split: go_error.splits)

lemma asRetryAt_Some: "asRetryAt err = Some (t, inner) \<Longrightarrow> RetryAtErr t inner \<in> set (unwrap_chain err)"
  by (auto simp: as_defs dest!: first_some_Some split: go_error.splits)

lemma as_Wrapped [simp]:
  "asCancel (Wrapped msg e) = asCancel e"
  "asSnooze (Wrapped msg e) = asSnooze e"
  "asRetryAt (Wrapped msg e) = asRetryAt e"
  "asPanic (Wrapped msg e) = asPanic e"
  by (simp_all add: as_defs)

lemma as_control [simp]:
  "asCancel (CancelErr inner) = Some inner"
  "asSnooze (SnoozeErr d) = Some d"
  "asRetryAt (RetryAtErr t inner) = Some (t, inner)"
  "asPanic (PanicError r st) = Some (r, st)"
  by (cases inner; simp add: as_defs)+

end
