(* ===== verification/Instants.thy ===== *)
theory Instants
  imports Errors
begin

text \<open>
  \<^verbatim>\<open>backend/time.go\<close>. A \<^verbatim>\<open>time.Time\<close> is the integer count of nanoseconds since the Unix epoch (its
  range, 292 billion years either way, is not reached, so it is unbounded here), a
  \<^verbatim>\<open>time.Duration\<close> is an \<open>i64\<close>, and \<^verbatim>\<open>UnixNano\<close> truncates an instant to 64 bits. The zero
  \<^verbatim>\<open>time.Time\<close>, January 1 of year 1, is an instant of its own.
\<close>

type_synonym instant = int
type_synonym duration = i64

definition zero_time :: instant where
  "zero_time = - 62135596800000000000"

definition IsZero :: "instant \<Rightarrow> bool" where
  "IsZero t \<longleftrightarrow> t = zero_time"

definition UnixNano :: "instant \<Rightarrow> i64" where
  "UnixNano t = word_of_int t"

definition Unix0 :: "i64 \<Rightarrow> instant" where
  "Unix0 ns = sint ns"

definition time_Add :: "instant \<Rightarrow> duration \<Rightarrow> instant" where
  "time_Add t d = t + sint d"

definition MinInstant :: instant where
  "MinInstant = Unix0 (word_of_int min_i64)"

definition MaxInstant :: instant where
  "MaxInstant = Unix0 (word_of_int max_i64)"

definition ValidateInstant :: "instant \<Rightarrow> go_error + unit" where
  "ValidateInstant t =
     (if t < MinInstant \<or> MaxInstant < t then Inl (Wrapped (sentinel_text ErrTimeOutOfRange) (Sentinel ErrTimeOutOfRange))
      else Inr ())"

definition SubDuration :: "instant \<Rightarrow> duration \<Rightarrow> go_error + instant" where
  "SubDuration t d =
     (case ValidateInstant t of
        Inl err \<Rightarrow> Inl err
      | Inr _ \<Rightarrow>
          (let ns = UnixNano t; res = ns - d in
           if (0 < sint d \<and> sint ns < sint res) \<or> (sint d < 0 \<and> sint res < sint ns)
           then Inl (Wrapped (sentinel_text ErrTimeOutOfRange) (Sentinel ErrTimeOutOfRange))
           else Inr (Unix0 res)))"

definition SubDurationClamped :: "instant \<Rightarrow> duration \<Rightarrow> instant" where
  "SubDurationClamped t d =
     (let t = (if t < MinInstant then MinInstant else t);
          t = (if MaxInstant < t then MaxInstant else t);
          ns = UnixNano t;
          res = ns - d in
      if 0 < sint d \<and> sint ns < sint res then MinInstant
      else if sint d < 0 \<and> sint res < sint ns then MaxInstant
      else Unix0 res)"

subsection \<open>The storable range\<close>

definition storable :: "instant \<Rightarrow> bool" where
  "storable t \<longleftrightarrow> MinInstant \<le> t \<and> t \<le> MaxInstant"

lemma Min_Max_Instant [simp]: "MinInstant = min_i64" "MaxInstant = max_i64"
  by (simp_all add: MinInstant_def MaxInstant_def Unix0_def min_i64_def max_i64_def)

lemma storable_iff: "storable t \<longleftrightarrow> min_i64 \<le> t \<and> t \<le> max_i64"
  by (simp add: storable_def)

lemma ValidateInstant_iff [simp]: "ValidateInstant t = Inr u \<longleftrightarrow> storable t"
  by (auto simp: ValidateInstant_def storable_def)

lemma ValidateInstant_Inr: "storable t \<Longrightarrow> ValidateInstant t = Inr ()"
  by simp

lemma ValidateInstant_Inl_iff: "(\<exists>e. ValidateInstant t = Inl e) \<longleftrightarrow> \<not> storable t"
  by (auto simp: ValidateInstant_def storable_def)

lemma ValidateInstant_error: "ValidateInstant t = Inl e \<Longrightarrow> errors_Is e ErrTimeOutOfRange"
  by (auto simp: ValidateInstant_def split: if_splits)

lemma UnixNano_storable [simp]: "storable t \<Longrightarrow> sint (UnixNano t) = t"
  by (simp add: UnixNano_def storable_iff)

lemma storable_Unix0 [simp]: "storable (Unix0 ns)"
  by (simp add: storable_iff Unix0_def)

lemma zero_not_storable [simp]: "\<not> storable zero_time"
  by (simp add: storable_iff zero_time_def min_i64_def)

text \<open>The code's wrap-around tests tell exactly whether the true difference leaves the range.\<close>

lemma sub_overflow_tests:
  assumes "storable t"
  shows "(0 < sint d \<and> sint (UnixNano t) < sint (UnixNano t - d)) \<longleftrightarrow> t - sint d < min_i64"
    and "(sint d < 0 \<and> sint (UnixNano t - d) < sint (UnixNano t)) \<longleftrightarrow> max_i64 < t - sint d"
    and "storable (t - sint d) \<Longrightarrow> Unix0 (UnixNano t - d) = t - sint d"
  using assms i64_bounds [of d]
  by (auto simp: sint_sub_wrap storable_iff Unix0_def min_i64_def max_i64_def)

lemma SubDuration_spec:
  "SubDuration t d =
     (if storable t \<and> storable (t - sint d) then Inr (t - sint d)
      else Inl (Wrapped (sentinel_text ErrTimeOutOfRange) (Sentinel ErrTimeOutOfRange)))"
proof (cases "storable t")
  case True
  then have "SubDuration t d =
     (if t - sint d < min_i64 \<or> max_i64 < t - sint d
      then Inl (Wrapped (sentinel_text ErrTimeOutOfRange) (Sentinel ErrTimeOutOfRange))
      else Inr (Unix0 (UnixNano t - d)))"
    by (simp only: SubDuration_def Let_def sub_overflow_tests(1,2) [OF True] ValidateInstant_Inr [OF True]
        sum.case)
  then show ?thesis
    using True sub_overflow_tests(3) [OF True, of d] by (auto simp: storable_iff)
next
  case False
  then show ?thesis by (auto simp: SubDuration_def ValidateInstant_def storable_def)
qed

definition clamp_instant :: "instant \<Rightarrow> instant" where
  "clamp_instant t = max min_i64 (min max_i64 t)"

lemma clamp_storable [simp]: "storable (clamp_instant t)"
  by (simp add: clamp_instant_def storable_iff min_i64_def max_i64_def)

lemma clamp_id [simp]: "storable t \<Longrightarrow> clamp_instant t = t"
  by (simp add: clamp_instant_def storable_iff)

lemma SubDurationClamped_spec:
  "SubDurationClamped t d = clamp_instant (clamp_instant t - sint d)"
proof -
  have cl: "(let t = (if t < MinInstant then MinInstant else t) in if MaxInstant < t then MaxInstant else t)
      = clamp_instant t"
    by (simp add: clamp_instant_def min_i64_def max_i64_def)
  have "SubDurationClamped t d =
     (if clamp_instant t - sint d < min_i64 then MinInstant
      else if max_i64 < clamp_instant t - sint d then MaxInstant
      else Unix0 (UnixNano (clamp_instant t) - d))"
    unfolding SubDurationClamped_def
    by (simp only: cl [unfolded Let_def] Let_def sub_overflow_tests(1,2) [OF clamp_storable])
  then show ?thesis
    using sub_overflow_tests(3) [OF clamp_storable, of t d]
    by (auto simp: clamp_instant_def [of "clamp_instant t - sint d"] storable_iff min_i64_def max_i64_def)
qed

lemma storable_SubDurationClamped [simp]: "storable (SubDurationClamped t d)"
  by (simp add: SubDurationClamped_spec)

lemma SubDuration_Inr_iff:
  "SubDuration t d = Inr p \<longleftrightarrow> storable t \<and> storable p \<and> p = t - sint d"
  by (auto simp: SubDuration_spec)

lemma SubDuration_Clamped_agree: "SubDuration t d = Inr p \<Longrightarrow> SubDurationClamped t d = p"
  by (auto simp: SubDuration_Inr_iff SubDurationClamped_spec)

end
