(* ===== verification/Json.thy ===== *)
theory Json
  imports Instants "HOL-Library.List_Lexorder" "HOL-Library.Char_ord"
begin

text \<open>
  The part of \<^verbatim>\<open>encoding/json\<close> the code uses, on parsed documents. A \<^verbatim>\<open>[]byte\<close> that is only ever
  handed to and taken from JSON is a \<open>raw\<close>: a nil slice, an empty one, a text that parses (kept as
  its tree, so layout is abstracted), or a text that does not. Numbers without a fraction or an
  exponent are \<open>JInt\<close>, the others \<open>JFloat\<close> with the exact value of the \<^verbatim>\<open>float64\<close> they denote.
\<close>

datatype json =
    JNull
  | JBool bool
  | JInt int
  | JFloat rat
  | JStr string
  | JArr "json list"
  | JObj "(string \<times> json) list"

datatype raw = RawNil | RawEmpty | RawJson json | RawBad string

text \<open>\<^verbatim>\<open>len(b) > 0\<close>.\<close>

fun has_bytes :: "raw \<Rightarrow> bool" where
  "has_bytes (RawJson j) = True"
| "has_bytes (RawBad s) = True"
| "has_bytes _ = False"

subsection \<open>Go maps with string keys, in the order Marshal writes them\<close>

fun map_put :: "string \<Rightarrow> 'a \<Rightarrow> (string \<times> 'a) list \<Rightarrow> (string \<times> 'a) list" where
  "map_put k v [] = [(k, v)]"
| "map_put k v ((k', v') # kvs) =
     (if k = k' then (k, v) # kvs
      else if k < k' then (k, v) # (k', v') # kvs
      else (k', v') # map_put k v kvs)"

fun map_put_all :: "(string \<times> 'a) list \<Rightarrow> (string \<times> 'a) list \<Rightarrow> (string \<times> 'a) list" where
  "map_put_all [] m = m"
| "map_put_all ((k, v) # kvs) m = map_put_all kvs (map_put k v m)"

lemma map_of_put [simp]: "map_of (map_put k v m) = (map_of m)(k \<mapsto> v)"
  by (induction k v m rule: map_put.induct) (auto simp: fun_eq_iff)

lemma set_keys_put: "fst ` set (map_put k v m) = insert k (fst ` set m)"
  by (induction k v m rule: map_put.induct) auto

lemma sorted_map_put:
  "sorted_wrt (<) (map fst m) \<Longrightarrow> sorted_wrt (<) (map fst (map_put k v m))"
proof (induction k v m rule: map_put.induct)
  case (2 k v k' v' kvs)
  show ?case
  proof (cases "k = k' \<or> k < k'")
    case True
    then show ?thesis using "2.prems" by auto
  next
    case False
    then have "sorted_wrt (<) (map fst (map_put k v kvs))" "k' < k" using 2 by auto
    moreover have "\<forall>y\<in>fst ` set (map_put k v kvs). k' < y"
      unfolding set_keys_put using "2.prems" \<open>k' < k\<close> by simp
    ultimately show ?thesis using False by simp
  qed
qed simp

text \<open>Two strictly sorted association lists with the same lookups are equal.\<close>

lemma sorted_alist_eq:
  "sorted_wrt (<) (map fst (xs :: (string \<times> 'a) list)) \<Longrightarrow> sorted_wrt (<) (map fst ys) \<Longrightarrow>
   map_of xs = map_of ys \<Longrightarrow> xs = ys"
proof -
  assume s: "sorted_wrt (<) (map fst xs)" "sorted_wrt (<) (map fst ys)" and eq: "map_of xs = map_of ys"
  have d: "distinct (map fst xs)" "distinct (map fst ys)" "sorted (map fst xs)" "sorted (map fst ys)"
    using s strict_sorted_iff by blast+
  have "set xs = set ys" using eq d by (metis map_of_inject_set)
  then show ?thesis
    using d by (metis map_sorted_distinct_set_unique inj_on_def eq_key_imp_eq_value prod.collapse Un_absorb)
qed

subsection \<open>Unmarshal\<close>

text \<open>
  \<^verbatim>\<open>json.Unmarshal(b, &m)\<close> for a \<^verbatim>\<open>map[string]json.RawMessage\<close>: \<open>None\<close> is the nil map. A JSON null sets
  the map to nil, an object is merged into it (later duplicates win), anything else is an error that
  leaves it alone.
\<close>

type_synonym raw_map = "(string \<times> json) list option"

definition json_error :: go_error where
  "json_error = ErrorString ''json: cannot unmarshal''"

fun Unmarshal_map :: "raw \<Rightarrow> raw_map \<Rightarrow> go_error option \<times> raw_map" where
  "Unmarshal_map (RawJson (JObj kvs)) m =
     (None, Some (map_put_all kvs (case m of None \<Rightarrow> [] | Some m' \<Rightarrow> m')))"
| "Unmarshal_map (RawJson JNull) m = (None, None)"
| "Unmarshal_map (RawJson j) m = (Some json_error, m)"
| "Unmarshal_map b m = (Some json_error, m)"

text \<open>
  Decoding one struct field of a given Go type from the value of its key: whether the value has the
  wrong type, and the field's new value. A type error leaves the field alone and decoding goes on; a
  null leaves it alone without an error.
\<close>

fun dec_i64 :: "json \<Rightarrow> i64 \<Rightarrow> bool \<times> i64" where
  "dec_i64 (JInt n) old =
     (if min_i64 \<le> n \<and> n \<le> max_i64 then (False, word_of_int n) else (True, old))"
| "dec_i64 JNull old = (False, old)"
| "dec_i64 _ old = (True, old)"

fun dec_f64 :: "json \<Rightarrow> rat \<Rightarrow> bool \<times> rat" where
  "dec_f64 (JInt n) old = (False, of_int n)"
| "dec_f64 (JFloat q) old = (False, q)"
| "dec_f64 JNull old = (False, old)"
| "dec_f64 _ old = (True, old)"

fun dec_str :: "json \<Rightarrow> string \<Rightarrow> bool \<times> string" where
  "dec_str (JStr s) old = (False, s)"
| "dec_str JNull old = (False, old)"
| "dec_str _ old = (True, old)"

fun dec_i64s :: "json \<Rightarrow> i64 list \<Rightarrow> bool \<times> i64 list" where
  "dec_i64s (JArr js) old =
     (list_ex (\<lambda>j. fst (dec_i64 j 0)) js, map (\<lambda>j. snd (dec_i64 j 0)) js)"
| "dec_i64s JNull old = (False, [])"
| "dec_i64s _ old = (True, old)"

text \<open>A key selects the struct field whose name it equals up to ASCII case.\<close>

definition fold_key :: "string \<Rightarrow> string" where
  "fold_key = map (\<lambda>c. if CHR ''A'' \<le> c \<and> c \<le> CHR ''Z'' then char_of (of_char c + (32 :: nat)) else c)"

text \<open>Writing a field: integers as \<open>JInt\<close>, a \<^verbatim>\<open>float64\<close> as \<open>JInt\<close> when it prints without a fraction.\<close>

definition enc_i64 :: "i64 \<Rightarrow> json" where
  "enc_i64 w = JInt (sint w)"

definition enc_f64 :: "rat \<Rightarrow> json" where
  "enc_f64 q = (if q = of_int \<lfloor>q\<rfloor> then JInt \<lfloor>q\<rfloor> else JFloat q)"

lemma dec_enc_i64 [simp]: "dec_i64 (enc_i64 w) old = (False, w)"
  by (simp add: enc_i64_def)

lemma dec_enc_f64 [simp]: "dec_f64 (enc_f64 q) old = (False, q)"
  by (auto simp: enc_f64_def)

lemma dec_enc_i64s [simp]: "dec_i64s (JArr (map enc_i64 ws)) old = (False, ws)"
  by (induction ws) (auto simp: list_ex_iff)

end
