(* ===== verification/Retry.thy ===== *)
theory Retry
  imports Json
begin

text \<open>
  \<^verbatim>\<open>retry.go\<close>: the backoff policies, the delay each one computes, and their stored form.

  What the process keeps outside the policy values is the record \<open>retry_env\<close>: the registry of named
  curves (a registered function may be nil), the next value \<^verbatim>\<open>rand.Float64\<close> returns, and the two parts
  of \<^verbatim>\<open>float64\<close> arithmetic the jitter goes through (rounding to the nearest \<^verbatim>\<open>float64\<close>, and what
  a conversion to an integer that does not fit gives, which Go leaves to the machine).
\<close>

subsection \<open>Policies\<close>

text \<open>
  The arguments are the struct's fields in order: \<^verbatim>\<open>Base\<close>, \<^verbatim>\<open>Max\<close> and \<^verbatim>\<open>Jitter\<close> (a finite \<^verbatim>\<open>float64\<close>,
  as the rational it denotes), \<^verbatim>\<open>Step\<close> and \<^verbatim>\<open>Max\<close>, \<^verbatim>\<open>Interval\<close>, the list, the name. \<open>CustomPolicy\<close> stands for
  an implementation of the interface outside the package.
\<close>

datatype retry_policy =
    Exponential i64 i64 rat
  | Linear i64 i64
  | Fixed i64
  | Intervals "i64 list"
  | Named string
  | CustomPolicy nat

record retry_env =
  namedPolicies :: "string \<rightharpoonup> (int \<Rightarrow> i64) option"
  customDelay :: "nat \<Rightarrow> int \<Rightarrow> i64"
  rand_Float64 :: rat
  float_round :: "rat \<Rightarrow> rat"
  float_overflow :: "rat \<Rightarrow> i64"

definition RegisterRetryPolicy :: "string \<Rightarrow> (int \<Rightarrow> i64) option \<Rightarrow> retry_env \<Rightarrow> retry_env" where
  "RegisterRetryPolicy name fn E = E\<lparr>namedPolicies := (namedPolicies E)(name \<mapsto> fn)\<rparr>"

subsection \<open>Delays\<close>

text \<open>The doubling loop of \<^verbatim>\<open>Exponential.Delay\<close>; the first argument counts the iterations left.\<close>

fun exp_loop :: "nat \<Rightarrow> i64 \<Rightarrow> i64 \<Rightarrow> i64" where
  "exp_loop 0 mx d = d"
| "exp_loop (Suc n) mx d =
     (let d = d * 2 in if 0 < sint mx \<and> sint mx \<le> sint d then mx else exp_loop n mx d)"

definition trunc :: "rat \<Rightarrow> int" where
  "trunc q = (if q < 0 then - \<lfloor>- q\<rfloor> else \<lfloor>q\<rfloor>)"

definition float_to_i64 :: "retry_env \<Rightarrow> rat \<Rightarrow> i64" where
  "float_to_i64 E q =
     (if min_i64 \<le> trunc q \<and> trunc q \<le> max_i64 then word_of_int (trunc q) else float_overflow E q)"

definition cap :: "i64 \<Rightarrow> i64 \<Rightarrow> i64" where
  "cap mx d = (if 0 < sint mx \<and> sint mx < sint d then mx else d)"

definition spread :: "retry_env \<Rightarrow> rat \<Rightarrow> i64 \<Rightarrow> i64" where
  "spread E jitter d =
     (if 0 < jitter then
        (let fl = float_round E;
             f = fl (1 + fl (jitter * fl (fl (2 * rand_Float64 E) - 1)))
         in float_to_i64 E (fl (fl (of_int (sint d)) * f)))
      else d)"

fun Delay :: "retry_env \<Rightarrow> retry_policy \<Rightarrow> int \<Rightarrow> i64" where
  "Delay E (Exponential base mx jitter) attempt =
     spread E jitter (cap mx (exp_loop (nat (attempt - 1)) mx base))"
| "Delay E (Linear step mx) attempt = cap mx (word_of_int attempt * step)"
| "Delay E (Fixed interval) attempt = interval"
| "Delay E (Intervals p) attempt =
     (if p = [] then 0
      else (let attempt = (if attempt < 1 then 1 else attempt);
                attempt = (if int (length p) < attempt then int (length p) else attempt)
            in p ! nat (attempt - 1)))"
| "Delay E (Named name) attempt =
     (case namedPolicies E name of Some (Some fn) \<Rightarrow> fn attempt | _ \<Rightarrow> 0)"
| "Delay E (CustomPolicy n) attempt = customDelay E n attempt"

subsection \<open>The stored form\<close>

record policyEnvelope =
  pe_Type :: string
  pe_Base :: i64
  pe_Max :: i64
  pe_Jitter :: rat
  pe_Step :: i64
  pe_Interval :: i64
  pe_Intervals :: "i64 list"
  pe_Name :: string

definition zero_policy :: policyEnvelope where
  "zero_policy = \<lparr>pe_Type = [], pe_Base = 0, pe_Max = 0, pe_Jitter = 0, pe_Step = 0, pe_Interval = 0,
     pe_Intervals = [], pe_Name = []\<rparr>"

text \<open>\<^verbatim>\<open>json.Marshal\<close> of the envelope: every field but the type is left out when it is empty.\<close>

definition marshal_policy :: "policyEnvelope \<Rightarrow> json" where
  "marshal_policy e = JObj
     ([(''type'', JStr (pe_Type e))] @
      (if pe_Base e = 0 then [] else [(''base'', enc_i64 (pe_Base e))]) @
      (if pe_Max e = 0 then [] else [(''max'', enc_i64 (pe_Max e))]) @
      (if pe_Jitter e = 0 then [] else [(''jitter'', enc_f64 (pe_Jitter e))]) @
      (if pe_Step e = 0 then [] else [(''step'', enc_i64 (pe_Step e))]) @
      (if pe_Interval e = 0 then [] else [(''interval'', enc_i64 (pe_Interval e))]) @
      (if pe_Intervals e = [] then [] else [(''intervals'', JArr (map enc_i64 (pe_Intervals e)))]) @
      (if pe_Name e = [] then [] else [(''name'', JStr (pe_Name e))]))"

text \<open>\<^verbatim>\<open>json.Unmarshal\<close> of one key into the envelope: whether its value had the wrong type, and the result.\<close>

definition unmarshal_policy_field :: "string \<Rightarrow> json \<Rightarrow> policyEnvelope \<Rightarrow> bool \<times> policyEnvelope" where
  "unmarshal_policy_field key v e =
     (let k = fold_key key in
      if k = ''type'' then (let (bad, x) = dec_str v (pe_Type e) in (bad, e\<lparr>pe_Type := x\<rparr>))
      else if k = ''base'' then (let (bad, x) = dec_i64 v (pe_Base e) in (bad, e\<lparr>pe_Base := x\<rparr>))
      else if k = ''max'' then (let (bad, x) = dec_i64 v (pe_Max e) in (bad, e\<lparr>pe_Max := x\<rparr>))
      else if k = ''jitter'' then (let (bad, x) = dec_f64 v (pe_Jitter e) in (bad, e\<lparr>pe_Jitter := x\<rparr>))
      else if k = ''step'' then (let (bad, x) = dec_i64 v (pe_Step e) in (bad, e\<lparr>pe_Step := x\<rparr>))
      else if k = ''interval'' then (let (bad, x) = dec_i64 v (pe_Interval e) in (bad, e\<lparr>pe_Interval := x\<rparr>))
      else if k = ''intervals'' then (let (bad, x) = dec_i64s v (pe_Intervals e) in (bad, e\<lparr>pe_Intervals := x\<rparr>))
      else if k = ''name'' then (let (bad, x) = dec_str v (pe_Name e) in (bad, e\<lparr>pe_Name := x\<rparr>))
      else (False, e))"

fun unmarshal_policy :: "(string \<times> json) list \<Rightarrow> policyEnvelope \<Rightarrow> bool \<times> policyEnvelope" where
  "unmarshal_policy [] e = (False, e)"
| "unmarshal_policy ((k, v) # kvs) e =
     (let (bad, e1) = unmarshal_policy_field k v e; (bad', e2) = unmarshal_policy kvs e1
      in (bad \<or> bad', e2))"

fun EncodeRetryPolicy :: "retry_policy option \<Rightarrow> go_error + raw" where
  "EncodeRetryPolicy None = Inr RawNil"
| "EncodeRetryPolicy (Some (Exponential base mx jitter)) =
     Inr (RawJson (marshal_policy (zero_policy\<lparr>pe_Type := ''exponential'', pe_Base := base, pe_Max := mx, pe_Jitter := jitter\<rparr>)))"
| "EncodeRetryPolicy (Some (Linear step mx)) =
     Inr (RawJson (marshal_policy (zero_policy\<lparr>pe_Type := ''linear'', pe_Step := step, pe_Max := mx\<rparr>)))"
| "EncodeRetryPolicy (Some (Fixed interval)) =
     Inr (RawJson (marshal_policy (zero_policy\<lparr>pe_Type := ''fixed'', pe_Interval := interval\<rparr>)))"
| "EncodeRetryPolicy (Some (Intervals p)) =
     Inr (RawJson (marshal_policy (zero_policy\<lparr>pe_Type := ''intervals'', pe_Intervals := p\<rparr>)))"
| "EncodeRetryPolicy (Some (Named name)) =
     Inr (RawJson (marshal_policy (zero_policy\<lparr>pe_Type := ''named'', pe_Name := name\<rparr>)))"
| "EncodeRetryPolicy (Some (CustomPolicy n)) = Inl (ErrorString ''goque: unencodable retry policy'')"

definition policy_of_envelope :: "retry_env \<Rightarrow> policyEnvelope \<Rightarrow> go_error + retry_policy option" where
  "policy_of_envelope E e =
     (if pe_Type e = ''exponential'' then Inr (Some (Exponential (pe_Base e) (pe_Max e) (pe_Jitter e)))
      else if pe_Type e = ''linear'' then Inr (Some (Linear (pe_Step e) (pe_Max e)))
      else if pe_Type e = ''fixed'' then Inr (Some (Fixed (pe_Interval e)))
      else if pe_Type e = ''intervals'' then Inr (Some (Intervals (pe_Intervals e)))
      else if pe_Type e = ''named'' then
        (case namedPolicies E (pe_Name e) of
           None \<Rightarrow> Inl (ErrorString (''goque: unregistered retry policy '' @ pe_Name e))
         | Some fn \<Rightarrow> Inr (Some (Named (pe_Name e))))
      else Inl (ErrorString (''goque: unknown retry policy type '' @ pe_Type e)))"

fun DecodeRetryPolicy :: "retry_env \<Rightarrow> raw \<Rightarrow> go_error + retry_policy option" where
  "DecodeRetryPolicy E RawNil = Inr None"
| "DecodeRetryPolicy E RawEmpty = Inr None"
| "DecodeRetryPolicy E (RawBad s) = Inl json_error"
| "DecodeRetryPolicy E (RawJson JNull) = policy_of_envelope E zero_policy"
| "DecodeRetryPolicy E (RawJson (JObj kvs)) =
     (let (bad, e) = unmarshal_policy kvs zero_policy
      in if bad then Inl json_error else policy_of_envelope E e)"
| "DecodeRetryPolicy E (RawJson _) = Inl json_error"

subsection \<open>The stored form decodes to the policy it came from\<close>

lemma unmarshal_policy_append:
  "unmarshal_policy (xs @ ys) e =
     (let (b1, e1) = unmarshal_policy xs e; (b2, e2) = unmarshal_policy ys e1 in (b1 \<or> b2, e2))"
  by (induction xs arbitrary: e) (auto simp: case_prod_beta Let_def)

lemma fold_policy_keys [simp]:
  "fold_key ''type'' = ''type''" "fold_key ''base'' = ''base''" "fold_key ''max'' = ''max''"
  "fold_key ''jitter'' = ''jitter''" "fold_key ''step'' = ''step''" "fold_key ''interval'' = ''interval''"
  "fold_key ''intervals'' = ''intervals''" "fold_key ''name'' = ''name''"
  by code_simp+

lemma unmarshal_marshal_policy:
  "\<exists>kvs. marshal_policy e = JObj kvs \<and> unmarshal_policy kvs zero_policy = (False, e)"
  by (cases e)
    (simp add: marshal_policy_def unmarshal_policy_field_def zero_policy_def del: dec_i64s.simps)

end
