(* ===== verification/Rows.thy ===== *)
theory Rows
  imports Json
begin

text \<open>
  \<^verbatim>\<open>backend/backend.go\<close>: the job row, its states, and the parameters of the storage contract. A row
  handed out by a backend is a copy, so rows are values here. The record \<open>backend\<close> is Go's
  \<^verbatim>\<open>Backend\<close> interface over a state \<open>'s\<close>: each method takes its parameters and the state, and
  returns its result or error with the new state.
\<close>

subsection \<open>States\<close>

text \<open>Go's \<^verbatim>\<open>State\<close> is a string; \<open>StateUnset\<close> is the empty one, a row not yet enqueued.\<close>

datatype job_state =
    StateUnset
  | StateScheduled
  | StateAvailable
  | StateRunning
  | StateRetryable
  | StateCompleted
  | StateCancelled
  | StateDead

definition Terminal :: "job_state \<Rightarrow> bool" where
  "Terminal s \<longleftrightarrow> s = StateCompleted \<or> s = StateCancelled \<or> s = StateDead"

lemma Terminal_simps [simp]:
  "Terminal StateCompleted" "Terminal StateCancelled" "Terminal StateDead"
  "\<not> Terminal StateUnset" "\<not> Terminal StateScheduled" "\<not> Terminal StateAvailable"
  "\<not> Terminal StateRunning" "\<not> Terminal StateRetryable"
  by (simp_all add: Terminal_def)

subsection \<open>Rows\<close>

record attempt_error =
  ae_at :: instant
  ae_attempt :: int
  ae_err :: string
  ae_stack :: string

record job_row =
  ID :: int
  Kind :: string
  Queue :: string
  Payload :: raw
  State :: job_state
  PriorityBoost :: duration
  PriorityAt :: instant
  Attempt :: int
  Generation :: int
  MaxAttempts :: int
  CreatedAt :: instant
  ScheduledAt :: instant
  AttemptedAt :: instant
  FinalizedAt :: instant
  HeartbeatAt :: instant
  AttemptedBy :: "string list"
  CancelRequested :: bool
  ConcurrencyKey :: string
  ThrottleKey :: string
  DebounceKey :: string
  DebounceDeadline :: instant
  RetryPolicyBytes :: raw
  Metadata :: raw
  Output :: raw
  Version :: int
  Errors :: "attempt_error list"

text \<open>A row whose fields all have Go's zero value.\<close>

definition zero_row :: job_row where
  "zero_row =
    \<lparr>ID = 0, Kind = [], Queue = [], Payload = RawNil, State = StateUnset,
     PriorityBoost = 0, PriorityAt = zero_time, Attempt = 0, Generation = 0, MaxAttempts = 0,
     CreatedAt = zero_time, ScheduledAt = zero_time, AttemptedAt = zero_time,
     FinalizedAt = zero_time, HeartbeatAt = zero_time, AttemptedBy = [], CancelRequested = False,
     ConcurrencyKey = [], ThrottleKey = [], DebounceKey = [], DebounceDeadline = zero_time,
     RetryPolicyBytes = RawNil, Metadata = RawNil, Output = RawNil, Version = 0, Errors = []\<rparr>"

subsection \<open>Parameters\<close>

record enqueue_params =
  ep_Jobs :: "job_row list"
  ep_Now :: instant

record fetch_params =
  fp_Queue :: string
  fp_Limit :: int
  fp_ClientID :: string
  fp_Now :: instant

record job_finalize =
  jf_ID :: int
  jf_Generation :: int
  jf_Metadata :: raw

record complete_params =
  cp_Jobs :: "job_finalize list"
  cp_Now :: instant

record job_retry =
  jr_ID :: int
  jr_Generation :: int
  jr_At :: instant
  jr_Err :: attempt_error
  jr_Metadata :: raw

record retry_params =
  rp_Jobs :: "job_retry list"
  rp_Now :: instant

record job_cancel =
  jc_ID :: int
  jc_Generation :: int
  jc_Err :: string
  jc_Metadata :: raw

record cancel_params =
  xp_Jobs :: "job_cancel list"
  xp_Now :: instant

record job_kill =
  jk_ID :: int
  jk_Generation :: int
  jk_Err :: attempt_error
  jk_Metadata :: raw

record kill_params =
  kp_Jobs :: "job_kill list"
  kp_Now :: instant

record job_snooze =
  js_ID :: int
  js_Generation :: int
  js_At :: instant
  js_Metadata :: raw

record snooze_params =
  sp_Jobs :: "job_snooze list"
  sp_Now :: instant

record job_heartbeat =
  jh_ID :: int
  jh_Generation :: int

record heartbeat_params =
  hp_ClientID :: string
  hp_Jobs :: "job_heartbeat list"
  hp_Now :: instant

record move_due_params =
  mp_Now :: instant
  mp_Limit :: int

record rescue_params =
  sr_Now :: instant
  sr_TTL :: duration
  sr_Limit :: int

record clean_params =
  cl_Now :: instant
  cl_CompletedRetention :: duration
  cl_CancelledRetention :: duration
  cl_DeadRetention :: duration
  cl_Limit :: int

subsection \<open>The storage interface\<close>

text \<open>
  \<^verbatim>\<open>Enqueue\<close> fills the passed rows in place; here it returns them. A heartbeat's result is the list
  of IDs that have been asked to stop.
\<close>

record 's backend =
  Enqueue :: "enqueue_params \<Rightarrow> 's \<Rightarrow> (go_error + job_row list) \<times> 's"
  Fetch :: "fetch_params \<Rightarrow> 's \<Rightarrow> (go_error + job_row list) \<times> 's"
  Complete :: "complete_params \<Rightarrow> 's \<Rightarrow> go_error option \<times> 's"
  Retry :: "retry_params \<Rightarrow> 's \<Rightarrow> go_error option \<times> 's"
  CancelJobs :: "cancel_params \<Rightarrow> 's \<Rightarrow> go_error option \<times> 's"
  Kill :: "kill_params \<Rightarrow> 's \<Rightarrow> go_error option \<times> 's"
  Snooze :: "snooze_params \<Rightarrow> 's \<Rightarrow> go_error option \<times> 's"
  Heartbeat :: "heartbeat_params \<Rightarrow> 's \<Rightarrow> (go_error + int list) \<times> 's"
  MoveDue :: "move_due_params \<Rightarrow> 's \<Rightarrow> (go_error + int) \<times> 's"
  RescueStale :: "rescue_params \<Rightarrow> 's \<Rightarrow> (go_error + int) \<times> 's"
  Clean :: "clean_params \<Rightarrow> 's \<Rightarrow> (go_error + int) \<times> 's"

end
