(* ===== verification/Options.thy ===== *)
theory Options
  imports Retry Rows
begin

text \<open>
  \<^verbatim>\<open>options.go\<close>: the per-job options and their layering, the library's own entry in a job's metadata
  (the \<^verbatim>\<open>goque\<close> key), and the construction of the row to insert.

  What a job argument type brings along is the record \<open>job_args\<close>: its kind, what \<^verbatim>\<open>json.Marshal\<close>
  makes of it, and its optional methods \<^verbatim>\<open>JobOptions\<close> and \<^verbatim>\<open>Priority\<close>.
\<close>

subsection \<open>Options and their layers\<close>

record job_options =
  oQueue :: string
  oPriorityBoost :: duration
  oMaxAttempts :: int
  oRetryPolicy :: "retry_policy option"
  oTimeout :: duration
  oScheduledAt :: instant
  oDelay :: duration
  oMetadata :: raw
  oVersion :: int

definition zero_options :: job_options where
  "zero_options = \<lparr>oQueue = [], oPriorityBoost = 0, oMaxAttempts = 0, oRetryPolicy = None, oTimeout = 0,
     oScheduledAt = zero_time, oDelay = 0, oMetadata = RawNil, oVersion = 0\<rparr>"

type_synonym enqueue_option = "job_options \<Rightarrow> job_options"

definition WithQueue :: "string \<Rightarrow> enqueue_option" where
  "WithQueue q o' = o'\<lparr>oQueue := q\<rparr>"

definition WithPriority :: "duration \<Rightarrow> enqueue_option" where
  "WithPriority d o' = o'\<lparr>oPriorityBoost := d\<rparr>"

definition WithDelay :: "duration \<Rightarrow> enqueue_option" where
  "WithDelay d o' = o'\<lparr>oDelay := d\<rparr>"

definition WithScheduledAt :: "instant \<Rightarrow> enqueue_option" where
  "WithScheduledAt t o' = o'\<lparr>oScheduledAt := t\<rparr>"

definition WithMaxAttempts :: "int \<Rightarrow> enqueue_option" where
  "WithMaxAttempts n o' = o'\<lparr>oMaxAttempts := n\<rparr>"

definition WithRetryPolicy :: "retry_policy option \<Rightarrow> enqueue_option" where
  "WithRetryPolicy p o' = o'\<lparr>oRetryPolicy := p\<rparr>"

definition WithTimeout :: "duration \<Rightarrow> enqueue_option" where
  "WithTimeout d o' = o'\<lparr>oTimeout := d\<rparr>"

definition WithMetadata :: "raw \<Rightarrow> enqueue_option" where
  "WithMetadata m o' = o'\<lparr>oMetadata := m\<rparr>"

definition WithVersion :: "int \<Rightarrow> enqueue_option" where
  "WithVersion v o' = o'\<lparr>oVersion := v\<rparr>"

lemmas with_defs =
  WithQueue_def WithPriority_def WithDelay_def WithScheduledAt_def WithMaxAttempts_def
  WithRetryPolicy_def WithTimeout_def WithMetadata_def WithVersion_def

record job_args =
  aKind :: string
  aPayload :: "go_error + raw"
  aJobOptions :: "job_options option"
  aPriority :: "duration option"

definition kindOptions :: "job_args \<Rightarrow> job_options" where
  "kindOptions args =
     (let opts = (case aJobOptions args of Some p \<Rightarrow> p | None \<Rightarrow> zero_options) in
      case aPriority args of
        Some d \<Rightarrow> if oPriorityBoost opts = 0 then opts\<lparr>oPriorityBoost := d\<rparr> else opts
      | None \<Rightarrow> opts)"

definition overlay :: "job_options \<Rightarrow> job_options \<Rightarrow> job_options" where
  "overlay base over =
     (let base = (if oQueue over \<noteq> [] then base\<lparr>oQueue := oQueue over\<rparr> else base);
          base = (if oPriorityBoost over \<noteq> 0 then base\<lparr>oPriorityBoost := oPriorityBoost over\<rparr> else base);
          base = (if oMaxAttempts over \<noteq> 0 then base\<lparr>oMaxAttempts := oMaxAttempts over\<rparr> else base);
          base = (if oRetryPolicy over \<noteq> None then base\<lparr>oRetryPolicy := oRetryPolicy over\<rparr> else base);
          base = (if oTimeout over \<noteq> 0 then base\<lparr>oTimeout := oTimeout over\<rparr> else base);
          base = (if \<not> IsZero (oScheduledAt over) then base\<lparr>oScheduledAt := oScheduledAt over\<rparr> else base);
          base = (if oDelay over \<noteq> 0 then base\<lparr>oDelay := oDelay over\<rparr> else base);
          base = (if oMetadata over \<noteq> RawNil then base\<lparr>oMetadata := oMetadata over\<rparr> else base)
      in if oVersion over \<noteq> 0 then base\<lparr>oVersion := oVersion over\<rparr> else base)"

definition resolveOptions :: "job_options \<Rightarrow> job_options \<Rightarrow> enqueue_option list \<Rightarrow> job_options" where
  "resolveOptions clientDefaults kindDefaults opts =
     overlay (overlay clientDefaults kindDefaults) (foldl (\<lambda>enq f. f enq) zero_options opts)"

subsection \<open>The envelope in the metadata\<close>

record envelope =
  TimeoutMS :: i64
  Snoozes :: i64

definition zero_envelope :: envelope where
  "zero_envelope = \<lparr>TimeoutMS = 0, Snoozes = 0\<rparr>"

text \<open>Decoding goes on after a value of the wrong type; \<^verbatim>\<open>decodeMeta\<close> ignores the error.\<close>

definition envelope_field :: "string \<Rightarrow> json \<Rightarrow> envelope \<Rightarrow> envelope" where
  "envelope_field key v env =
     (if fold_key key = ''timeout_ms'' then env\<lparr>TimeoutMS := snd (dec_i64 v (TimeoutMS env))\<rparr>
      else if fold_key key = ''snoozes'' then env\<lparr>Snoozes := snd (dec_i64 v (Snoozes env))\<rparr>
      else env)"

fun unmarshal_envelope :: "json \<Rightarrow> envelope \<Rightarrow> envelope" where
  "unmarshal_envelope (JObj kvs) env = fold (\<lambda>(k, v). envelope_field k v) kvs env"
| "unmarshal_envelope _ env = env"

definition marshal_envelope :: "envelope \<Rightarrow> json" where
  "marshal_envelope env = JObj
     ((if TimeoutMS env = 0 then [] else [(''timeout_ms'', enc_i64 (TimeoutMS env))]) @
      (if Snoozes env = 0 then [] else [(''snoozes'', enc_i64 (Snoozes env))]))"

definition decodeMeta :: "raw \<Rightarrow> raw_map \<times> envelope" where
  "decodeMeta meta =
     (let m = (if has_bytes meta then snd (Unmarshal_map meta (Some [])) else Some []) in
      case Option.bind m (\<lambda>kvs. map_of kvs ''goque'') of
        Some raw \<Rightarrow> (m, unmarshal_envelope raw zero_envelope)
      | None \<Rightarrow> (m, zero_envelope))"

text \<open>Assigning to a nil map panics.\<close>

fun encodeMeta :: "raw_map \<Rightarrow> envelope \<Rightarrow> go_error + raw" where
  "encodeMeta None env = Inl (PanicError ''assignment to entry in nil map'' [])"
| "encodeMeta (Some m) env = Inr (RawJson (JObj (map_put ''goque'' (marshal_envelope env) m)))"

text \<open>\<^verbatim>\<open>Duration.Milliseconds\<close> divides and drops the remainder, towards zero.\<close>

definition Milliseconds :: "duration \<Rightarrow> i64" where
  "Milliseconds d = word_of_int (sgn (sint d) * (\<bar>sint d\<bar> div 1000000))"

definition setEnvelope :: "raw \<Rightarrow> duration \<Rightarrow> go_error + raw" where
  "setEnvelope meta timeout =
     (let (m, env) = decodeMeta meta in encodeMeta m (env\<lparr>TimeoutMS := Milliseconds timeout\<rparr>))"

definition envelopeTimeout :: "raw \<Rightarrow> duration option" where
  "envelopeTimeout meta =
     (let (m, env) = decodeMeta meta
      in if TimeoutMS env = 0 then None else Some (TimeoutMS env * 1000000))"

definition bumpSnoozes :: "raw \<Rightarrow> (go_error + raw) \<times> i64" where
  "bumpSnoozes meta =
     (let (m, env) = decodeMeta meta; env = env\<lparr>Snoozes := Snoozes env + 1\<rparr>
      in (encodeMeta m env, Snoozes env))"

definition JobTimeout :: "job_row \<Rightarrow> duration option" where
  "JobTimeout row = envelopeTimeout (Metadata row)"

subsection \<open>Building a row\<close>

definition buildRow :: "fmt \<Rightarrow> job_args \<Rightarrow> job_options \<Rightarrow> instant \<Rightarrow> go_error + job_row" where
  "buildRow F args resolved now =
     (if oDelay resolved \<noteq> 0 \<and> \<not> IsZero (oScheduledAt resolved) then
        Inl (Wrapped (sentinel_text ErrConflictingOptions @ '': WithDelay and WithScheduledAt are mutually exclusive'')
              (Sentinel ErrConflictingOptions))
      else case aPayload args of
        Inl err \<Rightarrow> Inl (Wrapped (''goque: marshal '' @ aKind args @ '' args: '' @ Error F err) err)
      | Inr payload \<Rightarrow>
      (case EncodeRetryPolicy (oRetryPolicy resolved) of
        Inl err \<Rightarrow> Inl err
      | Inr policy \<Rightarrow>
      (let scheduledAt =
             (if oDelay resolved \<noteq> 0 then time_Add now (oDelay resolved)
              else if \<not> IsZero (oScheduledAt resolved) then oScheduledAt resolved
              else now);
           version = (if oVersion resolved = 0 then 1 else oVersion resolved)
       in case (if has_bytes (oMetadata resolved) then fst (Unmarshal_map (oMetadata resolved) None) else None) of
            Some err \<Rightarrow>
              Inl (Wrapped (sentinel_text ErrInvalidMetadata @ '': '' @ Error F err) (Sentinel ErrInvalidMetadata))
          | None \<Rightarrow>
          (case setEnvelope (oMetadata resolved) (oTimeout resolved) of
             Inl err \<Rightarrow> Inl err
           | Inr meta \<Rightarrow>
               Inr (zero_row\<lparr>Kind := aKind args, Queue := oQueue resolved, Payload := payload,
                      PriorityBoost := oPriorityBoost resolved, MaxAttempts := oMaxAttempts resolved,
                      ScheduledAt := scheduledAt, RetryPolicyBytes := policy, Metadata := meta,
                      Version := version\<rparr>)))))"

end
