(* ===== verification/Workers.thy ===== *)
theory Workers
  imports Options
begin

text \<open>
  \<^verbatim>\<open>registry.go\<close>, \<^verbatim>\<open>middleware.go\<close> and \<^verbatim>\<open>middleware/middleware.go\<close>: the registry of workers and the
  functions wrapped around a worker.

  Workers, middleware and hooks are the user's code, so they are arguments: functions that see a
  context and the job's row, change the world \<open>'w\<close> they run in (storage included, since a worker may
  enqueue) and the row (which Go passes by pointer), and return or panic.
\<close>

subsection \<open>Contexts and the outcome of user code\<close>

text \<open>A context is the tree of derivations it was made by.\<close>

datatype ctx =
    Background
  | CtxCancel ctx
  | CtxTimeout ctx duration
  | CtxWithoutCancel ctx

datatype returned = Returned "go_error option" | Panicked string string

type_synonym 'w work_fn = "ctx \<Rightarrow> job_row \<Rightarrow> 'w \<Rightarrow> returned \<times> job_row \<times> 'w"
type_synonym 'w middleware = "'w work_fn \<Rightarrow> 'w work_fn"

subsection \<open>The registry\<close>

record 'w binding =
  bKind :: string
  bDispatch :: "'w work_fn"

record 'w workers =
  bindings :: "string \<rightharpoonup> 'w binding"

definition NewWorkers :: "'w workers" where
  "NewWorkers = \<lparr>bindings = Map.empty\<rparr>"

text \<open>
  What \<^verbatim>\<open>Register[T]\<close> needs of the argument type \<open>'a\<close>: the kind of its zero value and how JSON decodes
  into it; and of the worker: its \<^verbatim>\<open>Work\<close> method.
\<close>

definition dispatch_binding ::
  "fmt \<Rightarrow> string \<Rightarrow> (raw \<Rightarrow> go_error + 'a) \<Rightarrow> (ctx \<Rightarrow> 'a \<Rightarrow> job_row \<Rightarrow> 'w \<Rightarrow> returned \<times> job_row \<times> 'w)
   \<Rightarrow> 'w work_fn" where
  "dispatch_binding F kind unmarshal work ctx row w =
     (case unmarshal (Payload row) of
        Inl err \<Rightarrow>
          (Returned (Some (Wrapped (''goque: decode '' @ kind @ '' payload: '' @ Error F err) err)), row, w)
      | Inr args \<Rightarrow> work ctx args row w)"

definition Register ::
  "fmt \<Rightarrow> string \<Rightarrow> (raw \<Rightarrow> go_error + 'a) \<Rightarrow> (ctx \<Rightarrow> 'a \<Rightarrow> job_row \<Rightarrow> 'w \<Rightarrow> returned \<times> job_row \<times> 'w)
   \<Rightarrow> 'w workers \<Rightarrow> go_error option \<times> 'w workers" where
  "Register F kind unmarshal work ws =
     (case bindings ws kind of
        Some b \<Rightarrow> (Some (Wrapped (sentinel_text ErrDuplicateKind @ '': '' @ kind) (Sentinel ErrDuplicateKind)), ws)
      | None \<Rightarrow>
          (None, ws\<lparr>bindings := (bindings ws)
             (kind \<mapsto> \<lparr>bKind = kind, bDispatch = dispatch_binding F kind unmarshal work\<rparr>)\<rparr>))"

definition RegisterFunc ::
  "fmt \<Rightarrow> string \<Rightarrow> (raw \<Rightarrow> go_error + 'a) \<Rightarrow> (ctx \<Rightarrow> 'a \<Rightarrow> job_row \<Rightarrow> 'w \<Rightarrow> returned \<times> job_row \<times> 'w)
   \<Rightarrow> 'w workers \<Rightarrow> go_error option \<times> 'w workers" where
  "RegisterFunc F kind unmarshal fn ws = Register F kind unmarshal (\<lambda>ctx args row w. fn ctx args row w) ws"

definition dispatch :: "'w workers \<Rightarrow> string \<Rightarrow> 'w work_fn option" where
  "dispatch ws kind = (case bindings ws kind of None \<Rightarrow> None | Some b \<Rightarrow> Some (bDispatch b))"

subsection \<open>Chains\<close>

text \<open>The loop runs from the last entry to the first, wrapping what it has so far.\<close>

definition chainWork :: "'w middleware list \<Rightarrow> 'w work_fn \<Rightarrow> 'w work_fn" where
  "chainWork mws final = foldl (\<lambda>wf mw. mw wf) final (rev mws)"

type_synonym 'w enqueue_fn = "job_row list \<Rightarrow> 'w \<Rightarrow> (go_error + job_row list) \<times> 'w"

definition chainEnqueue :: "('w enqueue_fn \<Rightarrow> 'w enqueue_fn) list \<Rightarrow> 'w enqueue_fn \<Rightarrow> 'w enqueue_fn" where
  "chainEnqueue mws final = foldl (\<lambda>ef mw. mw ef) final (rev mws)"

lemma chainWork_Nil [simp]: "chainWork [] final = final"
  by (simp add: chainWork_def)

lemma chainWork_Cons [simp]: "chainWork (mw # mws) final = mw (chainWork mws final)"
  by (simp add: chainWork_def)

lemma chainWork_append: "chainWork (xs @ ys) final = chainWork xs (chainWork ys final)"
  by (induction xs) simp_all

lemma chainEnqueue_Nil [simp]: "chainEnqueue [] final = final"
  by (simp add: chainEnqueue_def)

lemma chainEnqueue_Cons [simp]: "chainEnqueue (mw # mws) final = mw (chainEnqueue mws final)"
  by (simp add: chainEnqueue_def)

subsection \<open>The ready-made middleware\<close>

definition Recovery :: "'w middleware" where
  "Recovery next ctx job w =
     (case next ctx job w of
        (Panicked r st, job', w') \<Rightarrow> (Returned (Some (PanicError r st)), job', w')
      | (Returned err, job', w') \<Rightarrow> (Returned err, job', w'))"

definition Timeout :: "'w middleware" where
  "Timeout next ctx job w =
     (case JobTimeout job of
        None \<Rightarrow> next ctx job w
      | Some d \<Rightarrow> next (CtxTimeout ctx d) job w)"

text \<open>The logger is an effect on the world; \<open>job_line\<close> is one message with the fields it carries.\<close>

datatype job_line =
    JobStart string string int int
  | JobError string string int int go_error
  | JobDone string string int int

definition Logger :: "(job_line \<Rightarrow> 'w \<Rightarrow> 'w) \<Rightarrow> 'w middleware" where
  "Logger l next ctx job w =
     (case next ctx job (l (JobStart (Kind job) (Queue job) (ID job) (Attempt job)) w) of
        (Panicked r st, job', w') \<Rightarrow> (Panicked r st, job', w')
      | (Returned (Some err), job', w') \<Rightarrow>
          (Returned (Some err), job', l (JobError (Kind job') (Queue job') (ID job') (Attempt job') err) w')
      | (Returned None, job', w') \<Rightarrow>
          (Returned None, job', l (JobDone (Kind job') (Queue job') (ID job') (Attempt job')) w'))"

text \<open>A hook that panics does not return; \<open>Some\<close> carries the panic.\<close>

record 'w hook_funcs =
  Before :: "(ctx \<Rightarrow> job_row \<Rightarrow> 'w \<Rightarrow> (string \<times> string) option \<times> job_row \<times> 'w) option"
  After :: "(ctx \<Rightarrow> job_row \<Rightarrow> go_error option \<Rightarrow> 'w \<Rightarrow> (string \<times> string) option \<times> job_row \<times> 'w) option"

definition Hooks :: "'w hook_funcs \<Rightarrow> 'w middleware" where
  "Hooks h next ctx job w =
     (case (case Before h of None \<Rightarrow> (None, job, w) | Some before \<Rightarrow> before ctx job w) of
        (Some (r, st), job1, w1) \<Rightarrow> (Panicked r st, job1, w1)
      | (None, job1, w1) \<Rightarrow>
          (case next ctx job1 w1 of
             (Panicked r st, job2, w2) \<Rightarrow> (Panicked r st, job2, w2)
           | (Returned err, job2, w2) \<Rightarrow>
               (case (case After h of None \<Rightarrow> (None, job2, w2) | Some after \<Rightarrow> after ctx job2 err w2) of
                  (Some (r, st), job3, w3) \<Rightarrow> (Panicked r st, job3, w3)
                | (None, job3, w3) \<Rightarrow> (Returned err, job3, w3))))"

lemma Recovery_returns: "\<exists>err. fst (Recovery next ctx job w) = Returned err"
  by (simp add: Recovery_def split: prod.split returned.split)

end
