(* ===== verification/Executor.thy ===== *)
theory Executor
  imports Workers
begin

text \<open>
  \<^verbatim>\<open>executor.go\<close>: one execution of one job. \<open>workOnce\<close> runs the worker and turns a panic into an error,
  \<open>decide\<close> is the switch of \<^verbatim>\<open>runJob\<close> on that error, and \<open>runJob_begin\<close> and \<open>runJob_end\<close> are the two
  halves of \<^verbatim>\<open>runJob\<close> around the work; other goroutines may run in between.
\<close>

subsection \<open>Finalizations\<close>

text \<open>\<^verbatim>\<open>finalizeOp\<close> of \<^verbatim>\<open>completer.go\<close>: the kind of outcome with its parameters.\<close>

datatype finalizeOp =
    opComplete job_finalize
  | opRetry job_retry
  | opCancel job_cancel
  | opKill job_kill
  | opSnooze job_snooze

subsection \<open>The client's view of running jobs\<close>

record activeJob =
  cancelled :: bool
  generation :: int
  fenced :: bool

text \<open>
  \<open>active\<close> is the \<^verbatim>\<open>sync.Map\<close> from job IDs to pointers, \<open>cells\<close> the structs behind the pointers,
  \<open>wake\<close> the one-slot channel that wakes the dispatch loop, \<open>fin\<close> the state of the finalizer.
\<close>

record ('w, 'f) run_state =
  world :: 'w
  fin :: 'f
  active :: "int \<rightharpoonup> nat"
  cells :: "activeJob list"
  wake :: bool

record 'w run_cfg =
  rcWorkers :: "'w workers"
  rcMiddleware :: "'w middleware list"
  rcDefaultPolicy :: "retry_policy option"
  rcErrorHandler :: "(ctx \<Rightarrow> job_row \<Rightarrow> go_error option \<Rightarrow> 'w \<Rightarrow> (string \<times> string) option \<times> job_row \<times> 'w) option"
  rcPanicHandler :: "(ctx \<Rightarrow> job_row \<Rightarrow> string \<Rightarrow> string \<Rightarrow> 'w \<Rightarrow> (string \<times> string) option \<times> job_row \<times> 'w) option"
  rcNow :: "'w \<Rightarrow> instant \<times> 'w"
  rcFmt :: fmt
  rcRetry :: retry_env

subsection \<open>Running the worker\<close>

definition workOnce :: "'w run_cfg \<Rightarrow> ctx \<Rightarrow> job_row \<Rightarrow> 'w \<Rightarrow> go_error option \<times> job_row \<times> 'w" where
  "workOnce cfg ctx row w =
     (case dispatch (rcWorkers cfg) (Kind row) of
        None \<Rightarrow> (Some (ErrorString (''no worker registered for kind '' @ Kind row)), row, w)
      | Some d \<Rightarrow>
          (case chainWork (rcMiddleware cfg) (\<lambda>ctx row w. d ctx row w) ctx row w of
             (Panicked r st, row', w') \<Rightarrow> (Some (PanicError r st), row', w')
           | (Returned err, row', w') \<Rightarrow> (err, row', w')))"

definition policyDelay :: "retry_env \<Rightarrow> job_row \<Rightarrow> retry_policy option \<Rightarrow> duration" where
  "policyDelay E row fallback =
     (let p = (case DecodeRetryPolicy E (RetryPolicyBytes row) of Inl err \<Rightarrow> None | Inr p \<Rightarrow> p);
          p = (case p of None \<Rightarrow> fallback | Some q \<Rightarrow> Some q);
          p = (case p of None \<Rightarrow> Exponential 2000000000 900000000000 0 | Some q \<Rightarrow> q)
      in Delay E p (Attempt row))"

subsection \<open>Choosing the outcome\<close>

datatype handler_call = NoCall | CallErrorHandler "go_error option" | CallPanicHandler string string

text \<open>
  The handler that is called, and what is pushed once it has returned, computed from the row as the
  handler left it; or the panic that ends the switch: a nil error in a control error, and metadata whose
  envelope cannot be written. \<open>kill_op\<close> and \<open>retry_op\<close> are the literals of the two failing outcomes.
\<close>

definition nil_dereference :: go_error where
  "nil_dereference = PanicError ''invalid memory address or nil pointer dereference'' []"

definition kill_op :: "attempt_error \<Rightarrow> job_row \<Rightarrow> finalizeOp" where
  "kill_op ae row =
     opKill \<lparr>jk_ID = ID row, jk_Generation = Generation row, jk_Err = ae, jk_Metadata = Metadata row\<rparr>"

definition retry_op :: "instant \<Rightarrow> attempt_error \<Rightarrow> job_row \<Rightarrow> finalizeOp" where
  "retry_op t ae row =
     opRetry \<lparr>jr_ID = ID row, jr_Generation = Generation row, jr_At = t, jr_Err = ae, jr_Metadata = Metadata row\<rparr>"

definition decide ::
  "fmt \<Rightarrow> retry_env \<Rightarrow> retry_policy option \<Rightarrow> job_row \<Rightarrow> go_error option \<Rightarrow> instant
   \<Rightarrow> handler_call \<times> (job_row \<Rightarrow> go_error + finalizeOp)" where
  "decide F E fallback row err now =
     (case err of
        None \<Rightarrow>
          (NoCall, \<lambda>row. Inr (opComplete \<lparr>jf_ID = ID row, jf_Generation = Generation row, jf_Metadata = Metadata row\<rparr>))
      | Some e \<Rightarrow>
      (case asCancel e of
        Some None \<Rightarrow> (NoCall, \<lambda>row. Inl nil_dereference)
      | Some (Some ce) \<Rightarrow>
          (NoCall, \<lambda>row. Inr (opCancel \<lparr>jc_ID = ID row, jc_Generation = Generation row, jc_Err = Error F ce,
             jc_Metadata = Metadata row\<rparr>))
      | None \<Rightarrow>
      (case asSnooze e of
        Some d \<Rightarrow>
          (NoCall, \<lambda>row. case fst (bumpSnoozes (Metadata row)) of
             Inl panic \<Rightarrow> Inl panic
           | Inr meta \<Rightarrow>
               Inr (opSnooze \<lparr>js_ID = ID row, js_Generation = Generation row, js_At = time_Add now d,
                  js_Metadata = meta\<rparr>))
      | None \<Rightarrow>
      (case asRetryAt e of
        Some (t, None) \<Rightarrow> (NoCall, \<lambda>row. Inl nil_dereference)
      | Some (t, Some re) \<Rightarrow>
          (let ae = \<lparr>ae_at = now, ae_attempt = Attempt row, ae_err = Error F re, ae_stack = []\<rparr> in
           if MaxAttempts row \<le> Attempt row
           then (CallErrorHandler (Some re), \<lambda>row. Inr (kill_op ae row))
           else (NoCall, \<lambda>row. Inr (retry_op t ae row)))
      | None \<Rightarrow>
          (let ae = \<lparr>ae_at = now, ae_attempt = Attempt row, ae_err = Error F e, ae_stack = []\<rparr>;
               (call, ae) = (case asPanic e of
                   Some (r, st) \<Rightarrow> (CallPanicHandler r st, ae\<lparr>ae_stack := st\<rparr>)
                 | None \<Rightarrow> (CallErrorHandler (Some e), ae))
           in (call, \<lambda>row. Inr
                (if MaxAttempts row \<le> Attempt row then kill_op ae row
                 else retry_op (time_Add now (policyDelay E row fallback)) ae row)))))))"

definition call_handler ::
  "'w run_cfg \<Rightarrow> ctx \<Rightarrow> job_row \<Rightarrow> handler_call \<Rightarrow> 'w \<Rightarrow> (string \<times> string) option \<times> job_row \<times> 'w" where
  "call_handler cfg ctx row call w =
     (case call of
        NoCall \<Rightarrow> (None, row, w)
      | CallErrorHandler err \<Rightarrow>
          (case rcErrorHandler cfg of None \<Rightarrow> (None, row, w) | Some h \<Rightarrow> h ctx row err w)
      | CallPanicHandler r st \<Rightarrow>
          (case rcPanicHandler cfg of None \<Rightarrow> (None, row, w) | Some h \<Rightarrow> h ctx row r st w))"

subsection \<open>runJob\<close>

type_synonym ('w, 'f) push_fn = "finalizeOp \<Rightarrow> 'w \<times> 'f \<Rightarrow> 'w \<times> 'f"

definition pushFenced ::
  "('w, 'f) push_fn \<Rightarrow> nat \<Rightarrow> finalizeOp \<Rightarrow> ('w, 'f) run_state \<Rightarrow> ('w, 'f) run_state" where
  "pushFenced push p fop s =
     (if fenced (cells s ! p) then s
      else (let (w, f) = push fop (world s, fin s) in s\<lparr>world := w, fin := f\<rparr>))"

text \<open>Before the work: the job's context, its entry among the active jobs, and the pointer to it.\<close>

definition runJob_begin :: "ctx \<Rightarrow> job_row \<Rightarrow> ('w, 'f) run_state \<Rightarrow> ctx \<times> nat \<times> ('w, 'f) run_state" where
  "runJob_begin ctx row s =
     (let jctx = (case envelopeTimeout (Metadata row) of Some d \<Rightarrow> CtxTimeout ctx d | None \<Rightarrow> CtxCancel ctx);
          p = length (cells s)
      in (jctx, p, s\<lparr>cells := cells s @ [\<lparr>cancelled = False, generation = Generation row, fenced = False\<rparr>],
                     active := (active s)(ID row \<mapsto> p)\<rparr>))"

text \<open>The deferred function: it also runs when the switch panics.\<close>

definition runJob_defer :: "nat \<Rightarrow> job_row \<Rightarrow> ('w, 'f) run_state \<Rightarrow> ('w, 'f) run_state" where
  "runJob_defer p row s =
     s\<lparr>cells := (cells s)[p := (cells s ! p)\<lparr>cancelled := True\<rparr>],
       active := (if active s (ID row) = Some p then (active s)(ID row := None) else active s),
       wake := True\<rparr>"

text \<open>After the work. The result is the panic that leaves \<^verbatim>\<open>runJob\<close>, if there is one.\<close>

definition runJob_end ::
  "'w run_cfg \<Rightarrow> ('w, 'f) push_fn \<Rightarrow> ctx \<Rightarrow> nat \<Rightarrow> job_row \<Rightarrow> go_error option \<Rightarrow> ('w, 'f) run_state
   \<Rightarrow> go_error option \<times> job_row \<times> ('w, 'f) run_state" where
  "runJob_end cfg push ctx p row err s =
     (let (now, w1) = rcNow cfg (world s);
          (call, decision) = decide (rcFmt cfg) (rcRetry cfg) (rcDefaultPolicy cfg) row err now;
          (panic, row, w2) = call_handler cfg ctx row call w1;
          s = s\<lparr>world := w2\<rparr>
      in case panic of
           Some (r, st) \<Rightarrow> (Some (PanicError r st), row, runJob_defer p row s)
         | None \<Rightarrow>
             (case decision row of
                Inl e \<Rightarrow> (Some e, row, runJob_defer p row s)
              | Inr fop \<Rightarrow> (None, row, runJob_defer p row (pushFenced push p fop s))))"

definition runJob ::
  "'w run_cfg \<Rightarrow> ('w, 'f) push_fn \<Rightarrow> ctx \<Rightarrow> job_row \<Rightarrow> ('w, 'f) run_state
   \<Rightarrow> go_error option \<times> job_row \<times> ('w, 'f) run_state" where
  "runJob cfg push ctx row s =
     (let (jctx, p, s) = runJob_begin ctx row s;
          (err, row, w) = workOnce cfg jctx row (world s)
      in runJob_end cfg push ctx p row err (s\<lparr>world := w\<rparr>))"

end
