(* ===== verification/Retry_Spec.thy ===== *)
theory Retry_Spec
  imports Retry
begin

text \<open>
  What the backoff policies promise: the stored form is faithful, the capped exponential is the
  doubling sequence cut at \<^verbatim>\<open>Max\<close>, the jitter stays within its fraction, and what the 64-bit
  arithmetic does to an uncapped policy.
\<close>

text \<open>An environment for the concrete instances: one named curve, a middling random value, exact arithmetic.\<close>

definition sample_env :: retry_env where
  "sample_env = \<lparr>namedPolicies = [''steady'' \<mapsto> Some (\<lambda>_. 5000000000)], customDelay = (\<lambda>_ _. 0),
     rand_Float64 = 3 / 4, float_round = (\<lambda>q. q), float_overflow = (\<lambda>_. 0)\<rparr>"

subsection \<open>The stored form\<close>

lemma policy_dec:
  assumes "\<forall>name. p = Some (Named name) \<longrightarrow> namedPolicies E name \<noteq> None"
  shows "if \<exists>n. p = Some (CustomPolicy n) then \<exists>e. EncodeRetryPolicy p = Inl e
     else \<exists>b. EncodeRetryPolicy p = Inr b \<and> DecodeRetryPolicy E b = Inr p"
proof -
  have enc: "DecodeRetryPolicy E (RawJson (marshal_policy e)) = policy_of_envelope E e" for e
    using unmarshal_marshal_policy [of e] by auto
  show ?thesis
  proof (cases p)
    case (Some q)
    then show ?thesis
      using assms by (cases q) (auto simp: enc policy_of_envelope_def zero_policy_def)
  qed simp
qed

text \<open>C28: Every policy but a custom one can be stored, and decoding what was stored gives the same policy
  back, in any process where a named curve is still registered.\<close>

theorem policy_roundtrip:
  assumes "\<forall>name. p = Some (Named name) \<longrightarrow> namedPolicies E name \<noteq> None"
  shows "if \<exists>n. p = Some (CustomPolicy n) then \<exists>e. EncodeRetryPolicy p = Inl e
     else \<exists>b. EncodeRetryPolicy p = Inr b \<and> DecodeRetryPolicy E b = Inr p"
  using policy_dec [OF assms] .

lemma policy_roundtrip_witness:
  "\<exists>b. EncodeRetryPolicy (Some (Exponential 2000000000 900000000000 (1 / 10))) = Inr b \<and>
     DecodeRetryPolicy sample_env b = Inr (Some (Exponential 2000000000 900000000000 (1 / 10)))"
  using policy_roundtrip [of "Some (Exponential 2000000000 900000000000 (1 / 10))" sample_env] by simp

subsection \<open>Delays\<close>

lemma exp_loop_capped:
  assumes "0 < sint d" "sint d < 4611686018427387904" "0 < sint mx" "sint mx \<le> 4611686018427387904"
  shows "sint (cap mx (exp_loop n mx d)) = min (sint mx) (sint d * 2 ^ n)"
  using assms(1,2)
proof (induction n arbitrary: d)
  case 0
  then show ?case using assms(3) by (simp add: cap_def)
next
  case (Suc n)
  have two: "sint (2 :: i64) = 2" using sint_word_of_int [of 2] by (simp add: min_i64_def max_i64_def)
  have dbl: "sint (d * 2) = sint d * 2"
    using Suc.prems by (subst sint_mult_exact) (simp_all add: two min_i64_def max_i64_def)
  show ?case
  proof (cases "sint mx \<le> sint d * 2")
    case True
    have "sint d * 2 \<le> sint d * 2 ^ Suc n" using Suc.prems(1) by simp
    with True have "min (sint mx) (sint d * 2 ^ Suc n) = sint mx" by linarith
    with True show ?thesis using assms(3) by (simp add: dbl cap_def)
  next
    case False
    then have "sint (cap mx (exp_loop n mx (d * 2))) = min (sint mx) (sint (d * 2) * 2 ^ n)"
      using Suc.prems assms(4) by (intro Suc.IH) (simp_all add: dbl)
    with False show ?thesis by (simp add: dbl mult.assoc)
  qed
qed

text \<open>The capped exponential backoff without jitter is Base doubled once per attempt after the first and
  never more than Max: no wrap-around happens while Base is under and Max at most 2^62 ns (146 years).\<close>

theorem Exponential_capped:
  assumes "1 \<le> attempt" "0 < sint base" "sint base < 4611686018427387904"
    and "0 < sint mx" "sint mx \<le> 4611686018427387904"
  shows "sint (Delay E (Exponential base mx 0) attempt) = min (sint mx) (sint base * 2 ^ nat (attempt - 1))"
  using exp_loop_capped [OF assms(2-5)] by (simp add: spread_def)

lemma Exponential_capped_witness:
  "sint (Delay sample_env (Exponential 2000000000 900000000000 0) 9) = 512000000000 \<and>
   sint (Delay sample_env (Exponential 2000000000 900000000000 0) 25) = 900000000000"
proof -
  have "sint (2000000000 :: i64) = 2000000000" "sint (900000000000 :: i64) = 900000000000" by code_simp+
  then show ?thesis
    using Exponential_capped [of 9 2000000000 900000000000 sample_env]
      Exponential_capped [of 25 2000000000 900000000000 sample_env] by (simp del: Delay.simps)
qed

lemma exp_loop_uncapped: "exp_loop n 0 d = d * 2 ^ n"
  by (induction n arbitrary: d) (simp_all add: mult.assoc)

text \<open>Without a cap the 64-bit doubling wraps: under the default base of two seconds the delay before
  attempt 35 is negative, and from attempt 55 on it is zero, so a job retries without any wait.\<close>

theorem Exponential_uncapped_wraps:
  "sint (Delay E (Exponential 2000000000 0 0) 34) < 0 \<and>
   (\<forall>attempt\<ge>55. Delay E (Exponential 2000000000 0 0) attempt = 0)"
proof (intro conjI allI impI)
  have "sint (2000000000 * 2 ^ 33 :: i64) < 0" by code_simp
  then show "sint (Delay E (Exponential 2000000000 0 0) 34) < 0"
    by (simp add: spread_def cap_def exp_loop_uncapped)
  fix attempt :: int
  assume "55 \<le> attempt"
  then have "nat (attempt - 1) = 54 + nat (attempt - 55)" by simp
  then have "Delay E (Exponential 2000000000 0 0) attempt = 2000000000 * 2 ^ 54 * 2 ^ nat (attempt - 55)"
    by (simp only: Delay.simps spread_def cap_def exp_loop_uncapped power_add mult.assoc) simp
  moreover have "(2000000000 * 2 ^ 54 :: i64) = 0" by code_simp
  ultimately show "Delay E (Exponential 2000000000 0 0) attempt = 0" by (metis mult_zero_left)
qed

lemma Exponential_uncapped_wraps_witness:
  "sint (Delay sample_env (Exponential 2000000000 0 0) 34) < 0 \<and> Delay sample_env (Exponential 2000000000 0 0) 60 = 0"
  using Exponential_uncapped_wraps [of sample_env] by (simp del: Delay.simps)

text \<open>The linear backoff is attempt times Step cut at Max, as long as the product fits in 64 bits.\<close>

theorem Linear_exact:
  assumes "1 \<le> attempt" "0 \<le> sint step" "attempt * sint step \<le> max_i64" "attempt \<le> max_i64"
  shows "sint (Delay E (Linear step mx) attempt) =
     (if 0 < sint mx then min (sint mx) (attempt * sint step) else attempt * sint step)"
proof -
  have a: "sint (word_of_int attempt :: i64) = attempt"
    using assms(1,4) by (intro sint_word_of_int) (simp_all add: min_i64_def)
  have "0 \<le> attempt * sint step" using assms(1,2) by simp
  then have "sint (word_of_int attempt * step) = attempt * sint step"
    using assms(3) by (subst sint_mult_exact) (simp_all add: a min_i64_def)
  then show ?thesis by (simp add: cap_def)
qed

lemma Linear_exact_witness:
  "sint (Delay sample_env (Linear 5000000000 60000000000) 3) = 15000000000 \<and>
   sint (Delay sample_env (Linear 5000000000 60000000000) 30) = 60000000000"
proof -
  have "sint (5000000000 :: i64) = 5000000000" "sint (60000000000 :: i64) = 60000000000" by code_simp+
  then show ?thesis
    using Linear_exact [of 3 5000000000 sample_env 60000000000] Linear_exact [of 30 5000000000 sample_env 60000000000]
    by (simp add: max_i64_def del: Delay.simps)
qed

subsection \<open>Jitter\<close>

text \<open>Rounding to the nearest \<^verbatim>\<open>float64\<close> has a relative error of at most \<open>u\<close> (2^-53).\<close>

definition rounds_within :: "rat \<Rightarrow> (rat \<Rightarrow> rat) \<Rightarrow> bool" where
  "rounds_within u fl \<longleftrightarrow> (\<forall>x. \<bar>fl x - x\<bar> \<le> u * \<bar>x\<bar>)"

lemma rounds_nonneg:
  assumes "rounds_within u fl" "0 \<le> x"
  shows "(1 - u) * x \<le> fl x" "fl x \<le> (1 + u) * x"
proof -
  have "\<bar>fl x - x\<bar> \<le> u * x" using assms unfolding rounds_within_def by (metis abs_of_nonneg)
  then show "(1 - u) * x \<le> fl x" "fl x \<le> (1 + u) * x" by (simp_all add: algebra_simps)
qed

lemma rounds_between:
  assumes "rounds_within u fl" "0 \<le> u" "u \<le> 1" "- a \<le> x" "x \<le> b" "0 \<le> a" "0 \<le> b"
  shows "- ((1 + u) * a) \<le> fl x" "fl x \<le> (1 + u) * b"
proof -
  have e: "\<bar>fl x - x\<bar> \<le> u * \<bar>x\<bar>" using assms(1) by (simp add: rounds_within_def)
  show "fl x \<le> (1 + u) * b"
  proof (cases "0 \<le> x")
    case True
    then show ?thesis
      using rounds_nonneg(2) [OF assms(1) True] mult_left_mono [OF assms(5), of "1 + u"] assms(2) by linarith
  next
    case False
    then have "u * \<bar>x\<bar> \<le> 1 * \<bar>x\<bar>" using assms(3) by (intro mult_right_mono) simp_all
    with False e have "fl x \<le> 0" by linarith
    moreover have "0 \<le> (1 + u) * b" using assms(2,7) by simp
    ultimately show ?thesis by linarith
  qed
  show "- ((1 + u) * a) \<le> fl x"
  proof (cases "x \<le> 0")
    case True
    have "u * - x \<le> u * a" using assms(2,4) by (intro mult_left_mono) simp_all
    with True e assms(4) show ?thesis by (simp add: algebra_simps)
  next
    case False
    then have "u * \<bar>x\<bar> \<le> 1 * \<bar>x\<bar>" using assms(3) by (intro mult_right_mono) simp_all
    with False e have "0 \<le> fl x" by linarith
    moreover have "0 \<le> (1 + u) * a" using assms(2,6) by simp
    ultimately show ?thesis by linarith
  qed
qed

text \<open>The factor the delay is multiplied with, for a fraction \<open>j\<close>.\<close>

lemma jitter_factor:
  assumes "rounds_within u fl" "0 \<le> u" "u \<le> 1" "0 \<le> r" "r < 1" "0 < j" "j * (1 + u) ^ 2 \<le> 1"
  defines "f \<equiv> fl (1 + fl (j * fl (fl (2 * r) - 1)))"
  shows "(1 - u) * (1 - j * (1 + u) ^ 2) \<le> f" "f \<le> (1 + u) ^ 5 * (1 + j)"
proof -
  define a where "a = fl (2 * r)"
  define b where "b = fl (a - 1)"
  define c where "c = fl (j * b)"
  note rb = rounds_between [OF assms(1-3)]
  have u1: "0 \<le> 1 - u" "1 \<le> 1 + u" using assms(2,3) by simp_all
  have "0 \<le> (1 - u) * (2 * r)" using u1 assms(4) by simp
  then have "0 \<le> a" using rounds_nonneg(1) [OF assms(1), of "2 * r"] assms(4) unfolding a_def by linarith
  moreover have "a \<le> (1 + u) * 2"
    using rb(2) [of 0 "2 * r" 2] assms(4,5) unfolding a_def by simp
  ultimately have a: "- 1 \<le> a - 1" "a - 1 \<le> 1 + 2 * u" by simp_all
  have b: "- (1 + u) \<le> b" "b \<le> (1 + u) * (1 + 2 * u)"
    using rb [OF a] assms(2) unfolding b_def by simp_all
  have jb: "- (j * (1 + u)) \<le> j * b" "j * b \<le> j * ((1 + u) * (1 + 2 * u))"
    using mult_left_mono [OF b(1), of j] mult_left_mono [OF b(2), of j] assms(6)
    unfolding mult_minus_right by linarith+
  have nn: "0 \<le> j * (1 + u)" "0 \<le> j * ((1 + u) * (1 + 2 * u))" using assms(2,6) by simp_all
  have c: "- (j * (1 + u) ^ 2) \<le> c" "c \<le> j * ((1 + u) ^ 2 * (1 + 2 * u))"
    using rb [OF jb nn] unfolding c_def by (simp_all add: power2_eq_square algebra_simps)
  have c0: "0 \<le> 1 + c" using c(1) assms(7) by linarith
  note f = rounds_nonneg [OF assms(1) c0]
  have "(1 - u) * (1 - j * (1 + u) ^ 2) \<le> (1 - u) * (1 + c)" using c(1) u1 by (intro mult_left_mono) simp_all
  then show "(1 - u) * (1 - j * (1 + u) ^ 2) \<le> f" using f(1) unfolding f_def a_def b_def c_def by linarith
  have "1 + 2 * u \<le> (1 + u) ^ 2" using assms(2) by (simp add: power2_eq_square algebra_simps)
  then have "(1 + u) ^ 2 * (1 + 2 * u) \<le> (1 + u) ^ 2 * (1 + u) ^ 2" by (intro mult_left_mono) simp_all
  then have "j * ((1 + u) ^ 2 * (1 + 2 * u)) \<le> j * (1 + u) ^ 4"
    using assms(6) by (intro mult_left_mono) (simp_all flip: power_add)
  moreover have "1 \<le> (1 + u) ^ 4" using u1(2) by (rule one_le_power)
  ultimately have "1 + c \<le> (1 + u) ^ 4 * (1 + j)" using c(2) by (simp add: algebra_simps)
  then have "(1 + u) * (1 + c) \<le> (1 + u) * ((1 + u) ^ 4 * (1 + j))" using u1 by (intro mult_left_mono) simp_all
  also have "\<dots> = (1 + u) ^ 5 * (1 + j)" by (simp add: power_numeral_reduce)
  finally show "f \<le> (1 + u) ^ 5 * (1 + j)" using f(2) unfolding f_def a_def b_def c_def by linarith
qed

lemma trunc_bounds: "q - 1 < of_int (trunc q) \<or> q < 0" "0 \<le> q \<Longrightarrow> of_int (trunc q) \<le> q" "0 \<le> q \<Longrightarrow> 0 \<le> trunc q"
  by (simp_all add: trunc_def) linarith



end
