(* ===== verification/Options_Spec.thy ===== *)
theory Options_Spec
  imports Options Retry_Spec
begin

text \<open>
  What the options promise: layering is most-specific-first and associative, the library's entry in the
  metadata is kept apart from the caller's, and a built row says what the options said.
\<close>

subsection \<open>Layers\<close>

lemma IsZero_iff: "IsZero t \<longleftrightarrow> t = zero_time"
  by (simp add: IsZero_def)

lemma overlay_fields [simp]:
  "oQueue (overlay a b) = (if oQueue b \<noteq> [] then oQueue b else oQueue a)"
  "oPriorityBoost (overlay a b) = (if oPriorityBoost b \<noteq> 0 then oPriorityBoost b else oPriorityBoost a)"
  "oMaxAttempts (overlay a b) = (if oMaxAttempts b \<noteq> 0 then oMaxAttempts b else oMaxAttempts a)"
  "oRetryPolicy (overlay a b) = (if oRetryPolicy b \<noteq> None then oRetryPolicy b else oRetryPolicy a)"
  "oTimeout (overlay a b) = (if oTimeout b \<noteq> 0 then oTimeout b else oTimeout a)"
  "oScheduledAt (overlay a b) = (if oScheduledAt b \<noteq> zero_time then oScheduledAt b else oScheduledAt a)"
  "oDelay (overlay a b) = (if oDelay b \<noteq> 0 then oDelay b else oDelay a)"
  "oMetadata (overlay a b) = (if oMetadata b \<noteq> RawNil then oMetadata b else oMetadata a)"
  "oVersion (overlay a b) = (if oVersion b \<noteq> 0 then oVersion b else oVersion a)"
  by (simp_all add: overlay_def Let_def IsZero_iff)

lemma options_eqI:
  fixes a b :: job_options
  assumes "oQueue a = oQueue b" "oPriorityBoost a = oPriorityBoost b" "oMaxAttempts a = oMaxAttempts b"
    "oRetryPolicy a = oRetryPolicy b" "oTimeout a = oTimeout b" "oScheduledAt a = oScheduledAt b"
    "oDelay a = oDelay b" "oMetadata a = oMetadata b" "oVersion a = oVersion b"
  shows "a = b"
  using assms by (cases a; cases b) simp

lemma overlay_zero [simp]: "overlay zero_options a = a" "overlay a zero_options = a"
  by (rule options_eqI; simp add: zero_options_def)+

lemma overlay_assoc: "overlay (overlay a b) c = overlay a (overlay b c)"
  by (rule options_eqI) (auto simp del: not_None_eq)

text \<open>Options resolve most-specific-first, field by field: the value of the enqueue wins where it is
  set, else that of the job kind, else the client's; and within the enqueue the last option for a field wins.\<close>

theorem options_precedence:
  fixes opts :: "enqueue_option list" and client kind :: job_options
  defines "enq \<equiv> foldl (\<lambda>enq f. f enq) zero_options opts" and "r \<equiv> resolveOptions client kind opts"
  shows
  "oQueue r = (if oQueue enq \<noteq> [] then oQueue enq else if oQueue kind \<noteq> [] then oQueue kind else oQueue client) \<and>
   oPriorityBoost r = (if oPriorityBoost enq \<noteq> 0 then oPriorityBoost enq
     else if oPriorityBoost kind \<noteq> 0 then oPriorityBoost kind else oPriorityBoost client) \<and>
   oMaxAttempts r = (if oMaxAttempts enq \<noteq> 0 then oMaxAttempts enq
     else if oMaxAttempts kind \<noteq> 0 then oMaxAttempts kind else oMaxAttempts client) \<and>
   oRetryPolicy r = (if oRetryPolicy enq \<noteq> None then oRetryPolicy enq
     else if oRetryPolicy kind \<noteq> None then oRetryPolicy kind else oRetryPolicy client) \<and>
   oTimeout r = (if oTimeout enq \<noteq> 0 then oTimeout enq
     else if oTimeout kind \<noteq> 0 then oTimeout kind else oTimeout client) \<and>
   oScheduledAt r = (if oScheduledAt enq \<noteq> zero_time then oScheduledAt enq
     else if oScheduledAt kind \<noteq> zero_time then oScheduledAt kind else oScheduledAt client) \<and>
   oDelay r = (if oDelay enq \<noteq> 0 then oDelay enq else if oDelay kind \<noteq> 0 then oDelay kind else oDelay client) \<and>
   oMetadata r = (if oMetadata enq \<noteq> RawNil then oMetadata enq
     else if oMetadata kind \<noteq> RawNil then oMetadata kind else oMetadata client) \<and>
   oVersion r = (if oVersion enq \<noteq> 0 then oVersion enq
     else if oVersion kind \<noteq> 0 then oVersion kind else oVersion client)"
  by (simp add: r_def enq_def resolveOptions_def)

subsection \<open>Metadata\<close>

text \<open>What a metadata document holds under a key: later duplicates win, and only objects hold anything.\<close>

definition meta_get :: "raw \<Rightarrow> string \<Rightarrow> json option" where
  "meta_get meta k = (case meta of RawJson (JObj kvs) \<Rightarrow> map_of (rev kvs) k | _ \<Rightarrow> None)"

lemma map_of_put_all: "map_of (map_put_all kvs m) = map_of m ++ map_of (rev kvs)"
  by (induction kvs m rule: map_put_all.induct) (auto simp: fun_eq_iff map_add_def split: option.split)

lemma sorted_put_all:
  "sorted_wrt (<) (map fst m) \<Longrightarrow> sorted_wrt (<) (map fst (map_put_all kvs m))"
  by (induction kvs m rule: map_put_all.induct) (simp_all add: sorted_map_put)

lemma rev_sorted_alist:
  assumes "sorted_wrt (<) (map fst (m :: (string \<times> 'a) list))"
  shows "map_of (rev m) = map_of m"
proof -
  have "distinct (map fst m)" using assms strict_sorted_iff by blast
  then show ?thesis by (simp add: map_of_inject_set rev_map [symmetric])
qed

lemma put_all_sorted_id:
  assumes "sorted_wrt (<) (map fst m)"
  shows "map_put_all m [] = m"
  using assms by (intro sorted_alist_eq sorted_put_all) (simp_all add: map_of_put_all rev_sorted_alist)

lemma unmarshal_marshal_envelope [simp]: "unmarshal_envelope (marshal_envelope env) zero_envelope = env"
proof -
  have "fold_key ''timeout_ms'' = ''timeout_ms''" "fold_key ''snoozes'' = ''snoozes''" by code_simp+
  then show ?thesis
    by (cases env) (simp add: marshal_envelope_def envelope_field_def zero_envelope_def)
qed

text \<open>The metadata as the library reads it: the object's map (empty for absent metadata) and its envelope.\<close>

definition meta_ok :: "raw \<Rightarrow> bool" where
  "meta_ok meta \<longleftrightarrow> meta \<noteq> RawJson JNull"

lemma decodeMeta_map:
  "fst (decodeMeta meta) =
     (if meta_ok meta then Some (case meta of RawJson (JObj kvs) \<Rightarrow> map_put_all kvs [] | _ \<Rightarrow> []) else None)"
  by (cases meta rule: raw.exhaust)
    (auto simp: decodeMeta_def meta_ok_def Let_def split: option.split json.split)

lemma decodeMeta_lookup: "fst (decodeMeta meta) = Some m \<Longrightarrow> map_of m = meta_get meta \<and> sorted_wrt (<) (map fst m)"
  by (auto simp: decodeMeta_map meta_get_def map_of_put_all sorted_put_all fun_eq_iff
      split: if_splits raw.split json.split)

lemma encode_decode:
  assumes "sorted_wrt (<) (map fst m)" "encodeMeta (Some m) env = Inr meta"
  shows "decodeMeta meta = (Some (map_put ''goque'' (marshal_envelope env) m), env)"
    and "meta_get meta = (map_of m)(''goque'' \<mapsto> marshal_envelope env)"
proof -
  let ?m = "map_put ''goque'' (marshal_envelope env) m"
  have meta: "meta = RawJson (JObj ?m)" using assms(2) by simp
  have s: "sorted_wrt (<) (map fst ?m)" using assms(1) by (rule sorted_map_put)
  show "meta_get meta = (map_of m)(''goque'' \<mapsto> marshal_envelope env)"
    by (simp add: meta meta_get_def rev_sorted_alist [OF s] fun_eq_iff)
  show "decodeMeta meta = (Some ?m, env)"
    by (simp add: meta decodeMeta_def put_all_sorted_id [OF s])
qed

definition whole_ms :: "duration \<Rightarrow> int" where
  "whole_ms d = sgn (sint d) * (\<bar>sint d\<bar> div 1000000) * 1000000"

lemma Milliseconds_sint: "sint (Milliseconds d) = sgn (sint d) * (\<bar>sint d\<bar> div 1000000)"
proof -
  define q where "q = \<bar>sint d\<bar> div 1000000"
  have "0 \<le> q" "q \<le> 9223372036854"
    using i64_bounds [of d] by (simp_all add: q_def min_i64_def max_i64_def)
  then have "min_i64 \<le> sgn (sint d) * q" "sgn (sint d) * q \<le> max_i64"
    by (simp_all add: sgn_if min_i64_def max_i64_def)
  then show ?thesis unfolding Milliseconds_def q_def by (rule sint_word_of_int)
qed

lemma Milliseconds_back: "sint (Milliseconds d * 1000000) = whole_ms d"
proof -
  have m: "sint (1000000 :: i64) = 1000000" by code_simp
  define q where "q = \<bar>sint d\<bar> div 1000000 * 1000000"
  have q: "0 \<le> q" "q \<le> \<bar>sint d\<bar>" by (simp_all add: q_def)
  have "min_i64 \<le> sgn (sint d) * q" "sgn (sint d) * q \<le> max_i64"
    using q i64_bounds [of d] by (auto simp: sgn_if abs_if min_i64_def max_i64_def split: if_splits)
  then show ?thesis
    by (subst sint_mult_exact) (simp_all add: Milliseconds_sint m whole_ms_def q_def mult.assoc)
qed

lemma timeout_rt:
  assumes "setEnvelope meta t = Inr meta'"
  shows "map_option sint (envelopeTimeout meta') = (if \<bar>sint t\<bar> < 1000000 then None else Some (whole_ms t)) \<and>
     (\<forall>k. k \<noteq> ''goque'' \<longrightarrow> meta_get meta' k = meta_get meta k) \<and>
     Snoozes (snd (decodeMeta meta')) = Snoozes (snd (decodeMeta meta))"
proof -
  obtain om env where de: "decodeMeta meta = (om, env)" by fastforce
  with assms obtain m where m: "om = Some m" by (cases om) (simp_all add: setEnvelope_def)
  have s: "map_of m = meta_get meta" "sorted_wrt (<) (map fst m)"
    using decodeMeta_lookup [of meta m] de m by simp_all
  have "encodeMeta (Some m) (env\<lparr>TimeoutMS := Milliseconds t\<rparr>) = Inr meta'"
    using assms by (simp add: setEnvelope_def de m)
  note e = encode_decode [OF s(2) this]
  have zero: "Milliseconds t = 0 \<longleftrightarrow> \<bar>sint t\<bar> < 1000000"
  proof -
    have "Milliseconds t = 0 \<longleftrightarrow> sint (Milliseconds t) = 0" by (rule signed_eq_0_iff [symmetric])
    also have "\<dots> \<longleftrightarrow> \<bar>sint t\<bar> < 1000000"
      by (simp add: Milliseconds_sint sgn_if) linarith
    finally show ?thesis .
  qed
  show ?thesis
    by (simp add: envelopeTimeout_def e de s(1) zero Milliseconds_back)
qed

text \<open>C30: A timeout survives the row's metadata cut to whole milliseconds, and stamping it leaves the
  caller's keys and the snooze count alone; a timeout of less than a millisecond is lost.\<close>

theorem timeout_roundtrip:
  assumes "setEnvelope meta t = Inr meta'"
  shows "map_option sint (envelopeTimeout meta') = (if \<bar>sint t\<bar> < 1000000 then None else Some (whole_ms t)) \<and>
     (\<forall>k. k \<noteq> ''goque'' \<longrightarrow> meta_get meta' k = meta_get meta k) \<and>
     Snoozes (snd (decodeMeta meta')) = Snoozes (snd (decodeMeta meta))"
  using timeout_rt [OF assms] .

lemma timeout_roundtrip_witness:
  "map_option sint (envelopeTimeout (RawJson (JObj [(''goque'', JObj [(''timeout_ms'', JInt 1500)]), (''user'', JInt 7)])))
     = Some 1500000000 \<and>
   meta_get (RawJson (JObj [(''goque'', JObj [(''timeout_ms'', JInt 1500)]), (''user'', JInt 7)])) ''user'' = Some (JInt 7)"
proof -
  have e: "setEnvelope (RawJson (JObj [(''user'', JInt 7)])) 1500999999 =
     Inr (RawJson (JObj [(''goque'', JObj [(''timeout_ms'', JInt 1500)]), (''user'', JInt 7)]))" by code_simp
  have "sint (1500999999 :: i64) = 1500999999" by code_simp
  then show ?thesis
    using timeout_roundtrip [OF e] by (simp add: whole_ms_def) (simp add: meta_get_def)
qed

text \<open>A snooze counts itself in the row's metadata and leaves the timeout and the caller's keys alone.\<close>

theorem bumpSnoozes_counts:
  assumes "fst (bumpSnoozes meta) = Inr meta'"
  shows "snd (bumpSnoozes meta) = Snoozes (snd (decodeMeta meta)) + 1 \<and>
     Snoozes (snd (decodeMeta meta')) = snd (bumpSnoozes meta) \<and>
     envelopeTimeout meta' = envelopeTimeout meta \<and>
     (\<forall>k. k \<noteq> ''goque'' \<longrightarrow> meta_get meta' k = meta_get meta k)"
proof -
  obtain om env where de: "decodeMeta meta = (om, env)" by fastforce
  with assms obtain m where m: "om = Some m" by (cases om) (simp_all add: bumpSnoozes_def Let_def)
  have s: "map_of m = meta_get meta" "sorted_wrt (<) (map fst m)"
    using decodeMeta_lookup [of meta m] de m by simp_all
  have "encodeMeta (Some m) (env\<lparr>Snoozes := Snoozes env + 1\<rparr>) = Inr meta'"
    using assms by (simp add: bumpSnoozes_def de m Let_def)
  note e = encode_decode [OF s(2) this]
  show ?thesis by (simp add: bumpSnoozes_def envelopeTimeout_def e de s(1) Let_def)
qed

lemma bumpSnoozes_counts_witness:
  "Snoozes (snd (decodeMeta (RawJson (JObj [(''goque'', JObj [(''timeout_ms'', JInt 5), (''snoozes'', JInt 3)])])))) = 3"
proof -
  have e: "fst (bumpSnoozes (RawJson (JObj [(''goque'', JObj [(''snoozes'', JInt 2), (''timeout_ms'', JInt 5)])]))) =
     Inr (RawJson (JObj [(''goque'', JObj [(''timeout_ms'', JInt 5), (''snoozes'', JInt 3)])]))" by code_simp
  have "snd (bumpSnoozes (RawJson (JObj [(''goque'', JObj [(''snoozes'', JInt 2), (''timeout_ms'', JInt 5)])]))) = 3" by code_simp
  then show ?thesis using bumpSnoozes_counts [OF e] by simp
qed

lemma setEnvelope_Inl: "(\<exists>e. setEnvelope meta t = Inl e) \<longleftrightarrow> \<not> meta_ok meta"
proof -
  obtain om env where de: "decodeMeta meta = (om, env)" by fastforce
  then show ?thesis
    using decodeMeta_map [of meta] by (cases om) (auto simp: setEnvelope_def split: if_splits)
qed

text \<open>Metadata that is the JSON text null passes the check that it is an object, but stamping the
  timeout then assigns to a nil map: building the row panics instead of failing with ErrInvalidMetadata.\<close>

theorem null_metadata_panics:
  assumes "oDelay r = 0" "aPayload args = Inr payload" "oRetryPolicy r = None"
  shows "\<exists>msg. buildRow F args (r\<lparr>oMetadata := RawJson JNull\<rparr>) now = Inl (PanicError msg [])"
  using assms by (simp add: buildRow_def setEnvelope_def decodeMeta_def Let_def)

lemma null_metadata_panics_witness:
  "\<exists>msg. buildRow \<lparr>fmt_duration = (\<lambda>_. []), fmt_time = (\<lambda>_. []), fmt_ids = (\<lambda>_. [])\<rparr>
     \<lparr>aKind = ''email'', aPayload = Inr (RawJson (JObj [])), aJobOptions = None, aPriority = None\<rparr>
     (zero_options\<lparr>oMetadata := RawJson JNull\<rparr>) 5 = Inl (PanicError msg [])"
  by (rule null_metadata_panics [of _ _ "RawJson (JObj [])"]) (simp_all add: zero_options_def)

subsection \<open>Rows\<close>

text \<open>C31: A row that is built says what the resolved options said: its schedule is the delay from now, the
  absolute time or now, its policy decodes to the policy asked for, its timeout is the one asked for in whole
  milliseconds, the caller's metadata is kept, and its attempt history is empty.\<close>

theorem buildRow_faithful:
  assumes "buildRow F args r now = Inr row" "\<forall>name. oRetryPolicy r = Some (Named name) \<longrightarrow> namedPolicies E name \<noteq> None"
  shows "Kind row = aKind args \<and> Queue row = oQueue r \<and> aPayload args = Inr (Payload row) \<and>
     PriorityBoost row = oPriorityBoost r \<and> MaxAttempts row = oMaxAttempts r \<and>
     ScheduledAt row = (if oDelay r \<noteq> 0 then now + sint (oDelay r)
                        else if oScheduledAt r \<noteq> zero_time then oScheduledAt r else now) \<and>
     \<not> (oDelay r \<noteq> 0 \<and> oScheduledAt r \<noteq> zero_time) \<and>
     DecodeRetryPolicy E (RetryPolicyBytes row) = Inr (oRetryPolicy r) \<and>
     map_option sint (JobTimeout row) = (if \<bar>sint (oTimeout r)\<bar> < 1000000 then None else Some (whole_ms (oTimeout r))) \<and>
     (\<forall>k. k \<noteq> ''goque'' \<longrightarrow> meta_get (Metadata row) k = meta_get (oMetadata r) k) \<and>
     Version row = (if oVersion r = 0 then 1 else oVersion r) \<and>
     Attempt row = 0 \<and> Generation row = 0 \<and> AttemptedBy row = [] \<and> Errors row = [] \<and> FinalizedAt row = zero_time"
proof -
  obtain payload policy meta where p: "aPayload args = Inr payload" "EncodeRetryPolicy (oRetryPolicy r) = Inr policy"
    "setEnvelope (oMetadata r) (oTimeout r) = Inr meta"
    using assms(1) unfolding buildRow_def Let_def by (auto split: if_splits sum.splits option.splits)
  have nc: "\<not> (oDelay r \<noteq> 0 \<and> \<not> IsZero (oScheduledAt r))"
    using assms(1) unfolding buildRow_def by (auto split: if_splits)
  have row: "row = zero_row\<lparr>Kind := aKind args, Queue := oQueue r, Payload := payload,
      PriorityBoost := oPriorityBoost r, MaxAttempts := oMaxAttempts r,
      ScheduledAt := (if oDelay r \<noteq> 0 then time_Add now (oDelay r)
                      else if \<not> IsZero (oScheduledAt r) then oScheduledAt r else now),
      RetryPolicyBytes := policy, Metadata := meta, Version := (if oVersion r = 0 then 1 else oVersion r)\<rparr>"
    using assms(1) nc unfolding buildRow_def Let_def p sum.case by (auto split: option.splits)
  have "DecodeRetryPolicy E policy = Inr (oRetryPolicy r)"
    using policy_dec [OF assms(2)] p(2) by (auto split: if_splits)
  then show ?thesis
    using timeout_rt [OF p(3)] nc p(1) unfolding row
    by (simp add: zero_row_def JobTimeout_def time_Add_def IsZero_iff)
qed

lemma buildRow_faithful_witness:
  "\<exists>row. buildRow \<lparr>fmt_duration = (\<lambda>_. []), fmt_time = (\<lambda>_. []), fmt_ids = (\<lambda>_. [])\<rparr>
       \<lparr>aKind = ''email'', aPayload = Inr (RawJson (JObj [])), aJobOptions = None, aPriority = None\<rparr>
       (zero_options\<lparr>oQueue := ''default'', oDelay := 7, oMetadata := RawJson (JObj [(''user'', JInt 7)])\<rparr>) 5 = Inr row \<and>
     ScheduledAt row = 12 \<and> meta_get (Metadata row) ''user'' = Some (JInt 7) \<and> Version row = 1"
proof -
  let ?F = "\<lparr>fmt_duration = (\<lambda>_. []), fmt_time = (\<lambda>_. []), fmt_ids = (\<lambda>_. [])\<rparr>"
  let ?args = "\<lparr>aKind = ''email'', aPayload = Inr (RawJson (JObj [])), aJobOptions = None, aPriority = None\<rparr>"
  let ?r = "zero_options\<lparr>oQueue := ''default'', oDelay := 7, oMetadata := RawJson (JObj [(''user'', JInt 7)])\<rparr>"
  have ok: "buildRow ?F ?args ?r 5 = Inr (projr (buildRow ?F ?args ?r 5))" by code_simp
  have "sint (7 :: i64) = 7" by code_simp
  then show ?thesis
    using buildRow_faithful [OF ok, of sample_env] ok
    by (intro exI [of _ "projr (buildRow ?F ?args ?r 5)"]) (simp add: zero_options_def meta_get_def)
qed

text \<open>What is left once the options do not conflict, the arguments marshal and the policy encodes.\<close>

lemma buildRow_metadata:
  assumes "\<not> (oDelay r \<noteq> 0 \<and> oScheduledAt r \<noteq> zero_time)" "aPayload args = Inr payload"
    "EncodeRetryPolicy (oRetryPolicy r) = Inr policy"
  shows "case oMetadata r of
         RawNil \<Rightarrow> \<exists>row. buildRow F args r now = Inr row
       | RawEmpty \<Rightarrow> \<exists>row. buildRow F args r now = Inr row
       | RawJson (JObj kvs) \<Rightarrow> \<exists>row. buildRow F args r now = Inr row
       | RawJson JNull \<Rightarrow> \<exists>msg. buildRow F args r now = Inl (PanicError msg [])
       | _ \<Rightarrow> \<exists>e. buildRow F args r now = Inl e \<and> errors_Is e ErrInvalidMetadata"
proof -
  have row: "\<exists>row. buildRow F args r now = Inr row"
    if "meta_ok (oMetadata r)" "has_bytes (oMetadata r) \<Longrightarrow> fst (Unmarshal_map (oMetadata r) None) = None"
  proof -
    have "\<not> (\<exists>e. setEnvelope (oMetadata r) (oTimeout r) = Inl e)" using that(1) by (simp add: setEnvelope_Inl)
    then obtain meta where m: "setEnvelope (oMetadata r) (oTimeout r) = Inr meta"
      by (cases "setEnvelope (oMetadata r) (oTimeout r)") auto
    have "(if has_bytes (oMetadata r) then fst (Unmarshal_map (oMetadata r) None) else None) = None"
      using that(2) by simp
    with m show ?thesis using assms unfolding buildRow_def IsZero_iff Let_def by simp
  qed
  have bad: "\<exists>e. buildRow F args r now = Inl e \<and> errors_Is e ErrInvalidMetadata"
    if "has_bytes (oMetadata r)" "fst (Unmarshal_map (oMetadata r) None) = Some err" for err
    using that assms by (simp add: buildRow_def IsZero_iff Let_def)
  have null: "\<exists>msg. buildRow F args r now = Inl (PanicError msg [])" if "oMetadata r = RawJson JNull"
    using that assms by (simp add: buildRow_def IsZero_iff Let_def setEnvelope_def decodeMeta_def)
  show ?thesis
    using row bad null by (cases "oMetadata r" rule: raw.exhaust) (auto simp: meta_ok_def split: json.split)
qed


end
