(* ===== verification/Executor_Spec.thy ===== *)
theory Executor_Spec
  imports Executor Options_Spec
begin

text \<open>
  What an execution promises: which outcome each error leads to, that the attempt budget is kept, that
  every finalization carries the token of the row, and that an execution hands over exactly one.
\<close>

subsection \<open>The token of a finalization\<close>

fun token :: "finalizeOp \<Rightarrow> int \<times> int" where
  "token (opComplete f) = (jf_ID f, jf_Generation f)"
| "token (opRetry f) = (jr_ID f, jr_Generation f)"
| "token (opCancel f) = (jc_ID f, jc_Generation f)"
| "token (opKill f) = (jk_ID f, jk_Generation f)"
| "token (opSnooze f) = (js_ID f, js_Generation f)"

lemma token_literals [simp]:
  "token (kill_op ae row) = (ID row, Generation row)"
  "token (retry_op t ae row) = (ID row, Generation row)"
  by (simp_all add: kill_op_def retry_op_def)

text \<open>The outcome as the state the job will be in.\<close>

fun outcome_state :: "finalizeOp \<Rightarrow> job_state" where
  "outcome_state (opComplete f) = StateCompleted"
| "outcome_state (opRetry f) = StateRetryable"
| "outcome_state (opCancel f) = StateCancelled"
| "outcome_state (opKill f) = StateDead"
| "outcome_state (opSnooze f) = StateRetryable"

lemma outcome_literals [simp]:
  "outcome_state (kill_op ae row) = StateDead" "outcome_state (retry_op t ae row) = StateRetryable"
  by (simp_all add: kill_op_def retry_op_def)

lemma decide_token: "snd (decide F E fb row err now) row' = Inr fop \<Longrightarrow> token fop = (ID row', Generation row')"
  by (auto simp: decide_def Let_def split: option.splits sum.splits if_splits prod.splits)

lemma same_error:
  "ae_at a = now \<Longrightarrow> ae_attempt a = n \<Longrightarrow> \<exists>ae. ae_at ae = now \<and> ae_attempt ae = n \<and> h a = h ae"
  by blast

text \<open>The four ways through the switch for an error.\<close>

lemma decide_cancel:
  "asCancel e = Some c \<Longrightarrow> snd (decide F E fb row (Some e) now) row' = Inr fop \<Longrightarrow>
     outcome_state fop = StateCancelled"
  by (auto simp: decide_def split: option.splits)

lemma decide_snooze:
  "asCancel e = None \<Longrightarrow> asSnooze e = Some d \<Longrightarrow> snd (decide F E fb row (Some e) now) row' = Inr fop \<Longrightarrow>
     \<exists>f. fop = opSnooze f \<and> js_At f = now + sint d"
  by (auto simp: decide_def time_Add_def split: sum.splits)

lemma decide_retryAt:
  "asCancel e = None \<Longrightarrow> asSnooze e = None \<Longrightarrow> asRetryAt e = Some (t, inner) \<Longrightarrow>
     snd (decide F E fb row (Some e) now) row' = Inr fop \<Longrightarrow>
     \<exists>ae. ae_at ae = now \<and> ae_attempt ae = Attempt row \<and>
       fop = (if Attempt row < MaxAttempts row then retry_op t ae row' else kill_op ae row')"
  by (auto simp: decide_def Let_def intro!: same_error [of _ _ _ "\<lambda>a. kill_op a row'"]
      same_error [of _ _ _ "\<lambda>a. retry_op t a row'"] split: option.splits if_splits)

lemma decide_other:
  "asCancel e = None \<Longrightarrow> asSnooze e = None \<Longrightarrow> asRetryAt e = None \<Longrightarrow>
     snd (decide F E fb row (Some e) now) row' = Inr fop \<Longrightarrow>
     \<exists>ae. ae_at ae = now \<and> ae_attempt ae = Attempt row \<and>
       fop = (if Attempt row' < MaxAttempts row'
              then retry_op (now + sint (policyDelay E row' fb)) ae row' else kill_op ae row')"
  by (auto simp: decide_def Let_def time_Add_def intro!: same_error [of _ _ _ "\<lambda>a. kill_op a row'"]
      same_error [of _ _ _ "\<lambda>a. retry_op (now + sint (policyDelay E row' fb)) a row'"]
      split: option.splits if_splits)

text \<open>C33: The outcome of an attempt. Without an error the job completes; a cancel wins over a snooze, a snooze
  over an explicit retry time, wherever they are wrapped in the error; any other error retries the job while
  attempts are left and kills it when this was the last, and so does an explicit retry time.\<close>

theorem decide_outcome:
  assumes "snd (decide F E fb row err now) row = Inr fop"
  shows "token fop = (ID row, Generation row) \<and>
   (case err of
      None \<Rightarrow> outcome_state fop = StateCompleted
    | Some e \<Rightarrow>
        if \<exists>c. CancelErr c \<in> set (unwrap_chain e) then outcome_state fop = StateCancelled
        else if \<exists>d. SnoozeErr d \<in> set (unwrap_chain e) then
          \<exists>f d. fop = opSnooze f \<and> SnoozeErr d \<in> set (unwrap_chain e) \<and> js_At f = now + sint d
        else (\<exists>ae. ae_at ae = now \<and> ae_attempt ae = Attempt row \<and>
           (if Attempt row < MaxAttempts row then \<exists>t. fop = retry_op t ae row \<and>
              (if \<exists>t inner. RetryAtErr t inner \<in> set (unwrap_chain e)
               then \<exists>inner. RetryAtErr t inner \<in> set (unwrap_chain e)
               else t = now + sint (policyDelay E row fb))
            else fop = kill_op ae row)))"
proof (cases err)
  case None
  then show ?thesis using assms decide_token [OF assms] by (auto simp: decide_def)
next
  case (Some e)
  note out = assms [unfolded Some]
  show ?thesis
  proof (cases "asCancel e")
    case (Some c)
    then show ?thesis
      using decide_cancel [OF Some out] asCancel_Some [OF Some] decide_token [OF out] \<open>err = Some e\<close> by auto
  next
    case nc: None
    show ?thesis
    proof (cases "asSnooze e")
      case (Some d)
      then show ?thesis
        using decide_snooze [OF nc Some out] asSnooze_Some [OF Some] nc decide_token [OF out] \<open>err = Some e\<close>
        by (auto simp: asCancel_iff)
    next
      case ns: None
      show ?thesis
      proof (cases "asRetryAt e")
        case (Some p)
        obtain t inner where p: "p = (t, inner)" by (cases p)
        note ra = Some [unfolded p]
        show ?thesis
          using decide_retryAt [OF nc ns ra out] asRetryAt_Some [OF ra] nc ns decide_token [OF out] \<open>err = Some e\<close>
          unfolding asCancel_iff asSnooze_iff by fastforce
      next
        case nr: None
        show ?thesis
          using decide_other [OF nc ns nr out] nc ns nr decide_token [OF out] \<open>err = Some e\<close>
          unfolding asCancel_iff asSnooze_iff asRetryAt_iff by fastforce
      qed
    qed
  qed
qed

text \<open>Concrete configurations for the instances: no handlers, a clock in the world, one kind of job.\<close>

definition sample_fmt :: fmt where
  "sample_fmt = \<lparr>fmt_duration = (\<lambda>_. []), fmt_time = (\<lambda>_. []), fmt_ids = (\<lambda>_. [])\<rparr>"

definition sample_cfg :: "'w middleware list \<Rightarrow> ('w \<Rightarrow> instant) \<Rightarrow> returned \<Rightarrow> 'w run_cfg" where
  "sample_cfg mws clock r = \<lparr>rcWorkers = \<lparr>bindings = [''email'' \<mapsto>
       \<lparr>bKind = ''email'', bDispatch = (\<lambda>ctx row w. (r, row, w))\<rparr>]\<rparr>, rcMiddleware = mws,
     rcDefaultPolicy = None, rcErrorHandler = None, rcPanicHandler = None, rcNow = (\<lambda>w. (clock w, w)),
     rcFmt = sample_fmt, rcRetry = sample_env\<rparr>"

definition sample_job :: job_row where
  "sample_job = zero_row\<lparr>ID := 7, Kind := ''email'', Attempt := 1, Generation := 2, MaxAttempts := 3,
     State := StateRunning\<rparr>"

lemma decide_outcome_witness:
  "\<exists>fop. snd (decide sample_fmt sample_env None sample_job (Some (Wrapped ''w'' (ErrorString ''x''))) 100) sample_job = Inr fop \<and>
     (\<exists>ae t. fop = retry_op t ae sample_job \<and> t = 100 + sint (policyDelay sample_env sample_job None))"
proof -
  let ?d = "snd (decide sample_fmt sample_env None sample_job (Some (Wrapped ''w'' (ErrorString ''x''))) 100) sample_job"
  have d: "?d = Inr (projr ?d)" by (simp add: decide_def as_defs Let_def)
  have "Attempt sample_job < MaxAttempts sample_job" by (simp add: sample_job_def)
  with decide_outcome [OF d] show ?thesis by (intro exI [of _ "projr ?d"] conjI) (use d in auto)
qed

subsection \<open>One finalization per execution\<close>

lemma runJob_end_cases:
  assumes "runJob_end cfg push ctx p row err s = (panic, row', s')"
  obtains
    (panicked) e w where "panic = Some e" "s' = runJob_defer p row' (s\<lparr>world := w\<rparr>)"
  | (finalized) fop w where "panic = None" "token fop = (ID row', Generation row')"
      "s' = runJob_defer p row' (pushFenced push p fop (s\<lparr>world := w\<rparr>))"
proof -
  obtain now w1 where n: "rcNow cfg (world s) = (now, w1)" by fastforce
  obtain call dec where d: "decide (rcFmt cfg) (rcRetry cfg) (rcDefaultPolicy cfg) row err now = (call, dec)" by fastforce
  obtain hp r w2 where h: "call_handler cfg ctx row call w1 = (hp, r, w2)" by (metis prod_cases3)
  note e = assms [unfolded runJob_end_def Let_def n d h prod.case]
  show thesis
  proof (cases hp)
    case (Some rs)
    then show thesis using e panicked by (cases rs) auto
  next
    case None
    show thesis
    proof (cases "dec r")
      case (Inl x)
      then show thesis using e None panicked by auto
    next
      case (Inr fop)
      have "token fop = (ID r, Generation r)"
        using decide_token [of "rcFmt cfg" "rcRetry cfg" "rcDefaultPolicy cfg" row err now r fop] d Inr by simp
      then show thesis using e None Inr finalized by auto
    qed
  qed
qed


text \<open>A finalizer that keeps what it is handed.\<close>

definition push_log :: "('w, finalizeOp list) push_fn" where
  "push_log fop = (\<lambda>(w, fs). (w, fs @ [fop]))"

definition idle_state :: "'w \<Rightarrow> ('w, finalizeOp list) run_state" where
  "idle_state w = \<lparr>world = w, fin = [], active = Map.empty, cells = [], wake = False\<rparr>"


text \<open>A fenced execution hands over nothing: once the flag behind its pointer is set, the end of the job
  changes no finalizer state.\<close>

lemma fenced_pushes_nothing:
  assumes "fenced (cells s ! p)" "runJob_end cfg push ctx p row err s = (panic, row', s')"
  shows "fin s' = fin s"
  using assms(2) by (cases rule: runJob_end_cases) (simp_all add: runJob_defer_def pushFenced_def assms(1))

subsection \<open>Middleware\<close>

lemma workOnce_chain:
  "workOnce cfg ctx row w =
     (case dispatch (rcWorkers cfg) (Kind row) of
        None \<Rightarrow> (Some (ErrorString (''no worker registered for kind '' @ Kind row)), row, w)
      | Some d \<Rightarrow>
          (case Recovery (chainWork (rcMiddleware cfg) d) ctx row w of
             (Returned err, row', w') \<Rightarrow> (err, row', w')
           | (Panicked r st, row', w') \<Rightarrow> (None, row', w')))"
  by (auto simp: workOnce_def Recovery_def split: option.split returned.split prod.split)

text \<open>C34: The recovery middleware changes where a panic is seen and nothing else: everything installed outside it
  runs around a function that always returns, and installing it outermost, where the client recovers
  anyway, makes no difference to any execution.\<close>

theorem Recovery_shields:
  "(\<exists>g. (\<forall>ctx row w. \<exists>err. fst (g ctx row w) = Returned err) \<and>
        chainWork (outer @ Recovery # inner) final = chainWork outer g) \<and>
   workOnce (cfg\<lparr>rcMiddleware := Recovery # inner\<rparr>) ctx row w = workOnce (cfg\<lparr>rcMiddleware := inner\<rparr>) ctx row w"
proof
  show "\<exists>g. (\<forall>ctx row w. \<exists>err. fst (g ctx row w) = Returned err) \<and>
        chainWork (outer @ Recovery # inner) final = chainWork outer g"
    by (intro exI [of _ "Recovery (chainWork inner final)"]) (simp add: chainWork_append Recovery_returns)
  show "workOnce (cfg\<lparr>rcMiddleware := Recovery # inner\<rparr>) ctx row w = workOnce (cfg\<lparr>rcMiddleware := inner\<rparr>) ctx row w"
    by (auto simp: workOnce_chain Recovery_def split: option.split returned.split prod.split)
qed

end
