(* ===== verification/Memory.thy ===== *)
theory Memory
  imports Rows
begin

text \<open>
  \<^verbatim>\<open>backend/memory/memory.go\<close>: the in-process backend. Every method runs under the backend's mutex,
  so each is one atomic function of the state. Where the code ranges over the job map, the order of
  the keys is an argument \<open>ord\<close>: Go picks a new one for every range. A run-time panic of a method
  is the result \<open>Inl (PanicError _ _)\<close> with the state it leaves.
\<close>

record mem =
  nextID :: int
  jobs :: "int \<rightharpoonup> job_row"

definition New :: mem where
  "New = \<lparr>nextID = 0, jobs = Map.empty\<rparr>"

subsection \<open>Enqueue\<close>

text \<open>The first loop computes every row's priority, and gives up at the first that is out of range.\<close>

fun enqueue_prio :: "instant \<Rightarrow> job_row list \<Rightarrow> go_error + instant list" where
  "enqueue_prio now [] = Inr []"
| "enqueue_prio now (j # js) =
     (let sched = (if IsZero (ScheduledAt j) then now else ScheduledAt j) in
      case SubDuration sched (PriorityBoost j) of
        Inl err \<Rightarrow> Inl err
      | Inr p \<Rightarrow>
          (case enqueue_prio now js of
             Inl err \<Rightarrow> Inl err
           | Inr ps \<Rightarrow> Inr (p # ps)))"

definition stamp_row :: "instant \<Rightarrow> int \<Rightarrow> instant \<Rightarrow> job_row \<Rightarrow> job_row" where
  "stamp_row now i p j =
     (let j = j\<lparr>ID := i, CreatedAt := now\<rparr>;
          j = (if IsZero (ScheduledAt j) then j\<lparr>ScheduledAt := now\<rparr> else j);
          j = j\<lparr>State := (if now < ScheduledAt j then StateScheduled else StateAvailable)\<rparr>
      in j\<lparr>PriorityAt := p\<rparr>)"

text \<open>The second loop assigns the IDs and stores the rows.\<close>

fun enqueue_store :: "instant \<Rightarrow> (job_row \<times> instant) list \<Rightarrow> mem \<Rightarrow> job_row list \<times> mem" where
  "enqueue_store now [] b = ([], b)"
| "enqueue_store now ((j, p) # js) b =
     (let i = nextID b + 1;
          j' = stamp_row now i p j;
          (rows, b') = enqueue_store now js (b\<lparr>nextID := i, jobs := (jobs b)(i \<mapsto> j')\<rparr>)
      in (j' # rows, b'))"

definition mem_Enqueue :: "enqueue_params \<Rightarrow> mem \<Rightarrow> (go_error + job_row list) \<times> mem" where
  "mem_Enqueue params b =
     (case enqueue_prio (ep_Now params) (ep_Jobs params) of
        Inl err \<Rightarrow> (Inl err, b)
      | Inr prio \<Rightarrow>
          (let (rows, b') = enqueue_store (ep_Now params) (zip (ep_Jobs params) prio) b
           in (Inr rows, b')))"

subsection \<open>Fetch\<close>

definition due :: "fetch_params \<Rightarrow> job_row \<Rightarrow> bool" where
  "due params j \<longleftrightarrow>
     State j = StateAvailable \<and> Queue j = fp_Queue params \<and> \<not> fp_Now params < ScheduledAt j"

text \<open>The comparator of \<^verbatim>\<open>slices.SortFunc\<close>: \<^verbatim>\<open>PriorityAt\<close>, then \<^verbatim>\<open>ID\<close>.\<close>

definition prio_key :: "job_row \<Rightarrow> instant \<times> int" where
  "prio_key j = (PriorityAt j, ID j)"

definition claim :: "fetch_params \<Rightarrow> job_row \<Rightarrow> job_row" where
  "claim params j =
     j\<lparr>State := StateRunning, Attempt := Attempt j + 1, Generation := Generation j + 1,
       AttemptedAt := fp_Now params, HeartbeatAt := fp_Now params,
       AttemptedBy := AttemptedBy j @ [fp_ClientID params]\<rparr>"

fun claim_all :: "fetch_params \<Rightarrow> int list \<Rightarrow> (int \<rightharpoonup> job_row) \<Rightarrow> job_row list \<times> (int \<rightharpoonup> job_row)" where
  "claim_all params [] m = ([], m)"
| "claim_all params (k # ks) m =
     (case m k of
        None \<Rightarrow> claim_all params ks m
      | Some j \<Rightarrow>
          (let j' = claim params j; (out, m') = claim_all params ks (m(k \<mapsto> j')) in (j' # out, m')))"

definition candidates :: "int list \<Rightarrow> fetch_params \<Rightarrow> (int \<rightharpoonup> job_row) \<Rightarrow> int list" where
  "candidates ord params m =
     sort_key (\<lambda>k. prio_key (the (m k))) (filter (hit (due params) m) ord)"

definition mem_Fetch :: "int list \<Rightarrow> fetch_params \<Rightarrow> mem \<Rightarrow> (go_error + job_row list) \<times> mem" where
  "mem_Fetch ord params b =
     (if fp_Limit params < 0 then (Inl (PanicError ''slice bounds out of range'' []), b)
      else
        (let (out, m') = claim_all params (take (nat (fp_Limit params)) (candidates ord params (jobs b))) (jobs b)
         in (Inr out, b\<lparr>jobs := m'\<rparr>)))"

subsection \<open>Finalization\<close>

text \<open>
  \<^verbatim>\<open>finalize\<close> is called with the IDs and the generations of the entries and a closure that reads the
  entry again by its index; here the entries are passed with their two projections.
\<close>

definition running_at :: "int \<Rightarrow> job_row \<Rightarrow> bool" where
  "running_at gen j \<longleftrightarrow> State j = StateRunning \<and> Generation j = gen"

fun finalize_loop ::
  "('e \<Rightarrow> int) \<Rightarrow> ('e \<Rightarrow> int) \<Rightarrow> instant \<Rightarrow> ('e \<Rightarrow> job_row \<Rightarrow> job_row) \<Rightarrow> 'e list
   \<Rightarrow> (int \<rightharpoonup> job_row) \<Rightarrow> int list \<times> (int \<rightharpoonup> job_row)" where
  "finalize_loop idf gen now app [] m = ([], m)"
| "finalize_loop idf gen now app (f # fs) m =
     (if hit (running_at (gen f)) m (idf f)
      then finalize_loop idf gen now app fs (m(idf f \<mapsto> app f ((the (m (idf f)))\<lparr>FinalizedAt := now\<rparr>)))
      else (let (stale, m') = finalize_loop idf gen now app fs m in (idf f # stale, m')))"

definition finalize ::
  "('e \<Rightarrow> int) \<Rightarrow> ('e \<Rightarrow> int) \<Rightarrow> instant \<Rightarrow> ('e \<Rightarrow> job_row \<Rightarrow> job_row) \<Rightarrow> 'e list
   \<Rightarrow> mem \<Rightarrow> go_error option \<times> mem" where
  "finalize idf gen now app fs b =
     (let (stale, m') = finalize_loop idf gen now app fs (jobs b)
      in (if stale \<noteq> [] then Some (StaleError stale) else None, b\<lparr>jobs := m'\<rparr>))"

definition mergeMeta :: "raw \<Rightarrow> job_row \<Rightarrow> job_row" where
  "mergeMeta m j = (if has_bytes m then j\<lparr>Metadata := m\<rparr> else j)"

definition apply_complete :: "job_finalize \<Rightarrow> job_row \<Rightarrow> job_row" where
  "apply_complete f j = mergeMeta (jf_Metadata f) (j\<lparr>State := StateCompleted\<rparr>)"

definition mem_Complete :: "complete_params \<Rightarrow> mem \<Rightarrow> go_error option \<times> mem" where
  "mem_Complete params b =
     finalize jf_ID jf_Generation (cp_Now params) apply_complete (cp_Jobs params) b"

fun validate_all :: "instant list \<Rightarrow> go_error option" where
  "validate_all [] = None"
| "validate_all (t # ts) =
     (case ValidateInstant t of Inl err \<Rightarrow> Some err | Inr _ \<Rightarrow> validate_all ts)"

definition apply_retry :: "job_retry \<Rightarrow> job_row \<Rightarrow> job_row" where
  "apply_retry f j =
     mergeMeta (jr_Metadata f)
       (j\<lparr>State := StateRetryable, ScheduledAt := jr_At f,
          PriorityAt := SubDurationClamped (jr_At f) (PriorityBoost j),
          FinalizedAt := zero_time, Errors := Errors j @ [jr_Err f]\<rparr>)"

definition mem_Retry :: "retry_params \<Rightarrow> mem \<Rightarrow> go_error option \<times> mem" where
  "mem_Retry params b =
     (case validate_all (map jr_At (rp_Jobs params)) of
        Some err \<Rightarrow> (Some err, b)
      | None \<Rightarrow> finalize jr_ID jr_Generation (rp_Now params) apply_retry (rp_Jobs params) b)"

definition apply_cancel :: "instant \<Rightarrow> job_cancel \<Rightarrow> job_row \<Rightarrow> job_row" where
  "apply_cancel now f j =
     (let j = j\<lparr>State := StateCancelled\<rparr>;
          j = (if jc_Err f \<noteq> []
               then j\<lparr>Errors := Errors j @
                      [\<lparr>ae_at = now, ae_attempt = Attempt j, ae_err = jc_Err f, ae_stack = []\<rparr>]\<rparr>
               else j)
      in mergeMeta (jc_Metadata f) j)"

definition mem_Cancel :: "cancel_params \<Rightarrow> mem \<Rightarrow> go_error option \<times> mem" where
  "mem_Cancel params b =
     finalize jc_ID jc_Generation (xp_Now params) (apply_cancel (xp_Now params)) (xp_Jobs params) b"

definition apply_kill :: "job_kill \<Rightarrow> job_row \<Rightarrow> job_row" where
  "apply_kill f j =
     mergeMeta (jk_Metadata f) (j\<lparr>State := StateDead, Errors := Errors j @ [jk_Err f]\<rparr>)"

definition mem_Kill :: "kill_params \<Rightarrow> mem \<Rightarrow> go_error option \<times> mem" where
  "mem_Kill params b =
     finalize jk_ID jk_Generation (kp_Now params) apply_kill (kp_Jobs params) b"

definition apply_snooze :: "job_snooze \<Rightarrow> job_row \<Rightarrow> job_row" where
  "apply_snooze f j =
     mergeMeta (js_Metadata f)
       (j\<lparr>State := StateRetryable, Attempt := Attempt j - 1, ScheduledAt := js_At f,
          PriorityAt := SubDurationClamped (js_At f) (PriorityBoost j),
          FinalizedAt := zero_time\<rparr>)"

definition mem_Snooze :: "snooze_params \<Rightarrow> mem \<Rightarrow> go_error option \<times> mem" where
  "mem_Snooze params b =
     (case validate_all (map js_At (sp_Jobs params)) of
        Some err \<Rightarrow> (Some err, b)
      | None \<Rightarrow> finalize js_ID js_Generation (sp_Now params) apply_snooze (sp_Jobs params) b)"

subsection \<open>Heartbeat and maintenance\<close>

fun heartbeat_loop ::
  "instant \<Rightarrow> job_heartbeat list \<Rightarrow> (int \<rightharpoonup> job_row) \<Rightarrow> int list \<times> (int \<rightharpoonup> job_row)" where
  "heartbeat_loop now [] m = ([], m)"
| "heartbeat_loop now (hb # hbs) m =
     (if hit (running_at (jh_Generation hb)) m (jh_ID hb)
      then
        (let j = (the (m (jh_ID hb)))\<lparr>HeartbeatAt := now\<rparr>;
             (res, m') = heartbeat_loop now hbs (m(jh_ID hb \<mapsto> j))
         in (if CancelRequested j then jh_ID hb # res else res, m'))
      else heartbeat_loop now hbs m)"

definition mem_Heartbeat :: "heartbeat_params \<Rightarrow> mem \<Rightarrow> (go_error + int list) \<times> mem" where
  "mem_Heartbeat params b =
     (let (res, m') = heartbeat_loop (hp_Now params) (hp_Jobs params) (jobs b)
      in (Inr res, b\<lparr>jobs := m'\<rparr>))"

definition movable :: "instant \<Rightarrow> job_row \<Rightarrow> bool" where
  "movable now j \<longleftrightarrow>
     (State j = StateScheduled \<or> State j = StateRetryable) \<and> \<not> now < ScheduledAt j"

definition mem_MoveDue :: "int list \<Rightarrow> move_due_params \<Rightarrow> mem \<Rightarrow> (go_error + int) \<times> mem" where
  "mem_MoveDue ord params b =
     (let (moved, m') = range_limit (movable (mp_Now params))
            (\<lambda>j. Some (j\<lparr>State := StateAvailable\<rparr>)) (mp_Limit params) 0 ord (jobs b)
      in (Inr moved, b\<lparr>jobs := m'\<rparr>))"

definition stale_since :: "instant \<Rightarrow> job_row \<Rightarrow> bool" where
  "stale_since cutoff j \<longleftrightarrow> State j = StateRunning \<and> HeartbeatAt j < cutoff"

definition rescue_row :: "instant \<Rightarrow> job_row \<Rightarrow> job_row" where
  "rescue_row now j =
     j\<lparr>State := StateRetryable, ScheduledAt := now,
       PriorityAt := SubDurationClamped now (PriorityBoost j)\<rparr>"

definition mem_RescueStale :: "int list \<Rightarrow> rescue_params \<Rightarrow> mem \<Rightarrow> (go_error + int) \<times> mem" where
  "mem_RescueStale ord params b =
     (let cutoff = time_Add (sr_Now params) (- sr_TTL params);
          (n, m') = range_limit (stale_since cutoff) (\<lambda>j. Some (rescue_row (sr_Now params) j))
            (sr_Limit params) 0 ord (jobs b)
      in (Inr n, b\<lparr>jobs := m'\<rparr>))"

fun retention :: "clean_params \<Rightarrow> job_state \<Rightarrow> duration option" where
  "retention params StateCompleted = Some (cl_CompletedRetention params)"
| "retention params StateCancelled = Some (cl_CancelledRetention params)"
| "retention params StateDead = Some (cl_DeadRetention params)"
| "retention params _ = None"

definition expired :: "clean_params \<Rightarrow> job_row \<Rightarrow> bool" where
  "expired params j =
     (case retention params (State j) of
        None \<Rightarrow> False
      | Some r \<Rightarrow> FinalizedAt j < time_Add (cl_Now params) (- r))"

definition mem_Clean :: "int list \<Rightarrow> clean_params \<Rightarrow> mem \<Rightarrow> (go_error + int) \<times> mem" where
  "mem_Clean ord params b =
     (let (n, m') = range_limit (expired params) (\<lambda>_. None) (cl_Limit params) 0 ord (jobs b)
      in (Inr n, b\<lparr>jobs := m'\<rparr>))"

subsection \<open>Inspection helpers\<close>

definition SetCancelRequested :: "int \<Rightarrow> mem \<Rightarrow> mem" where
  "SetCancelRequested i b =
     (case jobs b i of
        Some j \<Rightarrow> b\<lparr>jobs := (jobs b)(i \<mapsto> j\<lparr>CancelRequested := True\<rparr>)\<rparr>
      | None \<Rightarrow> b)"

definition Snapshot :: "int \<Rightarrow> mem \<Rightarrow> job_row option" where
  "Snapshot i b = jobs b i"

definition SnapshotAll :: "int list \<Rightarrow> mem \<Rightarrow> job_row list" where
  "SnapshotAll ord b = sort_key ID (List.map_filter (jobs b) ord)"

definition Reset :: "mem \<Rightarrow> mem" where
  "Reset b = b\<lparr>jobs := Map.empty\<rparr>"

lemmas mem_defs [op_defs] =
  mem_Enqueue_def mem_Fetch_def finalize_def mem_Complete_def mem_Retry_def mem_Cancel_def
  mem_Kill_def mem_Snooze_def mem_Heartbeat_def mem_MoveDue_def mem_RescueStale_def mem_Clean_def
  SetCancelRequested_def Reset_def

end
