(* ===== verification/Memory_Facts.thy ===== *)
theory Memory_Facts
  imports Memory
begin

text \<open>
  What each method of the memory backend does to each row, as equations: the loops of the code are
  replaced by their pointwise effect, and the later theories only use these facts.
\<close>

subsection \<open>Finalization\<close>

lemma leaves_running [simp]:
  "State (apply_complete f j) \<noteq> StateRunning"
  "State (apply_retry r j) \<noteq> StateRunning"
  "State (apply_cancel now c j) \<noteq> StateRunning"
  "State (apply_kill k j) \<noteq> StateRunning"
  "State (apply_snooze s j) \<noteq> StateRunning"
  by (simp_all add: apply_complete_def apply_retry_def apply_cancel_def apply_kill_def
      apply_snooze_def mergeMeta_def Let_def)

text \<open>The row of an ID after a batch: the first entry that matches the running row decides.\<close>

definition deciding :: "('e \<Rightarrow> int) \<Rightarrow> ('e \<Rightarrow> int) \<Rightarrow> 'e list \<Rightarrow> (int \<rightharpoonup> job_row) \<Rightarrow> int \<Rightarrow> 'e option" where
  "deciding idf gen fs m i = List.find (\<lambda>f. idf f = i \<and> hit (running_at (gen f)) m i) fs"

lemma deciding_Nil [simp]: "deciding idf gen [] m i = None"
  by (simp add: deciding_def)

lemma deciding_Cons:
  "deciding idf gen (f # fs) m i =
     (if idf f = i \<and> hit (running_at (gen f)) m i then Some f else deciding idf gen fs m i)"
  by (simp add: deciding_def)

lemma deciding_None: "\<not> hit (\<lambda>j. State j = StateRunning) m i \<Longrightarrow> deciding idf gen fs m i = None"
  by (auto simp: deciding_def find_None_iff running_at_def hit_iff)

lemma deciding_Some:
  "deciding idf gen fs m i = Some f \<Longrightarrow>
     f \<in> set fs \<and> idf f = i \<and> (\<exists>j. m i = Some j \<and> State j = StateRunning \<and> Generation j = gen f)"
  by (auto simp: deciding_def find_Some_iff running_at_def hit_iff)

lemma deciding_cong: "m i = m' i \<Longrightarrow> deciding idf gen fs m i = deciding idf gen fs m' i"
  by (simp add: deciding_def hit_def)

lemma finalize_loop_row:
  assumes "\<And>f j. State (app f j) \<noteq> StateRunning"
  shows "snd (finalize_loop idf gen now app fs m) i =
     (case deciding idf gen fs m i of
        None \<Rightarrow> m i
      | Some f \<Rightarrow> Some (app f ((the (m i))\<lparr>FinalizedAt := now\<rparr>)))"
proof (induction fs arbitrary: m)
  case Nil
  then show ?case by simp
next
  case (Cons f fs)
  show ?case
  proof (cases "hit (running_at (gen f)) m (idf f)")
    case True
    let ?m = "m(idf f \<mapsto> app f ((the (m (idf f)))\<lparr>FinalizedAt := now\<rparr>))"
    show ?thesis
    proof (cases "idf f = i")
      case i: True
      have "deciding idf gen fs ?m i = None"
        using i assms by (intro deciding_None) simp
      with True i show ?thesis by (simp add: Cons.IH deciding_Cons del: fun_upd_apply) simp
    next
      case False
      then have "deciding idf gen fs ?m i = deciding idf gen fs m i" by (intro deciding_cong) simp
      with True False show ?thesis
        by (simp add: Cons.IH deciding_Cons del: fun_upd_apply) (auto split: option.split)
    qed
  next
    case False
    then show ?thesis
      by (auto simp: Cons.IH deciding_Cons case_prod_beta)
  qed
qed

lemma stale_subset: "set (fst (finalize_loop idf gen now app fs m)) \<subseteq> idf ` set fs"
  by (induction fs arbitrary: m) (auto simp: case_prod_beta)

text \<open>An entry that does not match the running row is reported.\<close>

lemma unmatched_stale:
  assumes "\<And>f j. State (app f j) \<noteq> StateRunning"
    and "f \<in> set fs" "\<not> hit (running_at (gen f)) m (idf f)"
  shows "idf f \<in> set (fst (finalize_loop idf gen now app fs m))"
  using assms(2,3)
proof (induction fs arbitrary: m)
  case (Cons g fs)
  show ?case
  proof (cases "hit (running_at (gen g)) m (idf g)")
    case True
    then have "f \<in> set fs" using Cons.prems by auto
    moreover have "\<not> hit (running_at (gen f)) (m(idf g \<mapsto> app g ((the (m (idf g)))\<lparr>FinalizedAt := now\<rparr>))) (idf f)"
      using Cons.prems(2) assms(1) by (simp add: running_at_def [abs_def] hit_iff)
    ultimately show ?thesis using True Cons.IH by (simp)
  next
    case False
    then show ?thesis using Cons by (auto simp: case_prod_beta)
  qed
qed simp

text \<open>A batch with no duplicate ID, all of whose entries match, reports nothing.\<close>

lemma matched_not_stale:
  assumes "distinct (map idf fs)" "\<And>f. f \<in> set fs \<Longrightarrow> hit (running_at (gen f)) m (idf f)"
  shows "fst (finalize_loop idf gen now app fs m) = []"
  using assms
proof (induction fs arbitrary: m)
  case (Cons f fs)
  have "hit (running_at (gen g)) (m(idf f \<mapsto> v)) (idf g)" if "g \<in> set fs" for g v
  proof -
    have "idf g \<noteq> idf f" using that Cons.prems(1) by (metis distinct.simps(2) image_eqI list.simps(9) set_map)
    then show ?thesis using that Cons.prems(2) by simp
  qed
  then show ?case using Cons by (simp)
qed simp

lemma finalize_jobs:
  assumes "\<And>f j. State (app f j) \<noteq> StateRunning"
  shows "jobs (snd (finalize idf gen now app fs b)) i =
     (case deciding idf gen fs (jobs b) i of
        None \<Rightarrow> jobs b i
      | Some f \<Rightarrow> Some (app f ((the (jobs b i))\<lparr>FinalizedAt := now\<rparr>)))"
  using finalize_loop_row [OF assms] by (simp add: finalize_def case_prod_beta)

lemma finalize_nextID [simp]: "nextID (snd (finalize idf gen now app fs b)) = nextID b"
  by (simp add: finalize_def case_prod_beta)

lemma finalize_error:
  "fst (finalize idf gen now app fs b) =
     (if fst (finalize_loop idf gen now app fs (jobs b)) = [] then None
      else Some (StaleError (fst (finalize_loop idf gen now app fs (jobs b)))))"
  by (simp add: finalize_def case_prod_beta)

lemma validate_all_None: "validate_all ts = None \<longleftrightarrow> (\<forall>t\<in>set ts. storable t)"
  by (induction ts) (auto split: sum.split simp: ValidateInstant_def storable_def)

lemma validate_all_Some: "validate_all ts = Some e \<Longrightarrow> errors_Is e ErrTimeOutOfRange"
  by (induction ts) (auto split: sum.splits dest: ValidateInstant_error)

subsection \<open>Fetch\<close>

lemma claim_all_spec:
  assumes "distinct ks"
  shows "claim_all p ks m =
     (map (\<lambda>k. claim p (the (m k))) (filter (\<lambda>k. m k \<noteq> None) ks),
      \<lambda>k. if k \<in> set ks then map_option (claim p) (m k) else m k)"
  using assms
proof (induction ks arbitrary: m)
  case (Cons k ks)
  then have nin: "k \<notin> set ks" and d: "distinct ks" by auto
  show ?case
  proof (cases "m k")
    case None
    then show ?thesis using Cons.IH [OF d, of m] by (auto simp: fun_eq_iff)
  next
    case (Some j)
    let ?m = "m(k \<mapsto> claim p j)"
    have f: "filter (\<lambda>x. ?m x \<noteq> None) ks = filter (\<lambda>x. m x \<noteq> None) ks"
      using nin by (intro filter_cong) auto
    have "map (\<lambda>x. claim p (the (?m x))) (filter (\<lambda>x. ?m x \<noteq> None) ks)
        = map (\<lambda>x. claim p (the (m x))) (filter (\<lambda>x. m x \<noteq> None) ks)"
      unfolding f using nin by (intro map_cong) auto
    then have "claim_all p ks ?m =
       (map (\<lambda>x. claim p (the (m x))) (filter (\<lambda>x. m x \<noteq> None) ks),
        \<lambda>x. if x \<in> set ks then map_option (claim p) (?m x) else ?m x)"
      by (simp only: Cons.IH [OF d])
    with Some nin show ?thesis by (auto simp: fun_eq_iff Let_def)
  qed
qed auto

lemma candidates_set: "set (candidates ord p m) = {k \<in> set ord. \<exists>j. m k = Some j \<and> due p j}"
  by (auto simp: candidates_def hit_iff)

lemma candidates_distinct: "distinct ord \<Longrightarrow> distinct (candidates ord p m)"
  by (simp add: candidates_def)

lemma candidates_sorted: "sorted (map (\<lambda>k. prio_key (the (m k))) (candidates ord p m))"
  by (simp add: candidates_def)

definition chosen :: "int list \<Rightarrow> fetch_params \<Rightarrow> mem \<Rightarrow> int list" where
  "chosen ord p b = take (nat (fp_Limit p)) (candidates ord p (jobs b))"

lemma chosen_sub: "k \<in> set (chosen ord p b) \<Longrightarrow> k \<in> set ord \<and> (\<exists>j. jobs b k = Some j \<and> due p j)"
  unfolding chosen_def by (drule in_set_takeD) (simp add: candidates_set)

lemma chosen_distinct: "distinct ord \<Longrightarrow> distinct (chosen ord p b)"
  by (simp add: chosen_def candidates_distinct)

lemma Fetch_eq:
  assumes "distinct ord" "0 \<le> fp_Limit p"
  shows "mem_Fetch ord p b =
     (Inr (map (\<lambda>k. claim p (the (jobs b k))) (chosen ord p b)),
      b\<lparr>jobs := \<lambda>k. if k \<in> set (chosen ord p b) then map_option (claim p) (jobs b k) else jobs b k\<rparr>)"
proof -
  have "filter (\<lambda>k. jobs b k \<noteq> None) (chosen ord p b) = chosen ord p b"
    by (rule filter_True) (auto dest: chosen_sub)
  then show ?thesis
    using assms claim_all_spec [OF chosen_distinct [OF assms(1)], of p p b "jobs b"]
    by (simp add: mem_Fetch_def chosen_def [symmetric])
qed

lemma Fetch_neg: "fp_Limit p < 0 \<Longrightarrow> mem_Fetch ord p b = (Inl (PanicError ''slice bounds out of range'' []), b)"
  by (simp add: mem_Fetch_def)

subsection \<open>Heartbeat\<close>

definition beats :: "job_heartbeat list \<Rightarrow> (int \<rightharpoonup> job_row) \<Rightarrow> int \<Rightarrow> bool" where
  "beats hbs m i \<longleftrightarrow> (\<exists>hb\<in>set hbs. jh_ID hb = i \<and> hit (running_at (jh_Generation hb)) m i)"

lemma heartbeat_loop_spec:
  "heartbeat_loop now hbs m =
     (map jh_ID (filter (\<lambda>hb. hit (\<lambda>j. running_at (jh_Generation hb) j \<and> CancelRequested j) m (jh_ID hb)) hbs),
      \<lambda>i. if beats hbs m i then map_option (\<lambda>j. j\<lparr>HeartbeatAt := now\<rparr>) (m i) else m i)"
proof (induction hbs arbitrary: m)
  case Nil
  then show ?case by (simp add: beats_def)
next
  case (Cons hb hbs)
  show ?case
  proof (cases "hit (running_at (jh_Generation hb)) m (jh_ID hb)")
    case True
    then obtain j where j: "m (jh_ID hb) = Some j" "running_at (jh_Generation hb) j" by (auto simp: hit_iff)
    let ?m = "m(jh_ID hb \<mapsto> j\<lparr>HeartbeatAt := now\<rparr>)"
    have same: "running_at g (j\<lparr>HeartbeatAt := now\<rparr>) \<longleftrightarrow> running_at g j" for g
      by (simp add: running_at_def)
    have f: "hit (\<lambda>r. running_at g r \<and> CancelRequested r) ?m i \<longleftrightarrow> hit (\<lambda>r. running_at g r \<and> CancelRequested r) m i" for g i
      using j by (auto simp: same hit_iff)
    have g: "beats hbs ?m i \<longleftrightarrow> beats hbs m i" for i
      using j by (auto simp: beats_def same hit_iff)
    have b: "beats (hb # hbs) m i \<longleftrightarrow> i = jh_ID hb \<or> beats hbs m i" for i
      using True by (auto simp: beats_def)
    have "heartbeat_loop now (hb # hbs) m =
        (let (res, m') = heartbeat_loop now hbs ?m in (if CancelRequested j then jh_ID hb # res else res, m'))"
      using True j by (simp add: Let_def case_prod_beta)
    then show ?thesis
      unfolding Cons.IH f g b using j
      by (auto simp: fun_eq_iff hit_def Let_def)
  next
    case False
    then show ?thesis by (auto simp: Cons.IH beats_def fun_eq_iff hit_iff)
  qed
qed

lemma Heartbeat_eq:
  "mem_Heartbeat p b =
     (Inr (map jh_ID (filter (\<lambda>hb. hit (\<lambda>j. running_at (jh_Generation hb) j \<and> CancelRequested j) (jobs b) (jh_ID hb))
             (hp_Jobs p))),
      b\<lparr>jobs := \<lambda>i. if beats (hp_Jobs p) (jobs b) i
                    then map_option (\<lambda>j. j\<lparr>HeartbeatAt := hp_Now p\<rparr>) (jobs b i) else jobs b i\<rparr>)"
  by (simp add: mem_Heartbeat_def heartbeat_loop_spec)

subsection \<open>Maintenance\<close>

lemma MoveDue_eq:
  assumes "distinct ord"
  shows "mem_MoveDue ord p b =
     (Inr (int (length (picked (movable (mp_Now p)) (mp_Limit p) ord (jobs b)))),
      b\<lparr>jobs := \<lambda>i. if i \<in> set (picked (movable (mp_Now p)) (mp_Limit p) ord (jobs b))
                    then map_option (\<lambda>j. j\<lparr>State := StateAvailable\<rparr>) (jobs b i) else jobs b i\<rparr>)"
proof -
  have "(\<lambda>i. if i \<in> set ks then Some ((the (jobs b i))\<lparr>State := StateAvailable\<rparr>) else jobs b i)
      = (\<lambda>i. if i \<in> set ks then map_option (\<lambda>j. j\<lparr>State := StateAvailable\<rparr>) (jobs b i) else jobs b i)"
    if "ks = picked (movable (mp_Now p)) (mp_Limit p) ord (jobs b)" for ks
    using that by (auto simp: fun_eq_iff dest!: picked_sub)
  then show ?thesis by (simp add: mem_MoveDue_def range_limit_picked [OF assms])
qed

definition rescue_cutoff :: "rescue_params \<Rightarrow> instant" where
  "rescue_cutoff p = time_Add (sr_Now p) (- sr_TTL p)"

lemma RescueStale_eq:
  assumes "distinct ord"
  shows "mem_RescueStale ord p b =
     (Inr (int (length (picked (stale_since (rescue_cutoff p)) (sr_Limit p) ord (jobs b)))),
      b\<lparr>jobs := \<lambda>i. if i \<in> set (picked (stale_since (rescue_cutoff p)) (sr_Limit p) ord (jobs b))
                    then map_option (rescue_row (sr_Now p)) (jobs b i) else jobs b i\<rparr>)"
proof -
  have "(\<lambda>i. if i \<in> set ks then Some (rescue_row (sr_Now p) (the (jobs b i))) else jobs b i)
      = (\<lambda>i. if i \<in> set ks then map_option (rescue_row (sr_Now p)) (jobs b i) else jobs b i)"
    if "ks = picked (stale_since (rescue_cutoff p)) (sr_Limit p) ord (jobs b)" for ks
    using that by (auto simp: fun_eq_iff dest!: picked_sub)
  then show ?thesis by (simp add: mem_RescueStale_def rescue_cutoff_def [symmetric] Let_def range_limit_picked [OF assms])
qed

lemma Clean_eq:
  assumes "distinct ord"
  shows "mem_Clean ord p b =
     (Inr (int (length (picked (expired p) (cl_Limit p) ord (jobs b)))),
      b\<lparr>jobs := \<lambda>i. if i \<in> set (picked (expired p) (cl_Limit p) ord (jobs b)) then None else jobs b i\<rparr>)"
  by (simp add: mem_Clean_def range_limit_picked [OF assms] fun_eq_iff)

subsection \<open>Enqueue\<close>

lemma enqueue_store_spec:
  assumes "enqueue_store now js b = (rows, b')"
  shows "nextID b' = nextID b + int (length js)"
    and "length rows = length js"
    and "\<And>k. k < length js \<Longrightarrow> rows ! k = stamp_row now (nextID b + int k + 1) (snd (js ! k)) (fst (js ! k))"
    and "\<And>i. jobs b' i = (if nextID b < i \<and> i \<le> nextID b + int (length js)
                          then Some (rows ! nat (i - nextID b - 1)) else jobs b i)"
proof -
  have "nextID b' = nextID b + int (length js) \<and> length rows = length js \<and>
     (\<forall>k<length js. rows ! k = stamp_row now (nextID b + int k + 1) (snd (js ! k)) (fst (js ! k))) \<and>
     (\<forall>i. jobs b' i = (if nextID b < i \<and> i \<le> nextID b + int (length js)
                       then Some (rows ! nat (i - nextID b - 1)) else jobs b i))"
    using assms
  proof (induction js arbitrary: b rows)
    case Nil
    then show ?case by auto
  next
    case (Cons jp js)
    obtain j p where jp: "jp = (j, p)" by (cases jp)
    define b1 where "b1 = b\<lparr>nextID := nextID b + 1, jobs := (jobs b)(nextID b + 1 \<mapsto> stamp_row now (nextID b + 1) p j)\<rparr>"
    obtain rs b'' where rec: "enqueue_store now js b1 = (rs, b'')" by fastforce
    have rows: "rows = stamp_row now (nextID b + 1) p j # rs" and b'': "b'' = b'"
      using Cons.prems rec by (auto simp: jp Let_def b1_def)
    from Cons.IH [OF rec [unfolded b'']]
    have n: "nextID b' = nextID b + 1 + int (length js)" and l: "length rs = length js"
      and k: "\<And>k. k < length js \<Longrightarrow> rs ! k = stamp_row now (nextID b + 1 + int k + 1) (snd (js ! k)) (fst (js ! k))"
      and i: "\<And>i. jobs b' i = (if nextID b + 1 < i \<and> i \<le> nextID b + 1 + int (length js)
                     then Some (rs ! nat (i - (nextID b + 1) - 1)) else jobs b1 i)"
      by (auto simp: b1_def)
    have "jobs b' x = (if nextID b < x \<and> x \<le> nextID b + int (length (jp # js))
                       then Some (rows ! nat (x - nextID b - 1)) else jobs b x)" for x
    proof (cases "nextID b + 1 < x")
      case True
      then have "nat (x - nextID b - 1) = Suc (nat (x - (nextID b + 1) - 1))" by simp
      with True show ?thesis by (simp add: i rows b1_def)
    next
      case False
      then show ?thesis by (auto simp: i rows b1_def)
    qed
    moreover have "rows ! x = stamp_row now (nextID b + int x + 1) (snd ((jp # js) ! x)) (fst ((jp # js) ! x))"
      if "x < length (jp # js)" for x
      using that k by (cases x) (simp_all add: rows jp algebra_simps)
    ultimately show ?case using n l by (simp add: rows)
  qed
  then show "nextID b' = nextID b + int (length js)" "length rows = length js"
    "\<And>k. k < length js \<Longrightarrow> rows ! k = stamp_row now (nextID b + int k + 1) (snd (js ! k)) (fst (js ! k))"
    "\<And>i. jobs b' i = (if nextID b < i \<and> i \<le> nextID b + int (length js)
                          then Some (rows ! nat (i - nextID b - 1)) else jobs b i)"
    by blast+
qed

definition sched :: "instant \<Rightarrow> job_row \<Rightarrow> instant" where
  "sched now j = (if IsZero (ScheduledAt j) then now else ScheduledAt j)"

lemma enqueue_prio_Inr:
  "enqueue_prio now js = Inr ps \<longleftrightarrow>
     (\<forall>j\<in>set js. storable (sched now j) \<and> storable (sched now j - sint (PriorityBoost j))) \<and>
     ps = map (\<lambda>j. sched now j - sint (PriorityBoost j)) js"
  by (induction js arbitrary: ps)
    (auto simp: SubDuration_spec sched_def [symmetric] Let_def split: sum.splits if_splits, blast)

lemma enqueue_prio_Inl: "enqueue_prio now js = Inl e \<Longrightarrow> errors_Is e ErrTimeOutOfRange"
  by (induction js) (auto simp: SubDuration_spec Let_def split: sum.splits if_splits)

lemma stamp_row_eq:
  "stamp_row now i p j =
     j\<lparr>ID := i, CreatedAt := now, ScheduledAt := sched now j,
       State := (if now < sched now j then StateScheduled else StateAvailable), PriorityAt := p\<rparr>"
  by (simp add: stamp_row_def sched_def Let_def)

end
