(* ===== verification/Lifecycle.thy ===== *)
theory Lifecycle
  imports Memory_Facts
begin

text \<open>
  What a job row may go through. The step relation \<open>row_step\<close> has one rule per way the contract of
  \<^verbatim>\<open>backend.go\<close> lets a stored row change; every method of the memory backend moves every stored row by
  such steps only. Row invariants proved for the relation therefore hold in every reachable store.
\<close>

subsection \<open>The steps of a row\<close>

inductive row_step :: "job_row \<Rightarrow> job_row \<Rightarrow> bool" where
  promote: "movable now j \<Longrightarrow> row_step j (j\<lparr>State := StateAvailable\<rparr>)"
| fetched: "due p j \<Longrightarrow> row_step j (claim p j)"
| completed: "State j = StateRunning \<Longrightarrow> row_step j (apply_complete f (j\<lparr>FinalizedAt := now\<rparr>))"
| retried: "State j = StateRunning \<Longrightarrow> storable (jr_At r) \<Longrightarrow> row_step j (apply_retry r (j\<lparr>FinalizedAt := now\<rparr>))"
| cancelled: "State j = StateRunning \<Longrightarrow> row_step j (apply_cancel now c (j\<lparr>FinalizedAt := now\<rparr>))"
| killed: "State j = StateRunning \<Longrightarrow> row_step j (apply_kill k (j\<lparr>FinalizedAt := now\<rparr>))"
| snoozed: "State j = StateRunning \<Longrightarrow> storable (js_At s) \<Longrightarrow> row_step j (apply_snooze s (j\<lparr>FinalizedAt := now\<rparr>))"
| renewed: "State j = StateRunning \<Longrightarrow> row_step j (j\<lparr>HeartbeatAt := now\<rparr>)"
| rescued: "stale_since t j \<Longrightarrow> row_step j (rescue_row now j)"
| cancel_asked: "row_step j (j\<lparr>CancelRequested := True\<rparr>)"

inductive_cases row_stepE: "row_step j j'"

lemmas step_defs =
  claim_def apply_complete_def apply_retry_def apply_cancel_def apply_kill_def apply_snooze_def
  rescue_row_def mergeMeta_def due_def movable_def stale_since_def Let_def

text \<open>Fields that identify a job and never change after it is enqueued.\<close>

definition same_job :: "job_row \<Rightarrow> job_row \<Rightarrow> bool" where
  "same_job j j' \<longleftrightarrow>
     ID j' = ID j \<and> Kind j' = Kind j \<and> Queue j' = Queue j \<and> Payload j' = Payload j \<and>
     PriorityBoost j' = PriorityBoost j \<and> MaxAttempts j' = MaxAttempts j \<and>
     CreatedAt j' = CreatedAt j \<and> RetryPolicyBytes j' = RetryPolicyBytes j \<and> Version j' = Version j"

lemma row_step_same_job: "row_step j j' \<Longrightarrow> same_job j j'"
  by (erule row_step.cases) (auto simp: same_job_def step_defs)

lemma same_job_trans: "same_job a b \<Longrightarrow> same_job b c \<Longrightarrow> same_job a c"
  by (simp add: same_job_def)

text \<open>The lifecycle: the moves between states the contract allows.\<close>

fun life :: "job_state \<Rightarrow> job_state \<Rightarrow> bool" where
  "life StateScheduled s \<longleftrightarrow> s = StateAvailable"
| "life StateRetryable s \<longleftrightarrow> s = StateAvailable"
| "life StateAvailable s \<longleftrightarrow> s = StateRunning"
| "life StateRunning s \<longleftrightarrow> s \<in> {StateCompleted, StateRetryable, StateCancelled, StateDead}"
| "life _ s \<longleftrightarrow> False"

lemma row_step_life: "row_step j j' \<Longrightarrow> State j' = State j \<or> life (State j) (State j')"
  by (erule row_step.cases) (auto simp: step_defs)

text \<open>A terminal row never changes, but for the cancellation flag.\<close>

definition frozen :: "job_row \<Rightarrow> job_row \<Rightarrow> bool" where
  "frozen j j' \<longleftrightarrow> j\<lparr>CancelRequested := True\<rparr> = j'\<lparr>CancelRequested := True\<rparr>"

lemma frozen_State: "frozen j j' \<Longrightarrow> State j' = State j"
  unfolding frozen_def by (drule arg_cong [where f = State]) simp

lemma row_step_frozen: "row_step j j' \<Longrightarrow> Terminal (State j) \<Longrightarrow> frozen j j'"
  by (erule row_step.cases) (auto simp: step_defs Terminal_def frozen_def)

text \<open>The fencing token: it never falls, and a row that enters the running state raised it.\<close>

lemma row_step_generation:
  "row_step j j' \<Longrightarrow> Generation j \<le> Generation j' \<and>
     (State j' = StateRunning \<longrightarrow> State j = StateRunning \<and> Generation j' = Generation j
        \<or> State j \<noteq> StateRunning \<and> Generation j' = Generation j + 1)"
  by (erule row_step.cases) (auto simp: step_defs)

subsection \<open>Rows that hang together\<close>

text \<open>
  The invariant of a stored row. The history agrees with the counters: one \<^verbatim>\<open>AttemptedBy\<close> entry per
  claim, attempts never above the claims, at most one error per attempt that is over (a snooze gives
  its attempt back, a rescue records no error). \<^verbatim>\<open>FinalizedAt\<close> is set in terminal rows only, and the
  effective priority is always the schedule less the stored boost, clamped to the storable range.
\<close>

definition attempts_over :: "job_row \<Rightarrow> int" where
  "attempts_over j = (if State j = StateRunning then Attempt j - 1 else Attempt j)"

definition row_ok :: "job_row \<Rightarrow> bool" where
  "row_ok j \<longleftrightarrow>
     State j \<noteq> StateUnset \<and>
     Generation j = int (length (AttemptedBy j)) \<and>
     0 \<le> attempts_over j \<and> Attempt j \<le> Generation j \<and>
     int (length (Errors j)) \<le> attempts_over j \<and>
     (\<not> Terminal (State j) \<longrightarrow> FinalizedAt j = zero_time) \<and>
     PriorityAt j = SubDurationClamped (ScheduledAt j) (PriorityBoost j)"

lemma row_step_ok: "row_step j j' \<Longrightarrow> row_ok j \<Longrightarrow> row_ok j'"
  by (erule row_step.cases) (auto simp: row_ok_def attempts_over_def step_defs)

text \<open>Paths: what holds of one step and is transitive holds of any number of them.\<close>

abbreviation row_steps :: "job_row \<Rightarrow> job_row \<Rightarrow> bool" where
  "row_steps \<equiv> row_step\<^sup>*\<^sup>*"

lemma row_steps_ok: "row_steps j j' \<Longrightarrow> row_ok j \<Longrightarrow> row_ok j'"
  by (induction rule: rtranclp_induct) (auto intro: row_step_ok)

lemma row_steps_same_job: "row_steps j j' \<Longrightarrow> same_job j j'"
  by (induction rule: rtranclp_induct) (auto simp: same_job_def dest: row_step_same_job)

lemma row_steps_generation: "row_steps j j' \<Longrightarrow> Generation j \<le> Generation j'"
  by (induction rule: rtranclp_induct) (auto dest: row_step_generation)

lemma row_steps_running:
  "row_steps j j' \<Longrightarrow> State j' = StateRunning \<Longrightarrow> Generation j' = Generation j \<Longrightarrow> State j = StateRunning"
proof (induction rule: rtranclp_induct)
  case (step k k')
  have le: "Generation j \<le> Generation k" by (rule row_steps_generation [OF step.hyps(1)])
  have "State k = StateRunning \<and> Generation k' = Generation k"
    using row_step_generation [OF step.hyps(2)] step.prems le by linarith
  then have "State k = StateRunning" "Generation k = Generation j" using step.prems(2) by simp_all
  then show ?case by (rule step.IH)
qed

lemma row_steps_frozen: "row_steps j j' \<Longrightarrow> Terminal (State j) \<Longrightarrow> frozen j j'"
proof (induction rule: rtranclp_induct)
  case base
  then show ?case by (simp add: frozen_def)
next
  case (step k k')
  then have jk: "frozen j k" by simp
  then have "Terminal (State k)" using step.prems frozen_State by metis
  with step.hyps(2) have "frozen k k'" by (rule row_step_frozen)
  with jk show ?case by (simp add: frozen_def)
qed

end
