(* ===== verification/Store.thy ===== *)
theory Store
  imports Lifecycle
begin

text \<open>
  The memory backend as a machine. A client process calls methods from many goroutines; the mutex
  makes each call atomic, so every concurrent execution is a sequence of calls. \<open>exec\<close> is one call,
  \<open>run\<close> a sequence of them, and the theorems here are about every sequence.
\<close>

subsection \<open>Calls and replies\<close>

datatype op =
    OpEnqueue enqueue_params
  | OpFetch "int list" fetch_params
  | OpComplete complete_params
  | OpRetry retry_params
  | OpCancel cancel_params
  | OpKill kill_params
  | OpSnooze snooze_params
  | OpHeartbeat heartbeat_params
  | OpMoveDue "int list" move_due_params
  | OpRescueStale "int list" rescue_params
  | OpClean "int list" clean_params
  | OpSetCancelRequested int
  | OpReset

datatype reply =
    Enqueued "go_error + job_row list"
  | Fetched "go_error + job_row list"
  | Finalized "go_error option"
  | Beaten "go_error + int list"
  | Counted "go_error + int"
  | Done

fun exec :: "op \<Rightarrow> mem \<Rightarrow> reply \<times> mem" where
  "exec (OpEnqueue p) b = (let (r, b') = mem_Enqueue p b in (Enqueued r, b'))"
| "exec (OpFetch ord p) b = (let (r, b') = mem_Fetch ord p b in (Fetched r, b'))"
| "exec (OpComplete p) b = (let (r, b') = mem_Complete p b in (Finalized r, b'))"
| "exec (OpRetry p) b = (let (r, b') = mem_Retry p b in (Finalized r, b'))"
| "exec (OpCancel p) b = (let (r, b') = mem_Cancel p b in (Finalized r, b'))"
| "exec (OpKill p) b = (let (r, b') = mem_Kill p b in (Finalized r, b'))"
| "exec (OpSnooze p) b = (let (r, b') = mem_Snooze p b in (Finalized r, b'))"
| "exec (OpHeartbeat p) b = (let (r, b') = mem_Heartbeat p b in (Beaten r, b'))"
| "exec (OpMoveDue ord p) b = (let (r, b') = mem_MoveDue ord p b in (Counted r, b'))"
| "exec (OpRescueStale ord p) b = (let (r, b') = mem_RescueStale ord p b in (Counted r, b'))"
| "exec (OpClean ord p) b = (let (r, b') = mem_Clean ord p b in (Counted r, b'))"
| "exec (OpSetCancelRequested i) b = (Done, SetCancelRequested i b)"
| "exec OpReset b = (Done, Reset b)"

fun run :: "op list \<Rightarrow> mem \<Rightarrow> reply list \<times> mem" where
  "run [] b = ([], b)"
| "run (x # xs) b = (let (r, b1) = exec x b; (rs, b2) = run xs b1 in (r # rs, b2))"

text \<open>A range visits no key twice.\<close>

fun orders_ok :: "op \<Rightarrow> bool" where
  "orders_ok (OpFetch ord p) \<longleftrightarrow> distinct ord"
| "orders_ok (OpMoveDue ord p) \<longleftrightarrow> distinct ord"
| "orders_ok (OpRescueStale ord p) \<longleftrightarrow> distinct ord"
| "orders_ok (OpClean ord p) \<longleftrightarrow> distinct ord"
| "orders_ok _ \<longleftrightarrow> True"

text \<open>The claims a call hands out, and the finalizations it accepts.\<close>

fun claims :: "reply \<Rightarrow> (int \<times> int) list" where
  "claims (Fetched (Inr rows)) = map (\<lambda>j. (ID j, Generation j)) rows"
| "claims _ = []"

fun winners :: "('e \<Rightarrow> int) \<Rightarrow> ('e \<Rightarrow> int) \<Rightarrow> 'e list \<Rightarrow> (int \<rightharpoonup> job_row) \<Rightarrow> (int \<times> int) list" where
  "winners idf gen [] m = []"
| "winners idf gen (f # fs) m =
     (if hit (running_at (gen f)) m (idf f)
      then (idf f, gen f) # winners idf gen fs (m(idf f := None))
      else winners idf gen fs m)"

fun accepted :: "op \<Rightarrow> mem \<Rightarrow> (int \<times> int) list" where
  "accepted (OpComplete p) b = winners jf_ID jf_Generation (cp_Jobs p) (jobs b)"
| "accepted (OpRetry p) b =
     (if validate_all (map jr_At (rp_Jobs p)) = None then winners jr_ID jr_Generation (rp_Jobs p) (jobs b) else [])"
| "accepted (OpCancel p) b = winners jc_ID jc_Generation (xp_Jobs p) (jobs b)"
| "accepted (OpKill p) b = winners jk_ID jk_Generation (kp_Jobs p) (jobs b)"
| "accepted (OpSnooze p) b =
     (if validate_all (map js_At (sp_Jobs p)) = None then winners js_ID js_Generation (sp_Jobs p) (jobs b) else [])"
| "accepted _ b = []"

fun accepted_run :: "op list \<Rightarrow> mem \<Rightarrow> (int \<times> int) list" where
  "accepted_run [] b = []"
| "accepted_run (x # xs) b = accepted x b @ accepted_run xs (snd (exec x b))"

subsection \<open>How the store evolves\<close>

text \<open>
  The ID counter only grows, and a row that is there after a call was either inserted by it under a
  new ID, or is the row that was there before, unchanged or one step on.
\<close>

definition evolves :: "mem \<Rightarrow> mem \<Rightarrow> bool" where
  "evolves b b' \<longleftrightarrow>
     nextID b \<le> nextID b' \<and>
     (\<forall>i j'. jobs b' i = Some j' \<longrightarrow>
        (nextID b < i \<and> i \<le> nextID b' \<and> ID j' = i) \<or> (\<exists>j. jobs b i = Some j \<and> (j' = j \<or> row_step j j')))"

lemma evolves_refl [simp]: "evolves b b"
  by (simp add: evolves_def)

lemma evolves_rows:
  assumes "nextID b' = nextID b"
    and "\<And>i j'. jobs b' i = Some j' \<Longrightarrow> \<exists>j. jobs b i = Some j \<and> (j' = j \<or> row_step j j')"
  shows "evolves b b'"
  using assms unfolding evolves_def by (metis order_refl)

lemma finalize_evolves:
  assumes "\<And>f j. State (app f j) \<noteq> StateRunning"
    and "\<And>f j. f \<in> set fs \<Longrightarrow> State j = StateRunning \<Longrightarrow> row_step j (app f (j\<lparr>FinalizedAt := now\<rparr>))"
  shows "evolves b (snd (finalize idf gen now app fs b))"
proof (rule evolves_rows)
  fix i j'
  assume "jobs (snd (finalize idf gen now app fs b)) i = Some j'"
  then have "(case deciding idf gen fs (jobs b) i of
        None \<Rightarrow> jobs b i
      | Some f \<Rightarrow> Some (app f ((the (jobs b i))\<lparr>FinalizedAt := now\<rparr>))) = Some j'"
    by (simp add: finalize_jobs [OF assms(1)])
  then show "\<exists>j. jobs b i = Some j \<and> (j' = j \<or> row_step j j')"
    using assms(2) by (auto split: option.splits dest!: deciding_Some)
qed simp

lemma Enqueue_cases:
  obtains (bad) e where "mem_Enqueue p b = (Inl e, b)" "errors_Is e ErrTimeOutOfRange"
  | (good) rows b' where
      "mem_Enqueue p b = (Inr rows, b')" "length rows = length (ep_Jobs p)"
      "nextID b' = nextID b + int (length rows)"
      "\<And>k. k < length rows \<Longrightarrow>
         storable (sched (ep_Now p) (ep_Jobs p ! k)) \<and>
         storable (sched (ep_Now p) (ep_Jobs p ! k) - sint (PriorityBoost (ep_Jobs p ! k))) \<and>
         rows ! k = stamp_row (ep_Now p) (nextID b + int k + 1)
           (sched (ep_Now p) (ep_Jobs p ! k) - sint (PriorityBoost (ep_Jobs p ! k))) (ep_Jobs p ! k)"
      "\<And>i. jobs b' i = (if nextID b < i \<and> i \<le> nextID b' then Some (rows ! nat (i - nextID b - 1))
                        else jobs b i)"
proof (cases "enqueue_prio (ep_Now p) (ep_Jobs p)")
  case (Inl e)
  then show thesis using bad enqueue_prio_Inl by (simp add: mem_Enqueue_def)
next
  case (Inr ps)
  then have ps: "ps = map (\<lambda>j. sched (ep_Now p) j - sint (PriorityBoost j)) (ep_Jobs p)"
    and st: "\<forall>j\<in>set (ep_Jobs p). storable (sched (ep_Now p) j) \<and> storable (sched (ep_Now p) j - sint (PriorityBoost j))"
    by (auto simp: enqueue_prio_Inr)
  obtain rows b' where es: "enqueue_store (ep_Now p) (zip (ep_Jobs p) ps) b = (rows, b')" by fastforce
  note spec = enqueue_store_spec [OF es]
  have len: "length (zip (ep_Jobs p) ps) = length (ep_Jobs p)" by (simp add: ps)
  show thesis
  proof (rule good)
    show "mem_Enqueue p b = (Inr rows, b')" using Inr es by (simp add: mem_Enqueue_def)
    show "length rows = length (ep_Jobs p)" using spec(2) len by simp
    then show "nextID b' = nextID b + int (length rows)" using spec(1) len by simp
    fix k assume "k < length rows"
    then have k: "k < length (ep_Jobs p)" using spec(2) len by simp
    with st show "storable (sched (ep_Now p) (ep_Jobs p ! k)) \<and>
         storable (sched (ep_Now p) (ep_Jobs p ! k) - sint (PriorityBoost (ep_Jobs p ! k))) \<and>
         rows ! k = stamp_row (ep_Now p) (nextID b + int k + 1)
           (sched (ep_Now p) (ep_Jobs p ! k) - sint (PriorityBoost (ep_Jobs p ! k))) (ep_Jobs p ! k)"
      using spec(3) [of k] len by (simp add: ps)
  next
    fix i
    show "jobs b' i = (if nextID b < i \<and> i \<le> nextID b' then Some (rows ! nat (i - nextID b - 1)) else jobs b i)"
      using spec(1,4) by simp
  qed
qed

lemma Enqueue_evolves: "evolves b (snd (mem_Enqueue p b))"
proof (cases rule: Enqueue_cases [of p b])
  case (good rows b')
  have "ID j' = i" if "nextID b < i" "i \<le> nextID b'" "j' = rows ! nat (i - nextID b - 1)" for i j'
    using that good(3) good(4) [of "nat (i - nextID b - 1)"] by (auto simp: stamp_row_eq)
  then show ?thesis using good(1,3,5) by (auto simp: evolves_def split: if_splits)
qed simp

lemma exec_evolves:
  assumes "orders_ok x"
  shows "evolves b (snd (exec x b))"
proof (cases x)
  case (OpEnqueue p)
  then show ?thesis by (simp add: Enqueue_evolves case_prod_beta)
next
  case (OpFetch ord p)
  show ?thesis
  proof (cases "fp_Limit p < 0")
    case True
    then show ?thesis by (simp add: OpFetch Fetch_neg)
  next
    case False
    with assms OpFetch have e: "mem_Fetch ord p b =
       (Inr (map (\<lambda>k. claim p (the (jobs b k))) (chosen ord p b)),
        b\<lparr>jobs := \<lambda>k. if k \<in> set (chosen ord p b) then map_option (claim p) (jobs b k) else jobs b k\<rparr>)"
      by (intro Fetch_eq) auto
    show ?thesis
      by (rule evolves_rows) (auto simp: OpFetch e split: if_splits dest!: chosen_sub intro: row_step.fetched)
  qed
next
  case (OpComplete p)
  then show ?thesis
    by (simp add: case_prod_beta mem_Complete_def finalize_evolves row_step.completed)
next
  case (OpRetry p)
  then show ?thesis
    by (auto simp: case_prod_beta mem_Retry_def validate_all_None split: option.split
        intro!: finalize_evolves row_step.retried)
next
  case (OpCancel p)
  then show ?thesis
    by (simp add: case_prod_beta mem_Cancel_def finalize_evolves row_step.cancelled)
next
  case (OpKill p)
  then show ?thesis by (simp add: case_prod_beta mem_Kill_def finalize_evolves row_step.killed)
next
  case (OpSnooze p)
  then show ?thesis
    by (auto simp: case_prod_beta mem_Snooze_def validate_all_None split: option.split
        intro!: finalize_evolves row_step.snoozed)
next
  case (OpHeartbeat p)
  have "State j = StateRunning" if "jobs b i = Some j" "beats (hp_Jobs p) (jobs b) i" for i j
    using that by (auto simp: beats_def running_at_def hit_iff)
  then show ?thesis
    by (intro evolves_rows) (auto simp: OpHeartbeat Heartbeat_eq split: if_splits intro: row_step.renewed)
next
  case (OpMoveDue ord p)
  with assms show ?thesis
    by (intro evolves_rows)
      (auto simp: MoveDue_eq split: if_splits dest!: picked_sub intro: row_step.promote)
next
  case (OpRescueStale ord p)
  with assms show ?thesis
    by (intro evolves_rows)
      (auto simp: RescueStale_eq split: if_splits dest!: picked_sub intro: row_step.rescued)
next
  case (OpClean ord p)
  with assms show ?thesis
    by (intro evolves_rows) (auto simp: Clean_eq split: if_splits)
next
  case (OpSetCancelRequested i)
  then show ?thesis
    by (intro evolves_rows)
      (auto simp: SetCancelRequested_def split: option.splits if_splits intro: row_step.cancel_asked)
next
  case OpReset
  then show ?thesis by (intro evolves_rows) (auto simp: Reset_def)
qed

end
