(* ===== verification/Claims.thy ===== *)
theory Claims
  imports Store
begin

text \<open>
  Exclusive claims and fencing over every sequence of calls. A token is a pair of a job's ID and a
  generation. The three invariants below say what a history of tokens means in the current store;
  each is kept by every call, so each holds along every run.
\<close>

subsection \<open>IDs\<close>

definition ids_ok :: "mem \<Rightarrow> bool" where
  "ids_ok b \<longleftrightarrow> 0 \<le> nextID b \<and> (\<forall>i j. jobs b i = Some j \<longrightarrow> ID j = i \<and> 1 \<le> i \<and> i \<le> nextID b)"

lemma ids_ok_New [simp]: "ids_ok New"
  by (simp add: ids_ok_def New_def)

lemma ids_ok_row: "ids_ok b \<Longrightarrow> jobs b i = Some j \<Longrightarrow> ID j = i \<and> 1 \<le> i \<and> i \<le> nextID b"
  by (simp add: ids_ok_def)

lemma evolves_ids_ok: "evolves b b' \<Longrightarrow> ids_ok b \<Longrightarrow> ids_ok b'"
  unfolding evolves_def ids_ok_def by (fastforce dest: row_step_same_job simp: same_job_def)

lemmas exec_ids_ok = evolves_ids_ok [OF exec_evolves]

lemma evolves_old1:
  assumes "evolves b b'" "i \<le> nextID b" "jobs b' i = Some j'"
  obtains j where "jobs b i = Some j" "j' = j \<or> row_step j j'"
  using assms unfolding evolves_def by (metis linorder_not_le)

lemma evolves_old:
  assumes "evolves b b'" "i \<le> nextID b" "jobs b' i = Some j'"
  obtains j where "jobs b i = Some j" "row_steps j j'"
  using evolves_old1 [OF assms] by (metis r_into_rtranclp rtranclp.rtrancl_refl)

lemma evolves_nextID: "evolves b b' \<Longrightarrow> nextID b \<le> nextID b'"
  by (simp add: evolves_def)

subsection \<open>Tokens handed out\<close>

text \<open>Every token in the history belongs to an assigned ID and is not above the row's generation.\<close>

definition issued :: "(int \<times> int) set \<Rightarrow> mem \<Rightarrow> bool" where
  "issued T b \<longleftrightarrow>
     (\<forall>(i, g)\<in>T. i \<le> nextID b \<and> (\<forall>j. jobs b i = Some j \<longrightarrow> g \<le> Generation j))"

lemma issued_empty [simp]: "issued {} b"
  by (simp add: issued_def)

lemma issued_Un: "issued (T \<union> U) b \<longleftrightarrow> issued T b \<and> issued U b"
  by (auto simp: issued_def)

lemma evolves_issued:
  assumes "evolves b b'" "issued T b"
  shows "issued T b'"
  unfolding issued_def
proof (clarify, intro conjI allI impI)
  fix i g
  assume "(i, g) \<in> T"
  with assms(2) have ig: "i \<le> nextID b" "\<And>j. jobs b i = Some j \<Longrightarrow> g \<le> Generation j"
    by (auto simp: issued_def)
  then show "i \<le> nextID b'" using evolves_nextID [OF assms(1)] by linarith
  fix j'
  assume "jobs b' i = Some j'"
  then obtain j where j: "jobs b i = Some j" "row_steps j j'"
    using evolves_old [OF assms(1) ig(1)] by blast
  show "g \<le> Generation j'"
    using ig(2) [OF j(1)] row_steps_generation [OF j(2)] by linarith
qed

text \<open>The tokens of one call are new: each is one above the generation its row had.\<close>

lemma exec_claims:
  assumes "orders_ok x" "ids_ok b" "exec x b = (r, b')"
  shows "distinct (map fst (claims r))"
    and "(i, g) \<in> set (claims r) \<Longrightarrow>
           \<exists>j. jobs b i = Some j \<and> State j = StateAvailable \<and> g = Generation j + 1 \<and>
               (\<exists>j'. jobs b' i = Some j' \<and> running_at g j')"
proof -
  have "distinct (map fst (claims r)) \<and> (\<forall>(i, g)\<in>set (claims r).
      \<exists>j. jobs b i = Some j \<and> State j = StateAvailable \<and> g = Generation j + 1 \<and>
               (\<exists>j'. jobs b' i = Some j' \<and> running_at g j'))"
  proof (cases "\<exists>ord p. x = OpFetch ord p \<and> 0 \<le> fp_Limit p")
    case True
    then obtain ord p where x: "x = OpFetch ord p" "0 \<le> fp_Limit p" "distinct ord"
      using assms(1) by auto
    from assms(3) Fetch_eq [OF x(3,2), of b]
    have r: "r = Fetched (Inr (map (\<lambda>k. claim p (the (jobs b k))) (chosen ord p b)))"
      and b': "b' = b\<lparr>jobs := \<lambda>k. if k \<in> set (chosen ord p b) then map_option (claim p) (jobs b k) else jobs b k\<rparr>"
      by (auto simp: x(1))
    have row: "\<exists>j. jobs b k = Some j \<and> ID j = k \<and> due p j" if "k \<in> set (chosen ord p b)" for k
      using chosen_sub [OF that] assms(2) by (auto dest: ids_ok_row)
    have "map fst (claims r) = map (\<lambda>k. k) (chosen ord p b)"
      unfolding r claims.simps map_map by (rule map_cong) (auto simp: claim_def dest!: row)
    moreover have "set (claims r) = (\<lambda>k. (k, Generation (the (jobs b k)) + 1)) ` set (chosen ord p b)"
      unfolding r claims.simps set_map image_image by (rule image_cong) (auto simp: claim_def dest!: row)
    ultimately show ?thesis
      using chosen_distinct [OF x(3)] by (auto simp: b' claim_def running_at_def due_def dest!: row)
  next
    case False
    then have "claims r = []"
      using assms(3) by (cases x) (auto simp: Fetch_neg split: prod.splits)
    then show ?thesis by simp
  qed
  then show "distinct (map fst (claims r))"
    "(i, g) \<in> set (claims r) \<Longrightarrow>
       \<exists>j. jobs b i = Some j \<and> State j = StateAvailable \<and> g = Generation j + 1 \<and>
           (\<exists>j'. jobs b' i = Some j' \<and> running_at g j')" by auto
qed

abbreviation claims_of :: "reply list \<Rightarrow> (int \<times> int) list" where
  "claims_of rs \<equiv> concat (map claims rs)"

lemma exec_issued:
  assumes "orders_ok x" "ids_ok b" "exec x b = (r, b')" "issued T b"
  shows "issued (T \<union> set (claims r)) b'" "T \<inter> set (claims r) = {}"
proof -
  have ev: "evolves b b'" using exec_evolves [OF assms(1), of b] assms(3) by simp
  note cl = exec_claims(2) [OF assms(1-3)]
  have "issued (set (claims r)) b'"
    unfolding issued_def
  proof clarify
    fix i g
    assume "(i, g) \<in> set (claims r)"
    then obtain j j' where "jobs b i = Some j" "jobs b' i = Some j'" "running_at g j'"
      using cl by blast
    then show "i \<le> nextID b' \<and> (\<forall>j. jobs b' i = Some j \<longrightarrow> g \<le> Generation j)"
      using ids_ok_row [OF assms(2)] evolves_nextID [OF ev] by (fastforce simp: running_at_def)
  qed
  with evolves_issued [OF ev assms(4)] show "issued (T \<union> set (claims r)) b'" by (simp add: issued_Un)
  show "T \<inter> set (claims r) = {}"
    using assms(4) cl unfolding issued_def by fastforce
qed

lemma run_claims:
  assumes "\<forall>x\<in>set xs. orders_ok x" "ids_ok b" "issued T b" "run xs b = (rs, b')"
  shows "distinct (claims_of rs) \<and> T \<inter> set (claims_of rs) = {} \<and> ids_ok b' \<and>
         issued (T \<union> set (claims_of rs)) b'"
  using assms
proof (induction xs arbitrary: b T rs)
  case (Cons x xs)
  obtain r b1 where e: "exec x b = (r, b1)" by fastforce
  obtain rs' where rs: "rs = r # rs'" and t: "run xs b1 = (rs', b')"
    using Cons.prems(4) e by (auto split: prod.splits)
  have ox: "orders_ok x" and oxs: "\<forall>x\<in>set xs. orders_ok x" using Cons.prems(1) by auto
  have ids: "ids_ok b1" using exec_ids_ok [OF ox Cons.prems(2)] e by simp
  note iss = exec_issued [OF ox Cons.prems(2) e Cons.prems(3)]
  have d: "distinct (claims r)" using exec_claims(1) [OF ox Cons.prems(2) e] by (rule distinct_map [THEN iffD1, THEN conjunct1])
  from Cons.IH [OF oxs ids iss(1) t] iss(2) d show ?case by (auto simp: rs Un_assoc)
qed simp

subsection \<open>Tokens that are spent\<close>

text \<open>
  A token is dead when its row is gone, has moved on to a later generation, or is no longer running.
  No call brings it back.
\<close>

definition dead_token :: "int \<times> int \<Rightarrow> mem \<Rightarrow> bool" where
  "dead_token t b \<longleftrightarrow>
     fst t \<le> nextID b \<and>
     (\<forall>j. jobs b (fst t) = Some j \<longrightarrow> snd t \<le> Generation j \<and> \<not> running_at (snd t) j)"

lemma evolves_dead:
  assumes "evolves b b'" "dead_token t b"
  shows "dead_token t b'"
  unfolding dead_token_def
proof (intro conjI allI impI)
  from assms(2) have t: "fst t \<le> nextID b"
    "\<And>j. jobs b (fst t) = Some j \<Longrightarrow> snd t \<le> Generation j \<and> \<not> running_at (snd t) j"
    by (auto simp: dead_token_def)
  then show "fst t \<le> nextID b'" using evolves_nextID [OF assms(1)] by linarith
  fix j'
  assume j': "jobs b' (fst t) = Some j'"
  then obtain j where j: "jobs b (fst t) = Some j" "row_steps j j'"
    using evolves_old [OF assms(1) t(1)] by blast
  show "snd t \<le> Generation j'" using t(2) [OF j(1)] row_steps_generation [OF j(2)] by linarith
  show "\<not> running_at (snd t) j'"
  proof
    assume r: "running_at (snd t) j'"
    then have "Generation j' = Generation j"
      using t(2) [OF j(1)] row_steps_generation [OF j(2)] by (simp add: running_at_def)
    with r row_steps_running [OF j(2)] t(2) [OF j(1)] show False by (simp add: running_at_def)
  qed
qed

lemma winners_deciding:
  "(i, g) \<in> set (winners idf gen fs m) \<Longrightarrow>
     \<exists>f. deciding idf gen fs m i = Some f \<and> gen f = g"
proof (induction fs arbitrary: m)
  case (Cons f fs)
  show ?case
  proof (cases "hit (running_at (gen f)) m (idf f)")
    case True
    consider "i = idf f \<and> g = gen f" | "(i, g) \<in> set (winners idf gen fs (m(idf f := None)))"
      using Cons.prems True by auto
    then show ?thesis
    proof cases
      case 2
      from Cons.IH [OF 2] obtain f' where f': "deciding idf gen fs (m(idf f := None)) i = Some f'" "gen f' = g"
        by blast
      then have ne: "idf f \<noteq> i" by (auto dest!: deciding_Some)
      then have "deciding idf gen fs (m(idf f := None)) i = deciding idf gen fs m i"
        by (intro deciding_cong) simp
      with f' ne show ?thesis by (simp add: deciding_Cons)
    qed (use True in \<open>simp add: deciding_Cons\<close>)
  next
    case False
    with Cons show ?thesis by (auto simp: deciding_Cons)
  qed
qed simp

lemma winners_distinct: "distinct (map fst (winners idf gen fs m))"
proof (induction fs arbitrary: m)
  case (Cons f fs)
  have "idf f \<notin> fst ` set (winners idf gen fs (m(idf f := None)))"
    by (auto dest!: winners_deciding deciding_Some)
  with Cons show ?case by simp
qed simp

lemma same_generation [simp]:
  "Generation (apply_complete f j) = Generation j"
  "Generation (apply_retry r j) = Generation j"
  "Generation (apply_cancel now c j) = Generation j"
  "Generation (apply_kill k j) = Generation j"
  "Generation (apply_snooze s j) = Generation j"
  by (simp_all add: step_defs)

definition spends :: "int \<Rightarrow> int \<Rightarrow> mem \<Rightarrow> mem \<Rightarrow> bool" where
  "spends i g b b' \<longleftrightarrow>
     (\<exists>j j'. jobs b i = Some j \<and> running_at g j \<and>
        jobs b' i = Some j' \<and> Generation j' = g \<and> \<not> running_at g j')"

lemma finalize_winners:
  assumes "\<And>f j. State (app f j) \<noteq> StateRunning" "\<And>f j. Generation (app f j) = Generation j"
    and "(i, g) \<in> set (winners idf gen fs (jobs b))"
  shows "spends i g b (snd (finalize idf gen now app fs b))"
proof -
  obtain f where f: "deciding idf gen fs (jobs b) i = Some f" "gen f = g"
    using winners_deciding [OF assms(3)] by blast
  then obtain j where j: "jobs b i = Some j" "running_at g j"
    using deciding_Some [OF f(1)] by (auto simp: running_at_def)
  then show ?thesis
    using f assms(1,2) by (simp add: spends_def finalize_jobs [OF assms(1)] running_at_def)
qed

lemma accepted_token: "(i, g) \<in> set (accepted x b) \<Longrightarrow> spends i g b (snd (exec x b))"
  by (cases x)
    (auto simp: case_prod_beta mem_Complete_def mem_Retry_def mem_Cancel_def mem_Kill_def mem_Snooze_def
      intro!: finalize_winners split: if_splits)

lemma accepted_distinct: "distinct (map fst (accepted x b))"
  by (cases x) (simp_all add: winners_distinct)

lemma accepted_dead:
  assumes "orders_ok x" "ids_ok b" "t \<in> set (accepted x b)"
  shows "dead_token t (snd (exec x b))" "\<not> dead_token t b"
proof -
  obtain i g where t: "t = (i, g)" by (cases t)
  from accepted_token [OF assms(3) [unfolded t]] obtain j j' where
    j: "jobs b i = Some j" "running_at g j" "jobs (snd (exec x b)) i = Some j'" "Generation j' = g"
    "\<not> running_at g j'" unfolding spends_def by blast
  then show "dead_token t (snd (exec x b))"
    using ids_ok_row [OF exec_ids_ok [OF assms(1,2)] j(3)] by (simp add: t dead_token_def)
  show "\<not> dead_token t b" using j by (auto simp: t dead_token_def)
qed

lemma run_accepted:
  assumes "\<forall>x\<in>set xs. orders_ok x" "ids_ok b" "\<forall>t\<in>D. dead_token t b"
  shows "distinct (accepted_run xs b) \<and> D \<inter> set (accepted_run xs b) = {}"
  using assms
proof (induction xs arbitrary: b D)
  case (Cons x xs)
  let ?b = "snd (exec x b)"
  have ox: "orders_ok x" and oxs: "\<forall>x\<in>set xs. orders_ok x" using Cons.prems(1) by auto
  have ids: "ids_ok ?b" by (rule exec_ids_ok [OF ox Cons.prems(2)])
  have dead: "\<forall>t\<in>D \<union> set (accepted x b). dead_token t ?b"
    using Cons.prems(3) evolves_dead [OF exec_evolves [OF ox]] accepted_dead(1) [OF ox Cons.prems(2)] by blast
  have "D \<inter> set (accepted x b) = {}"
    using Cons.prems(3) accepted_dead(2) [OF ox Cons.prems(2)] by blast
  moreover have "distinct (accepted x b)"
    using accepted_distinct by (rule distinct_map [THEN iffD1, THEN conjunct1])
  ultimately show ?case using Cons.IH [OF oxs ids dead] by auto
qed simp

end
