(* ===== verification/Samples.thy ===== *)
theory Samples
  imports Claims
begin

text \<open>
  One concrete run of the memory backend, at which the theorems about every run are instantiated: two
  jobs are enqueued (the second with a boost), fetched one by one, one claim is rescued, made
  available and fetched again, and both its old and its new token are then completed.
\<close>

text \<open>A row as a client builds it: no attempt, no history.\<close>

definition fresh_row :: "job_row \<Rightarrow> bool" where
  "fresh_row j \<longleftrightarrow>
     Attempt j = 0 \<and> Generation j = 0 \<and> AttemptedBy j = [] \<and> Errors j = [] \<and> FinalizedAt j = zero_time"

fun fresh_op :: "op \<Rightarrow> bool" where
  "fresh_op (OpEnqueue p) \<longleftrightarrow> (\<forall>j\<in>set (ep_Jobs p). fresh_row j)"
| "fresh_op _ \<longleftrightarrow> True"

definition sample_row :: job_row where
  "sample_row = zero_row\<lparr>Kind := ''email'', Queue := ''default'', MaxAttempts := 3\<rparr>"

definition sample_fetch :: "instant \<Rightarrow> fetch_params" where
  "sample_fetch now = \<lparr>fp_Queue = ''default'', fp_Limit = 1, fp_ClientID = ''w'', fp_Now = now\<rparr>"

definition sample_enqueue :: op where
  "sample_enqueue = OpEnqueue \<lparr>ep_Jobs = [sample_row, sample_row\<lparr>PriorityBoost := 5\<rparr>], ep_Now = 100\<rparr>"

definition sample_claims :: "op list" where
  "sample_claims =
    [sample_enqueue,
     OpFetch [1, 2] (sample_fetch 100),
     OpFetch [2, 1] (sample_fetch 100),
     OpRescueStale [2, 1] \<lparr>sr_Now = 200, sr_TTL = 10, sr_Limit = 1\<rparr>,
     OpMoveDue [1, 2] \<lparr>mp_Now = 200, mp_Limit = 10\<rparr>,
     OpFetch [1, 2] (sample_fetch 200)]"

definition sample_complete :: op where
  "sample_complete =
     OpComplete \<lparr>cp_Jobs = [\<lparr>jf_ID = 2, jf_Generation = 1, jf_Metadata = RawNil\<rparr>,
                             \<lparr>jf_ID = 2, jf_Generation = 2, jf_Metadata = RawNil\<rparr>], cp_Now = 210\<rparr>"

lemmas sample_defs =
  sample_row_def sample_fetch_def sample_enqueue_def sample_claims_def sample_complete_def

text \<open>The store after the two jobs are enqueued.\<close>

definition sample_store :: mem where
  "sample_store = snd (exec sample_enqueue New)"

lemma sample_orders:
  "\<forall>x\<in>set (sample_claims @ [sample_complete]). orders_ok x \<and> fresh_op x"
  by (simp add: sample_defs zero_row_def fresh_row_def)

lemma sample_ids_ok [simp]: "ids_ok sample_store"
  unfolding sample_store_def by (rule exec_ids_ok) (simp_all add: sample_defs)

end
