(* ===== verification/Memory_Spec.thy ===== *)
theory Memory_Spec
  imports Samples
begin

text \<open>
  The promises of the storage contract, proved of the memory backend: exclusive claims, fencing, the
  row lifecycle and the row invariant over every run, and what each method returns and changes.
\<close>

subsection \<open>Running rows were claimed\<close>

definition running_issued :: "(int \<times> int) set \<Rightarrow> mem \<Rightarrow> bool" where
  "running_issued T b \<longleftrightarrow>
     (\<forall>i j. jobs b i = Some j \<and> State j = StateRunning \<longrightarrow> (i, Generation j) \<in> T)"

lemma running_issued_New [simp]: "running_issued T New"
  by (simp add: running_issued_def New_def)

text \<open>Only a fetch makes a row running; any other call leaves a running row's token as it was.\<close>

lemma finalize_running:
  assumes "\<And>f j. State (app f j) \<noteq> StateRunning"
    and "jobs (snd (finalize idf gen now app fs b)) i = Some j'" "State j' = StateRunning"
  shows "jobs b i = Some j'"
  using assms(2,3) by (auto simp: finalize_jobs [OF assms(1)] assms(1) split: option.splits)

lemma exec_running:
  assumes "orders_ok x" "ids_ok b" "exec x b = (r, b')" "jobs b' i = Some j'" "State j' = StateRunning"
  shows "(i, Generation j') \<in> set (claims r) \<or>
     (\<exists>j. jobs b i = Some j \<and> State j = StateRunning \<and> Generation j = Generation j')"
proof (cases "\<exists>ord p. x = OpFetch ord p \<and> 0 \<le> fp_Limit p")
  case True
  then obtain ord p where x: "x = OpFetch ord p" "0 \<le> fp_Limit p" "distinct ord"
    using assms(1) by auto
  note e = Fetch_eq [OF x(3,2), of b]
  have r: "r = Fetched (Inr (map (\<lambda>k. claim p (the (jobs b k))) (chosen ord p b)))"
    and b': "jobs b' i = (if i \<in> set (chosen ord p b) then map_option (claim p) (jobs b i) else jobs b i)"
    using assms(3) e by (auto simp: x(1))
  show ?thesis
  proof (cases "i \<in> set (chosen ord p b)")
    case True
    with b' assms(4) have "map_option (claim p) (jobs b i) = Some j'" by simp
    then obtain j where j: "jobs b i = Some j" "j' = claim p j" by (cases "jobs b i") auto
    then have "(i, Generation j') = (\<lambda>j. (ID j, Generation j)) (claim p (the (jobs b i)))"
      using ids_ok_row [OF assms(2) j(1)] by (simp add: claim_def)
    with True have "(i, Generation j') \<in> set (claims r)"
      unfolding r claims.simps set_map by blast
    then show ?thesis ..
  next
    case False
    with b' assms(4) have "jobs b i = Some j'" by simp
    with assms(5) show ?thesis by blast
  qed
next
  case False
  have b': "b' = snd (exec x b)" using assms(3) by simp
  show ?thesis
  proof (cases x)
    case (OpEnqueue p)
    show ?thesis
    proof (cases rule: Enqueue_cases [of p b])
      case (bad e)
      then show ?thesis using assms(4,5) by (simp add: b' OpEnqueue)
    next
      case (good rows b1)
      have "b' = b1" using good(1) by (simp add: b' OpEnqueue)
      then show ?thesis
        using assms(4,5) good(3) good(4) [of "nat (i - nextID b - 1)"]
        by (auto simp: good(5) stamp_row_eq split: if_splits)
    qed
  next
    case (OpFetch ord p)
    then show ?thesis using False assms(4,5) by (auto simp: b' Fetch_neg)
  next
    case (OpHeartbeat p)
    then show ?thesis using assms(4,5) by (auto simp: b' Heartbeat_eq split: if_splits)
  next
    case (OpMoveDue ord p)
    then show ?thesis using assms(1,4,5) by (auto simp: b' MoveDue_eq split: if_splits)
  next
    case (OpRescueStale ord p)
    then show ?thesis using assms(1,4,5) by (auto simp: b' RescueStale_eq rescue_row_def split: if_splits)
  next
    case (OpClean ord p)
    then show ?thesis using assms(1,4,5) by (auto simp: b' Clean_eq split: if_splits)
  next
    case (OpSetCancelRequested k)
    then show ?thesis
      using assms(4,5) by (auto simp: b' SetCancelRequested_def split: option.splits if_splits)
  next
    case OpReset
    then show ?thesis using assms(4) by (simp add: b' Reset_def)
  qed (use assms(4,5) in \<open>auto simp: b' case_prod_beta mem_Complete_def mem_Retry_def mem_Cancel_def
        mem_Kill_def mem_Snooze_def dest: finalize_running [rotated] split: option.splits\<close>)
qed

lemma exec_running_issued:
  assumes "orders_ok x" "ids_ok b" "exec x b = (r, b')" "running_issued T b"
  shows "running_issued (T \<union> set (claims r)) b'"
  using assms(4) exec_running [OF assms(1-3)] unfolding running_issued_def by (metis UnI1 UnI2)

lemma run_append:
  "run (xs @ ys) b = (let (rs, b1) = run xs b; (rs', b2) = run ys b1 in (rs @ rs', b2))"
  by (induction xs arbitrary: b) (auto simp: case_prod_beta Let_def)

lemma run_running_issued:
  assumes "\<forall>x\<in>set xs. orders_ok x" "ids_ok b" "running_issued T b"
  shows "running_issued (T \<union> set (claims_of (fst (run xs b)))) (snd (run xs b)) \<and> ids_ok (snd (run xs b))"
  using assms
proof (induction xs arbitrary: b T)
  case (Cons x xs)
  obtain r b1 where e: "exec x b = (r, b1)" by fastforce
  have ox: "orders_ok x" and oxs: "\<forall>x\<in>set xs. orders_ok x" using Cons.prems(1) by auto
  have ids: "ids_ok b1" using exec_ids_ok [OF ox Cons.prems(2)] e by simp
  from Cons.IH [OF oxs ids exec_running_issued [OF ox Cons.prems(2) e Cons.prems(3)]] e
  show ?case by (simp add: case_prod_beta Un_assoc)
qed simp

lemma run_evolves:
  "\<forall>x\<in>set xs. orders_ok x \<Longrightarrow> t \<in> D \<Longrightarrow> dead_token t b \<Longrightarrow> dead_token t (snd (run xs b))"
proof (induction xs arbitrary: b)
  case (Cons x xs)
  then have "dead_token t (snd (exec x b))" by (intro evolves_dead [OF exec_evolves]) auto
  with Cons show ?case by (simp add: case_prod_beta)
qed simp

subsection \<open>The row invariant\<close>

definition rows_ok :: "mem \<Rightarrow> bool" where
  "rows_ok b \<longleftrightarrow> (\<forall>i j. jobs b i = Some j \<longrightarrow> row_ok j)"

lemma stamp_row_ok:
  assumes "fresh_row j" "storable (sched now j)" "storable (sched now j - sint (PriorityBoost j))"
  shows "row_ok (stamp_row now i (sched now j - sint (PriorityBoost j)) j)"
  using assms
  by (simp add: row_ok_def attempts_over_def stamp_row_eq fresh_row_def SubDurationClamped_spec)

lemma exec_rows_ok:
  assumes "orders_ok x" "fresh_op x" "ids_ok b" "rows_ok b"
  shows "rows_ok (snd (exec x b))"
  unfolding rows_ok_def
proof (intro allI impI)
  fix i j'
  assume j': "jobs (snd (exec x b)) i = Some j'"
  show "row_ok j'"
  proof (cases "i \<le> nextID b")
    case True
    then obtain j where "jobs b i = Some j" "row_steps j j'"
      using evolves_old [OF exec_evolves [OF assms(1)] _ j'] by blast
    then show ?thesis using assms(4) row_steps_ok by (auto simp: rows_ok_def)
  next
    case False
    then have none: "jobs b i = None"
      using assms(3) by (cases "jobs b i") (auto dest: ids_ok_row)
    then have new: "\<not> (\<exists>j. jobs b i = Some j \<and> row_steps j j')" by simp
    have "\<exists>p. x = OpEnqueue p"
    proof (rule ccontr)
      assume "\<nexists>p. x = OpEnqueue p"
      then have "nextID (snd (exec x b)) = nextID b"
        by (cases x) (auto simp: case_prod_beta mem_Fetch_def mem_Complete_def mem_Retry_def mem_Cancel_def
            mem_Kill_def mem_Snooze_def mem_Heartbeat_def mem_MoveDue_def mem_RescueStale_def mem_Clean_def
            SetCancelRequested_def Reset_def Let_def split: option.split)
      then show False
        using exec_evolves [OF assms(1), of b] j' new False by (fastforce simp: evolves_def)
    qed
    then obtain p where x: "x = OpEnqueue p" by blast
    show ?thesis
    proof (cases rule: Enqueue_cases [of p b])
      case (bad e)
      then show ?thesis using j' none by (simp add: x)
    next
      case (good rows b1)
      let ?k = "nat (i - nextID b - 1)"
      have k: "?k < length rows" "j' = rows ! ?k"
        using j' none False good(1,3) by (auto simp: x good(5) split: if_splits)
      then have "fresh_row (ep_Jobs p ! ?k)" using assms(2) good(2) by (simp add: x)
      then show ?thesis using good(4) [OF k(1)] k(2) stamp_row_ok by simp
    qed
  qed
qed

lemma run_rows_ok:
  assumes "\<forall>x\<in>set xs. orders_ok x \<and> fresh_op x" "ids_ok b" "rows_ok b"
  shows "rows_ok (snd (run xs b))"
  using assms
proof (induction xs arbitrary: b)
  case (Cons x xs)
  then have "rows_ok (snd (exec x b))" "ids_ok (snd (exec x b))"
    by (auto intro: exec_rows_ok exec_ids_ok)
  with Cons show ?case by (simp add: case_prod_beta)
qed simp

subsection \<open>What every run guarantees\<close>

text \<open>C1: A claim is exclusive: whatever calls are made in whatever order, no (job, generation) token is
  ever handed out twice, so no two fetches deliver the same attempt of a job.\<close>

theorem claims_exclusive:
  assumes "\<forall>x\<in>set xs. orders_ok x"
  shows "distinct (claims_of (fst (run xs New)))"
proof -
  obtain rs b' where "run xs New = (rs, b')" by fastforce
  from run_claims [OF assms ids_ok_New issued_empty this] this show ?thesis by simp
qed

lemma claims_exclusive_witness:
  "claims_of (fst (run sample_claims New)) = [(2, 1), (1, 1), (2, 2)] \<and>
   distinct (claims_of (fst (run sample_claims New)))"
proof
  show "claims_of (fst (run sample_claims New)) = [(2, 1), (1, 1), (2, 2)]" by code_simp
  show "distinct (claims_of (fst (run sample_claims New)))"
    by (rule claims_exclusive) (use sample_orders in auto)
qed



text \<open>Fencing: once a token is dead (its job is gone, was claimed again, rescued or finalized) it stays
  dead whatever follows, and no later call accepts a finalization for it.\<close>

theorem dead_token_stays_dead:
  assumes "\<forall>x\<in>set xs. orders_ok x" "ids_ok b" "dead_token t b"
  shows "dead_token t (snd (run xs b)) \<and> t \<notin> set (accepted_run xs b)"
  using run_evolves [OF assms(1) _ assms(3)] run_accepted [OF assms(1,2), of "{t}"] assms(3) by auto

lemma dead_token_stays_dead_witness:
  "(2, 1) \<notin> set (accepted_run [sample_complete] (snd (run sample_claims New)))"
proof -
  have dead: "dead_token (2, 1) (snd (run sample_claims New))"
  proof -
    have "nextID (snd (run sample_claims New)) = 2"
      "Generation (the (jobs (snd (run sample_claims New)) 2)) = 2" by code_simp+
    then show ?thesis by (auto simp: dead_token_def running_at_def)
  qed
  have ids: "ids_ok (snd (run sample_claims New))"
    using run_running_issued [of sample_claims New "{}"] sample_orders by auto
  show ?thesis
    using dead_token_stays_dead [of "[sample_complete]", OF _ ids dead] sample_orders by auto
qed

text \<open>C5: The lifecycle: a row that survives a call keeps its identity fields, its generation does not
  fall, its state stays or makes one of the moves the contract allows, and a terminal row changes in nothing
  but the cancellation flag.\<close>

theorem exec_lifecycle:
  assumes "orders_ok x" "ids_ok b" "jobs b i = Some j" "jobs (snd (exec x b)) i = Some j'"
  shows "same_job j j' \<and> Generation j \<le> Generation j' \<and>
         (State j' = State j \<or> life (State j) (State j')) \<and> (Terminal (State j) \<longrightarrow> frozen j j')"
proof -
  have "i \<le> nextID b" using ids_ok_row [OF assms(2,3)] by simp
  then have "j' = j \<or> row_step j j'"
    using evolves_old1 [OF exec_evolves [OF assms(1)] _ assms(4)] assms(3) by (metis option.inject)
  then show ?thesis
  proof
    assume "j' = j"
    then show ?thesis by (simp add: same_job_def frozen_def)
  next
    assume step: "row_step j j'"
    show ?thesis
      by (intro conjI impI row_step_same_job [OF step] row_step_life [OF step] row_step_frozen [OF step]
          row_step_generation [OF step, THEN conjunct1])
  qed
qed

lemma exec_lifecycle_witness:
  "State (the (jobs sample_store 2)) = StateAvailable \<and>
   State (the (jobs (snd (exec (OpFetch [1, 2] (sample_fetch 100)) sample_store)) 2)) = StateRunning \<and>
   same_job (the (jobs sample_store 2)) (the (jobs (snd (exec (OpFetch [1, 2] (sample_fetch 100)) sample_store)) 2))"
proof (intro conjI)
  let ?x = "OpFetch [1, 2] (sample_fetch 100)"
  show "State (the (jobs sample_store 2)) = StateAvailable" by code_simp
  show "State (the (jobs (snd (exec ?x sample_store)) 2)) = StateRunning" by code_simp
  have "jobs sample_store 2 \<noteq> None" "jobs (snd (exec ?x sample_store)) 2 \<noteq> None" by code_simp+
  then show "same_job (the (jobs sample_store 2)) (the (jobs (snd (exec ?x sample_store)) 2))"
    using exec_lifecycle [of ?x sample_store 2] by auto
qed

text \<open>C22: The row invariant: when the rows enqueued are as a client builds them, every stored row of every
  reachable store has a history that agrees with its counters (one claimer per generation, attempts between
  the recorded errors and the claims), no finalization time unless terminal, and a priority equal to its
  schedule less its boost, clamped.\<close>

theorem rows_hang_together:
  assumes "\<forall>x\<in>set xs. orders_ok x \<and> fresh_op x" "jobs (snd (run xs New)) i = Some j"
  shows "row_ok j"
proof -
  have "rows_ok New" by (simp add: rows_ok_def New_def)
  from run_rows_ok [OF assms(1) ids_ok_New this] assms(2) show ?thesis by (simp add: rows_ok_def)
qed

lemma rows_hang_together_witness:
  "AttemptedBy (the (jobs (snd (run sample_claims New)) 2)) = [''w'', ''w''] \<and>
   row_ok (the (jobs (snd (run sample_claims New)) 2))"
proof
  show "AttemptedBy (the (jobs (snd (run sample_claims New)) 2)) = [''w'', ''w'']" by code_simp
  have "jobs (snd (run sample_claims New)) 2 \<noteq> None" by code_simp
  then show "row_ok (the (jobs (snd (run sample_claims New)) 2))"
    using rows_hang_together [of sample_claims 2] sample_orders by auto
qed

end
