(* ===== verification/Memory_Ops.thy ===== *)
theory Memory_Ops
  imports Memory_Spec
begin

text \<open>
  The functional behaviour of the memory backend, method by method: what each call returns and which
  rows it changes, errors included.
\<close>

text \<open>An order in which Go may range over the job map: every key exactly once.\<close>

definition ranges :: "int list \<Rightarrow> mem \<Rightarrow> bool" where
  "ranges ord b \<longleftrightarrow> distinct ord \<and> set ord = dom (jobs b)"

lemma ranges_dom: "ranges ord b \<Longrightarrow> jobs b i = Some j \<Longrightarrow> i \<in> set ord"
  by (auto simp: ranges_def)

lemma two_ranges:
  assumes "ids_ok b" "nextID b = 2" "jobs b 1 \<noteq> None" "jobs b 2 \<noteq> None"
  shows "ranges [1, 2] b" "ranges [2, 1] b"
proof -
  have "dom (jobs b) = {1, 2}" using ids_ok_row [OF assms(1)] assms(2-4) by fastforce
  then show "ranges [1, 2] b" "ranges [2, 1] b" by (auto simp: ranges_def)
qed

lemma sample_ranges: "ranges [1, 2] sample_store" "ranges [2, 1] sample_store"
  by (rule two_ranges [OF sample_ids_ok]; code_simp)+

text \<open>The samples after the first five calls: job 1 is running, job 2 was rescued and is available again.\<close>

definition sample_mid :: "nat \<Rightarrow> mem" where
  "sample_mid n = snd (run (take n sample_claims) New)"

lemma sample_mid_ids_ok [simp]: "ids_ok (sample_mid n)"
  using run_running_issued [of "take n sample_claims" New "{}"] sample_orders
  by (auto simp: sample_mid_def dest: in_set_takeD)

lemma sample_mid_ranges: "ranges [1, 2] (sample_mid 3)" "ranges [1, 2] (sample_mid 4)"
  by (rule two_ranges [OF sample_mid_ids_ok]; code_simp)+

lemma prio_key_claim [simp]: "prio_key (claim p j) = prio_key j"
  by (simp add: prio_key_def claim_def)

lemma ID_claim [simp]: "ID (claim p j) = ID j"
  by (simp add: claim_def)

subsection \<open>Fetch\<close>

lemma chosen_ID:
  assumes "ids_ok b" "k \<in> set (chosen ord p b)"
  shows "jobs b k = Some (the (jobs b k))" "ID (the (jobs b k)) = k" "due p (the (jobs b k))"
proof -
  obtain j where j: "jobs b k = Some j" "due p j"
    using chosen_sub [OF assms(2), THEN conjunct2] by (elim exE conjE)
  then show "jobs b k = Some (the (jobs b k))" "ID (the (jobs b k)) = k" "due p (the (jobs b k))"
    using ids_ok_row [OF assms(1) j(1)] by simp_all
qed

lemma map_ID_chosen:
  "ids_ok b \<Longrightarrow> map ID (map (\<lambda>k. claim p (the (jobs b k))) (chosen ord p b)) = chosen ord p b"
  unfolding map_map by (rule map_idI) (simp add: chosen_ID(2))

lemma chosen_least:
  assumes "ranges ord b" "k \<in> set (chosen ord p b)" "jobs b i = Some j" "due p j" "i \<notin> set (chosen ord p b)"
  shows "prio_key (the (jobs b k)) \<le> prio_key j"
proof -
  let ?c = "candidates ord p (jobs b)"
  have "i \<in> set ?c" using ranges_dom [OF assms(1,3)] assms(3,4) by (simp add: candidates_set)
  then have "i \<in> set (take (nat (fp_Limit p)) ?c) \<union> set (drop (nat (fp_Limit p)) ?c)"
    by (metis append_take_drop_id set_append)
  then have "i \<in> set (drop (nat (fp_Limit p)) ?c)" using assms(5) by (simp add: chosen_def)
  from take_sorted_least [OF candidates_sorted assms(2) [unfolded chosen_def] this] assms(3)
  show ?thesis by simp
qed

lemma length_chosen:
  assumes "ranges ord b"
  shows "length (chosen ord p b) = min (nat (fp_Limit p)) (card {i. \<exists>j. jobs b i = Some j \<and> due p j})"
proof -
  have "set (candidates ord p (jobs b)) = {i. \<exists>j. jobs b i = Some j \<and> due p j}"
    using assms by (auto simp: candidates_set ranges_def)
  then have "length (candidates ord p (jobs b)) = card {i. \<exists>j. jobs b i = Some j \<and> due p j}"
    using distinct_card candidates_distinct assms by (metis ranges_def)
  then show ?thesis by (simp add: chosen_def min.commute)
qed

text \<open>What a fetch promises: the reply and the store after it, given the store before.\<close>

definition fetchable :: "fetch_params \<Rightarrow> mem \<Rightarrow> int \<Rightarrow> job_row \<Rightarrow> bool" where
  "fetchable p b i j \<longleftrightarrow>
     jobs b i = Some j \<and> State j = StateAvailable \<and> Queue j = fp_Queue p \<and> ScheduledAt j \<le> fp_Now p"

definition claimed :: "fetch_params \<Rightarrow> job_row \<Rightarrow> job_row \<Rightarrow> bool" where
  "claimed p j r \<longleftrightarrow>
     r = j\<lparr>State := StateRunning, Attempt := Attempt j + 1, Generation := Generation j + 1,
           AttemptedAt := fp_Now p, HeartbeatAt := fp_Now p, AttemptedBy := AttemptedBy j @ [fp_ClientID p]\<rparr>"

definition fetch_post :: "fetch_params \<Rightarrow> mem \<Rightarrow> job_row list \<Rightarrow> mem \<Rightarrow> bool" where
  "fetch_post p b out b' \<longleftrightarrow>
     length out = min (nat (fp_Limit p)) (card {i. \<exists>j. fetchable p b i j}) \<and>
     sorted (map (\<lambda>j. (PriorityAt j, ID j)) out) \<and> distinct (map ID out) \<and>
     (\<forall>r\<in>set out. \<exists>j. fetchable p b (ID r) j \<and> claimed p j r \<and> jobs b' (ID r) = Some r) \<and>
     (\<forall>i. i \<notin> ID ` set out \<longrightarrow> jobs b' i = jobs b i) \<and>
     (\<forall>r\<in>set out. \<forall>i j. fetchable p b i j \<and> i \<notin> ID ` set out \<longrightarrow> (PriorityAt r, ID r) \<le> (PriorityAt j, ID j))"

lemma fetchable_due: "fetchable p b i j \<longleftrightarrow> jobs b i = Some j \<and> due p j"
  by (auto simp: fetchable_def due_def)

lemma claimed_claim: "claimed p j r \<longleftrightarrow> r = claim p j"
  by (simp add: claimed_def claim_def)

lemma fetch_ok:
  assumes "ranges ord b" "ids_ok b" "0 \<le> fp_Limit p"
  shows "\<exists>out. fst (mem_Fetch ord p b) = Inr out \<and> fetch_post p b out (snd (mem_Fetch ord p b))"
proof -
  let ?out = "map (\<lambda>k. claim p (the (jobs b k))) (chosen ord p b)"
  have d: "distinct ord" using assms(1) by (simp add: ranges_def)
  note e = Fetch_eq [OF d assms(3), of b]
  have ids: "ID ` set ?out = set (chosen ord p b)"
    using map_ID_chosen [OF assms(2), of p ord] by (metis set_map)
  have "length ?out = min (nat (fp_Limit p)) (card {i. \<exists>j. jobs b i = Some j \<and> due p j})"
    by (simp add: length_chosen [OF assms(1)])
  moreover have "sorted (map prio_key ?out)"
    unfolding map_map chosen_def
    by (simp add: o_def take_map [symmetric] sorted_wrt_take [OF candidates_sorted])
  moreover have "distinct (map ID ?out)"
    unfolding map_ID_chosen [OF assms(2)] by (rule chosen_distinct [OF d])
  moreover have "\<exists>j. jobs b (ID r) = Some j \<and> due p j \<and> r = claim p j \<and>
      jobs (snd (mem_Fetch ord p b)) (ID r) = Some r" if r: "r \<in> set ?out" for r
  proof -
    obtain k where k: "k \<in> set (chosen ord p b)" "r = claim p (the (jobs b k))"
      using r unfolding set_map by (elim imageE)
    note c = chosen_ID [OF assms(2) k(1)]
    then have "ID r = k" by (simp add: k(2))
    moreover have "jobs (snd (mem_Fetch ord p b)) k = Some r"
      using k(1) by (subst e, simp add: k(2)) (subst c(1), simp)
    ultimately show ?thesis using c(1,3) k(2) by blast
  qed
  moreover have "jobs (snd (mem_Fetch ord p b)) i = jobs b i" if "i \<notin> ID ` set ?out" for i
    using that unfolding ids by (simp add: e)
  moreover have "prio_key r \<le> prio_key j"
    if "r \<in> set ?out" "jobs b i = Some j" "due p j" "i \<notin> ID ` set ?out" for r i j
    using that chosen_least [OF assms(1) _ that(2,3)] unfolding ids by auto
  ultimately have "fetch_post p b ?out (snd (mem_Fetch ord p b))"
    unfolding fetch_post_def fetchable_due claimed_claim prio_key_def [symmetric] by blast
  then show ?thesis by (simp add: e)
qed

text \<open>C17: Fetch claims exactly the due jobs of the queue that sort first by priority instant and then ID, at
  most Limit of them and fewer only when no more are due; it returns them in that order as the stored rows
  now are (running, attempt and generation raised), and touches no other row.\<close>

theorem Fetch_spec:
  assumes "ranges ord b" "ids_ok b" "0 \<le> fp_Limit p"
  shows "\<exists>out. fst (mem_Fetch ord p b) = Inr out \<and> fetch_post p b out (snd (mem_Fetch ord p b))"
  using fetch_ok [OF assms] .

lemma Fetch_spec_witness:
  "fetch_post (sample_fetch 100) sample_store
     [claim (sample_fetch 100) (the (jobs sample_store 2))]
     (snd (mem_Fetch [1, 2] (sample_fetch 100) sample_store))"
proof -
  have "map ID (projr (fst (mem_Fetch [1, 2] (sample_fetch 100) sample_store))) = [2]" by code_simp
  then have one: "projr (fst (mem_Fetch [1, 2] (sample_fetch 100) sample_store)) =
      [claim (sample_fetch 100) (the (jobs sample_store 2))]" by code_simp
  from Fetch_spec [OF sample_ranges(1) sample_ids_ok, of "sample_fetch 100"] one
  show ?thesis by (auto simp: sample_fetch_def)
qed

text \<open>The order in which Go happens to range over the job map never shows: a fetch returns the same rows
  and leaves the same store for every order.\<close>

theorem Fetch_order_irrelevant:
  assumes "ranges ord b" "ranges ord' b" "ids_ok b"
  shows "mem_Fetch ord p b = mem_Fetch ord' p b"
proof -
  have "inj_on (\<lambda>k. prio_key (the (jobs b k))) (dom (jobs b))"
  proof (rule inj_onI)
    fix x y
    assume "x \<in> dom (jobs b)" "y \<in> dom (jobs b)"
      and e: "prio_key (the (jobs b x)) = prio_key (the (jobs b y))"
    then obtain jx jy where r: "jobs b x = Some jx" "jobs b y = Some jy" by blast
    then have "ID jx = x" "ID jy = y" using assms(3) by (auto dest: ids_ok_row)
    with e r show "x = y" by (simp add: prio_key_def)
  qed
  then have inj: "inj_on (\<lambda>k. prio_key (the (jobs b k))) (set (filter (hit (due p) (jobs b)) ord))"
    using assms(1) by (auto simp: ranges_def intro: inj_on_subset)
  have "mset ord = mset ord'"
    using assms(1,2) set_eq_iff_mset_eq_distinct [of ord ord'] by (simp add: ranges_def)
  then have "mset (filter (hit (due p) (jobs b)) ord) = mset (filter (hit (due p) (jobs b)) ord')"
    by (simp add: mset_filter)
  from sort_key_eqI [OF this inj] assms(1)
  have "candidates ord p (jobs b) = candidates ord' p (jobs b)"
    by (simp add: candidates_def ranges_def)
  then show ?thesis by (simp add: mem_Fetch_def)
qed

lemma Fetch_order_irrelevant_witness:
  "mem_Fetch [1, 2] (sample_fetch 100) sample_store = mem_Fetch [2, 1] (sample_fetch 100) sample_store"
  by (rule Fetch_order_irrelevant [OF sample_ranges sample_ids_ok])

subsection \<open>Enqueue\<close>

definition enqueueable :: "instant \<Rightarrow> job_row \<Rightarrow> bool" where
  "enqueueable now j \<longleftrightarrow> storable (sched now j) \<and> storable (sched now j - sint (PriorityBoost j))"

text \<open>C23: Enqueue is all or nothing. If every row's schedule (or the clock, where it is unset) and its
  schedule less its boost are storable, every row is stored under the next IDs in order, available exactly
  if it is already due; otherwise the call fails with ErrTimeOutOfRange and the store is unchanged.\<close>

theorem Enqueue_atomic:
  "if \<forall>j\<in>set (ep_Jobs p). enqueueable (ep_Now p) j
   then (\<exists>rows b'. mem_Enqueue p b = (Inr rows, b') \<and> length rows = length (ep_Jobs p) \<and>
          nextID b' = nextID b + int (length rows) \<and>
          (\<forall>k<length rows. let j = ep_Jobs p ! k; r = rows ! k in
             r = j\<lparr>ID := nextID b + int k + 1, CreatedAt := ep_Now p, ScheduledAt := sched (ep_Now p) j,
                   State := (if ep_Now p < sched (ep_Now p) j then StateScheduled else StateAvailable),
                   PriorityAt := sched (ep_Now p) j - sint (PriorityBoost j)\<rparr> \<and>
             jobs b' (ID r) = Some r) \<and>
          (\<forall>i. \<not> (nextID b < i \<and> i \<le> nextID b') \<longrightarrow> jobs b' i = jobs b i))
   else (\<exists>e. mem_Enqueue p b = (Inl e, b) \<and> errors_Is e ErrTimeOutOfRange)"
proof (cases rule: Enqueue_cases [of p b])
  case (bad e)
  have "\<not> (\<forall>j\<in>set (ep_Jobs p). enqueueable (ep_Now p) j)"
  proof
    assume "\<forall>j\<in>set (ep_Jobs p). enqueueable (ep_Now p) j"
    then have "enqueue_prio (ep_Now p) (ep_Jobs p) =
        Inr (map (\<lambda>j. sched (ep_Now p) j - sint (PriorityBoost j)) (ep_Jobs p))"
      by (simp add: enqueue_prio_Inr enqueueable_def)
    with bad(1) show False by (simp add: mem_Enqueue_def split: prod.splits)
  qed
  with bad show ?thesis by auto
next
  case (good rows b')
  have all: "\<forall>j\<in>set (ep_Jobs p). enqueueable (ep_Now p) j"
    using good(2,4) by (metis enqueueable_def in_set_conv_nth)
  have row: "let j = ep_Jobs p ! k; r = rows ! k in
             r = j\<lparr>ID := nextID b + int k + 1, CreatedAt := ep_Now p, ScheduledAt := sched (ep_Now p) j,
                   State := (if ep_Now p < sched (ep_Now p) j then StateScheduled else StateAvailable),
                   PriorityAt := sched (ep_Now p) j - sint (PriorityBoost j)\<rparr> \<and>
             jobs b' (ID r) = Some r" if "k < length rows" for k
  proof -
    have r: "rows ! k = stamp_row (ep_Now p) (nextID b + int k + 1)
           (sched (ep_Now p) (ep_Jobs p ! k) - sint (PriorityBoost (ep_Jobs p ! k))) (ep_Jobs p ! k)"
      using good(4) [OF that] by blast
    have "jobs b' (nextID b + int k + 1) = Some (rows ! k)"
      using good(3) that by (simp add: good(5))
    with r show ?thesis by (simp add: stamp_row_eq Let_def)
  qed
  with all good show ?thesis by auto
qed

lemma Enqueue_atomic_witness:
  "\<exists>rows b'. mem_Enqueue \<lparr>ep_Jobs = [sample_row, sample_row], ep_Now = 100\<rparr> sample_store = (Inr rows, b') \<and>
     nextID b' = 4 \<and> jobs b' 1 = jobs sample_store 1"
proof -
  let ?p = "\<lparr>ep_Jobs = [sample_row, sample_row], ep_Now = 100\<rparr>"
  have n: "nextID sample_store = 2" by code_simp
  have "\<forall>j\<in>set (ep_Jobs ?p). enqueueable (ep_Now ?p) j"
    by (simp add: enqueueable_def sample_row_def zero_row_def sched_def storable_iff IsZero_def min_i64_def max_i64_def)
  then obtain rows b' where "mem_Enqueue ?p sample_store = (Inr rows, b')" "length rows = 2"
    "nextID b' = nextID sample_store + int (length rows)"
    "\<forall>i. \<not> (nextID sample_store < i \<and> i \<le> nextID b') \<longrightarrow> jobs b' i = jobs sample_store i"
    using Enqueue_atomic [of ?p sample_store] by auto
  then show ?thesis by (intro exI [of _ rows] exI [of _ b']) (simp add: n)
qed

subsection \<open>Finalization\<close>

text \<open>A token (ID, generation) is held when its row is running at that generation.\<close>

definition held :: "mem \<Rightarrow> int \<Rightarrow> int \<Rightarrow> bool" where
  "held b i g \<longleftrightarrow> (\<exists>j. jobs b i = Some j \<and> State j = StateRunning \<and> Generation j = g)"

lemma held_hit: "held b i g \<longleftrightarrow> hit (running_at g) (jobs b) i"
  by (auto simp: held_def hit_iff running_at_def)

text \<open>C24: A finalization is fenced entry by entry. For Complete: a row is completed exactly if some entry
  names its ID and its current generation while it runs, every other row is untouched, and every entry that
  does not match is reported in the StaleError while the rest still apply.\<close>

theorem Complete_fenced:
  "(\<forall>i. jobs (snd (mem_Complete p b)) i =
      (case List.find (\<lambda>f. jf_ID f = i \<and> held b i (jf_Generation f)) (cp_Jobs p) of
         None \<Rightarrow> jobs b i
       | Some f \<Rightarrow> Some (mergeMeta (jf_Metadata f)
            ((the (jobs b i))\<lparr>State := StateCompleted, FinalizedAt := cp_Now p\<rparr>)))) \<and>
   (\<forall>f\<in>set (cp_Jobs p). \<not> held b (jf_ID f) (jf_Generation f) \<longrightarrow>
      (\<exists>ids. fst (mem_Complete p b) = Some (StaleError ids) \<and> jf_ID f \<in> set ids)) \<and>
   (distinct (map jf_ID (cp_Jobs p)) \<longrightarrow>
      (\<forall>f\<in>set (cp_Jobs p). held b (jf_ID f) (jf_Generation f)) \<longrightarrow>
      fst (mem_Complete p b) = None)"
  unfolding held_hit
proof (intro conjI allI ballI impI)
  fix i
  show "jobs (snd (mem_Complete p b)) i =
      (case List.find (\<lambda>f. jf_ID f = i \<and> hit (running_at (jf_Generation f)) (jobs b) i) (cp_Jobs p) of
         None \<Rightarrow> jobs b i
       | Some f \<Rightarrow> Some (mergeMeta (jf_Metadata f)
            ((the (jobs b i))\<lparr>State := StateCompleted, FinalizedAt := cp_Now p\<rparr>)))"
    unfolding mem_Complete_def finalize_jobs [OF leaves_running(1)] deciding_def
    by (simp add: apply_complete_def mergeMeta_def split: option.split)
next
  fix f
  assume "f \<in> set (cp_Jobs p)" "\<not> hit (running_at (jf_Generation f)) (jobs b) (jf_ID f)"
  from unmatched_stale [where idf = jf_ID and gen = jf_Generation and app = apply_complete and now = "cp_Now p", OF leaves_running(1) this]
  show "\<exists>ids. fst (mem_Complete p b) = Some (StaleError ids) \<and> jf_ID f \<in> set ids"
    by (auto simp: mem_Complete_def finalize_error)
next
  assume "distinct (map jf_ID (cp_Jobs p))"
    "\<forall>f\<in>set (cp_Jobs p). hit (running_at (jf_Generation f)) (jobs b) (jf_ID f)"
  then show "fst (mem_Complete p b) = None"
    by (simp add: mem_Complete_def finalize_error matched_not_stale)
qed

lemma Complete_fenced_witness:
  "\<exists>ids. fst (mem_Complete \<lparr>cp_Jobs = [\<lparr>jf_ID = 2, jf_Generation = 7, jf_Metadata = RawNil\<rparr>], cp_Now = 9\<rparr> (sample_mid 3))
     = Some (StaleError ids) \<and> 2 \<in> set ids"
proof -
  have "jobs (sample_mid 3) 2 \<noteq> None" "Generation (the (jobs (sample_mid 3) 2)) = 1" by code_simp+
  then have "\<not> held (sample_mid 3) 2 7" by (auto simp: held_def)
  then show ?thesis
    using Complete_fenced [of "\<lparr>cp_Jobs = [\<lparr>jf_ID = 2, jf_Generation = 7, jf_Metadata = RawNil\<rparr>], cp_Now = 9\<rparr>" "sample_mid 3"]
    by simp
qed

text \<open>A batch of retries with one instant that cannot be stored is refused as a whole with
  ErrTimeOutOfRange and changes nothing; otherwise each matching row becomes retryable at the entry's instant
  with its priority re-derived and clamped, its error appended and its attempt not refunded.\<close>

theorem Retry_batch:
  "if \<exists>f\<in>set (rp_Jobs p). \<not> storable (jr_At f)
   then (\<exists>e. mem_Retry p b = (Some e, b) \<and> errors_Is e ErrTimeOutOfRange)
   else (\<forall>i. jobs (snd (mem_Retry p b)) i =
      (case List.find (\<lambda>f. jr_ID f = i \<and> held b i (jr_Generation f)) (rp_Jobs p) of
         None \<Rightarrow> jobs b i
       | Some f \<Rightarrow> (let j = the (jobs b i) in Some (mergeMeta (jr_Metadata f)
            (j\<lparr>State := StateRetryable, ScheduledAt := jr_At f,
               PriorityAt := clamp_instant (jr_At f - sint (PriorityBoost j)),
               FinalizedAt := zero_time, Errors := Errors j @ [jr_Err f]\<rparr>)))))"
proof (cases "validate_all (map jr_At (rp_Jobs p))")
  case None
  then have st: "\<forall>f\<in>set (rp_Jobs p). storable (jr_At f)" by (simp add: validate_all_None)
  have "jobs (snd (mem_Retry p b)) i =
      (case List.find (\<lambda>f. jr_ID f = i \<and> hit (running_at (jr_Generation f)) (jobs b) i) (rp_Jobs p) of
         None \<Rightarrow> jobs b i
       | Some f \<Rightarrow> (let j = the (jobs b i) in Some (mergeMeta (jr_Metadata f)
            (j\<lparr>State := StateRetryable, ScheduledAt := jr_At f,
               PriorityAt := clamp_instant (jr_At f - sint (PriorityBoost j)),
               FinalizedAt := zero_time, Errors := Errors j @ [jr_Err f]\<rparr>))))" for i
  proof (cases "deciding jr_ID jr_Generation (rp_Jobs p) (jobs b) i")
    case None
    then show ?thesis
      unfolding mem_Retry_def \<open>validate_all _ = None\<close> option.case(1) finalize_jobs [OF leaves_running(2)]
      by (simp add: deciding_def)
  next
    case (Some f)
    then have "f \<in> set (rp_Jobs p)" by (auto dest!: deciding_Some)
    then have "clamp_instant (jr_At f) = jr_At f" using st by simp
    with Some show ?thesis
      unfolding mem_Retry_def \<open>validate_all _ = None\<close> option.case(1) finalize_jobs [OF leaves_running(2)]
      by (simp add: deciding_def apply_retry_def Let_def SubDurationClamped_spec)
  qed
  with st show ?thesis unfolding held_hit by auto
next
  case (Some e)
  then have "\<exists>f\<in>set (rp_Jobs p). \<not> storable (jr_At f)" 
    using validate_all_None [of "map jr_At (rp_Jobs p)"] by auto
  with Some validate_all_Some [OF Some] show ?thesis by (simp add: mem_Retry_def)
qed

lemma Retry_batch_witness:
  "\<exists>e. mem_Retry \<lparr>rp_Jobs = [\<lparr>jr_ID = 2, jr_Generation = 1, jr_At = 500,
       jr_Err = \<lparr>ae_at = 9, ae_attempt = 1, ae_err = ''x'', ae_stack = []\<rparr>, jr_Metadata = RawNil\<rparr>,
     \<lparr>jr_ID = 1, jr_Generation = 1, jr_At = zero_time,
       jr_Err = \<lparr>ae_at = 9, ae_attempt = 1, ae_err = ''x'', ae_stack = []\<rparr>, jr_Metadata = RawNil\<rparr>], rp_Now = 9\<rparr> (sample_mid 3)
     = (Some e, sample_mid 3) \<and> errors_Is e ErrTimeOutOfRange"
  (is "\<exists>e. mem_Retry ?p ?b = _ e \<and> _")
proof -
  have "\<exists>f\<in>set (rp_Jobs ?p). \<not> storable (jr_At f)"
    by (simp add: storable_iff zero_time_def min_i64_def max_i64_def)
  with Retry_batch [of ?p ?b] show ?thesis by (simp only: if_True)
qed

end
