(* ===== verification/Memory_Maint.thy ===== *)
theory Memory_Maint
  imports Memory_Ops
begin

text \<open>
  The rest of the memory backend's behaviour: snoozing, heartbeats, and the three bounded sweeps
  (\<^verbatim>\<open>MoveDue\<close>, \<^verbatim>\<open>RescueStale\<close>, \<^verbatim>\<open>Clean\<close>), which share one loop.
\<close>

subsection \<open>Bounded sweeps\<close>

text \<open>
  What a sweep over the rows does: it acts on as many qualifying rows as the limit allows, changes each
  by \<open>f\<close> (\<open>None\<close> deletes it), counts them, and leaves every other row and the ID counter alone.
\<close>

definition sweep_post ::
  "(job_row \<Rightarrow> bool) \<Rightarrow> (job_row \<Rightarrow> job_row option) \<Rightarrow> int \<Rightarrow> mem \<Rightarrow> int \<Rightarrow> mem \<Rightarrow> bool" where
  "sweep_post P f limit b n b' \<longleftrightarrow>
     n = min (max 0 limit) (int (card {i. hit P (jobs b) i})) \<and> nextID b' = nextID b \<and>
     (\<exists>S. finite S \<and> int (card S) = n \<and> S \<subseteq> {i. hit P (jobs b) i} \<and>
        (\<forall>i. jobs b' i = (if i \<in> S then Option.bind (jobs b i) f else jobs b i)))"

lemma length_picked:
  assumes "ranges ord b"
  shows "int (length (picked P l ord (jobs b))) = min (max 0 l) (int (card {i. hit P (jobs b) i}))"
proof -
  have "{i. hit P (jobs b) i} = set (filter (hit P (jobs b)) ord)"
    using ranges_dom [OF assms] by (auto simp: hit_iff)
  moreover have "distinct (filter (hit P (jobs b)) ord)" using assms by (simp add: ranges_def)
  ultimately have "card {i. hit P (jobs b) i} = length (filter (hit P (jobs b)) ord)"
    using distinct_card by metis
  then show ?thesis by (simp add: picked_def)
qed

lemma sweep_picked:
  assumes "ranges ord b" and f: "\<And>i. g i = (if i \<in> set (picked P l ord (jobs b)) then Option.bind (jobs b i) f else jobs b i)"
  shows "sweep_post P f l b (int (length (picked P l ord (jobs b)))) (b\<lparr>jobs := g\<rparr>)"
  unfolding sweep_post_def
proof (intro conjI)
  let ?S = "set (picked P l ord (jobs b))"
  have "distinct (picked P l ord (jobs b))" using assms(1) by (simp add: ranges_def distinct_picked)
  then have "int (card ?S) = int (length (picked P l ord (jobs b)))" by (simp add: distinct_card)
  moreover have "?S \<subseteq> {i. hit P (jobs b) i}" by (auto simp: hit_iff dest: picked_sub)
  ultimately show "\<exists>S. finite S \<and> int (card S) = int (length (picked P l ord (jobs b))) \<and>
      S \<subseteq> {i. hit P (jobs b) i} \<and>
      (\<forall>i. jobs (b\<lparr>jobs := g\<rparr>) i = (if i \<in> S then Option.bind (jobs b i) f else jobs b i))"
    using f by (intro exI [of _ ?S]) simp
qed (simp_all add: length_picked [OF assms(1)])

lemma bind_map_option: "Option.bind x (\<lambda>j. Some (h j)) = map_option h x"
  by (cases x) simp_all

text \<open>C25: MoveDue makes available as many due scheduled or retryable jobs as the limit allows and no other
  row changes, so a count below the limit means that no due job is left behind.\<close>

theorem MoveDue_spec:
  assumes "ranges ord b"
  shows "\<exists>n. fst (mem_MoveDue ord p b) = Inr n \<and>
     sweep_post (\<lambda>j. State j \<in> {StateScheduled, StateRetryable} \<and> ScheduledAt j \<le> mp_Now p)
       (\<lambda>j. Some (j\<lparr>State := StateAvailable\<rparr>)) (mp_Limit p) b n (snd (mem_MoveDue ord p b)) \<and>
     (n < mp_Limit p \<longrightarrow> (\<forall>i j. jobs (snd (mem_MoveDue ord p b)) i = Some j \<longrightarrow>
        State j \<in> {StateScheduled, StateRetryable} \<longrightarrow> mp_Now p < ScheduledAt j))"
proof -
  have P: "(\<lambda>j. State j \<in> {StateScheduled, StateRetryable} \<and> ScheduledAt j \<le> mp_Now p) = movable (mp_Now p)"
    by (auto simp: movable_def fun_eq_iff)
  have d: "distinct ord" using assms by (simp add: ranges_def)
  let ?ks = "picked (movable (mp_Now p)) (mp_Limit p) ord (jobs b)"
  note e = MoveDue_eq [OF d, of p b]
  have "\<not> hit (movable (mp_Now p)) (jobs (snd (mem_MoveDue ord p b))) i" if n: "int (length ?ks) < mp_Limit p" for i
  proof
    assume h: "hit (movable (mp_Now p)) (jobs (snd (mem_MoveDue ord p b))) i"
    show False
    proof (cases "i \<in> set ?ks")
      case True
      with h show False by (auto simp: e hit_iff movable_def)
    next
      case False
      with h obtain j where j: "jobs b i = Some j" "movable (mp_Now p) j" by (auto simp: e hit_iff)
      from picked_all [OF n ranges_dom [OF assms j(1)] j] False show False by blast
    qed
  qed
  moreover have "sweep_post (movable (mp_Now p)) (\<lambda>j. Some (j\<lparr>State := StateAvailable\<rparr>)) (mp_Limit p) b
      (int (length ?ks)) (snd (mem_MoveDue ord p b))"
    unfolding e snd_conv by (rule sweep_picked [OF assms]) (simp add: bind_map_option)
  ultimately show ?thesis
    unfolding P
    by (intro exI [of _ "int (length ?ks)"] conjI impI allI)
      (simp add: e, assumption, force simp: hit_iff movable_def)
qed

lemma MoveDue_spec_witness:
  "fst (mem_MoveDue [1, 2] \<lparr>mp_Now = 200, mp_Limit = 9\<rparr> (sample_mid 4)) = Inr 1 \<and>
   \<not> (State (the (jobs (snd (mem_MoveDue [1, 2] \<lparr>mp_Now = 200, mp_Limit = 9\<rparr> (sample_mid 4))) 2)) = StateRetryable \<and>
      ScheduledAt (the (jobs (snd (mem_MoveDue [1, 2] \<lparr>mp_Now = 200, mp_Limit = 9\<rparr> (sample_mid 4))) 2)) \<le> 200)"
proof
  let ?p = "\<lparr>mp_Now = 200, mp_Limit = 9\<rparr>"
  show one: "fst (mem_MoveDue [1, 2] ?p (sample_mid 4)) = Inr 1" by code_simp
  have "jobs (snd (mem_MoveDue [1, 2] ?p (sample_mid 4))) 2 \<noteq> None" by code_simp
  then show "\<not> (State (the (jobs (snd (mem_MoveDue [1, 2] ?p (sample_mid 4))) 2)) = StateRetryable \<and>
      ScheduledAt (the (jobs (snd (mem_MoveDue [1, 2] ?p (sample_mid 4))) 2)) \<le> 200)"
    using MoveDue_spec [OF sample_mid_ranges(2), of ?p] one
    by auto (metis (no_types, lifting) linorder_not_less)
qed

text \<open>RescueStale takes back, up to the limit, running jobs whose last heartbeat is older than the TTL:
  each becomes retryable now, with its attempt spent and its generation kept, so that the next claim fences
  the old holder; every other row is left alone.\<close>

theorem RescueStale_spec:
  assumes "ranges ord b"
  shows "\<exists>n. fst (mem_RescueStale ord p b) = Inr n \<and>
     sweep_post (\<lambda>j. State j = StateRunning \<and> HeartbeatAt j < sr_Now p + sint (- sr_TTL p))
       (\<lambda>j. Some (j\<lparr>State := StateRetryable, ScheduledAt := sr_Now p,
                   PriorityAt := SubDurationClamped (sr_Now p) (PriorityBoost j)\<rparr>))
       (sr_Limit p) b n (snd (mem_RescueStale ord p b))"
proof -
  have d: "distinct ord" using assms by (simp add: ranges_def)
  have P: "stale_since (rescue_cutoff p) = (\<lambda>j. State j = StateRunning \<and> HeartbeatAt j < sr_Now p + sint (- sr_TTL p))"
    by (simp add: fun_eq_iff stale_since_def rescue_cutoff_def time_Add_def)
  have "sweep_post (stale_since (rescue_cutoff p)) (\<lambda>j. Some (rescue_row (sr_Now p) j)) (sr_Limit p) b
      (int (length (picked (stale_since (rescue_cutoff p)) (sr_Limit p) ord (jobs b))))
      (snd (mem_RescueStale ord p b))"
    unfolding RescueStale_eq [OF d] snd_conv by (rule sweep_picked [OF assms]) (simp add: bind_map_option)
  then show ?thesis by (simp add: RescueStale_eq [OF d] P rescue_row_def [abs_def])
qed

lemma RescueStale_spec_witness:
  "fst (mem_RescueStale [1, 2] \<lparr>sr_Now = 200, sr_TTL = 10, sr_Limit = 9\<rparr> (sample_mid 3)) = Inr 2 \<and>
   min 9 (int (card {i. hit (\<lambda>j. State j = StateRunning \<and> HeartbeatAt j < 190) (jobs (sample_mid 3)) i})) = 2"
proof
  show two: "fst (mem_RescueStale [1, 2] \<lparr>sr_Now = 200, sr_TTL = 10, sr_Limit = 9\<rparr> (sample_mid 3)) = Inr 2"
    by code_simp
  show "min 9 (int (card {i. hit (\<lambda>j. State j = StateRunning \<and> HeartbeatAt j < 190) (jobs (sample_mid 3)) i})) = 2"
    using RescueStale_spec [OF sample_mid_ranges(1), of "\<lparr>sr_Now = 200, sr_TTL = 10, sr_Limit = 9\<rparr>"] two
    by (simp add: sweep_post_def)
qed

definition past_retention :: "clean_params \<Rightarrow> job_row \<Rightarrow> bool" where
  "past_retention p j \<longleftrightarrow>
     State j = StateCompleted \<and> FinalizedAt j < cl_Now p + sint (- cl_CompletedRetention p) \<or>
     State j = StateCancelled \<and> FinalizedAt j < cl_Now p + sint (- cl_CancelledRetention p) \<or>
     State j = StateDead \<and> FinalizedAt j < cl_Now p + sint (- cl_DeadRetention p)"

lemma expired_past: "expired p = past_retention p"
proof
  show "expired p j = past_retention p j" for j
    by (cases "State j") (simp_all add: expired_def past_retention_def time_Add_def)
qed

text \<open>C26: Clean deletes, up to the limit, exactly terminal jobs past the retention of their own state; a
  job that is scheduled, available, running or retryable is never deleted, nor is any other row changed.\<close>

theorem Clean_spec:
  assumes "ranges ord b"
  shows "\<exists>n. fst (mem_Clean ord p b) = Inr n \<and>
     sweep_post (past_retention p) (\<lambda>_. None) (cl_Limit p) b n (snd (mem_Clean ord p b)) \<and>
     (\<forall>i j. jobs b i = Some j \<and> \<not> Terminal (State j) \<longrightarrow> jobs (snd (mem_Clean ord p b)) i = Some j)"
proof -
  have d: "distinct ord" using assms by (simp add: ranges_def)
  have "sweep_post (expired p) (\<lambda>_. None) (cl_Limit p) b
      (int (length (picked (expired p) (cl_Limit p) ord (jobs b)))) (snd (mem_Clean ord p b))"
    unfolding Clean_eq [OF d] snd_conv by (rule sweep_picked [OF assms]) (simp add: bind_eq_None_conv)
  moreover have "jobs (snd (mem_Clean ord p b)) i = Some j" if "jobs b i = Some j" "\<not> Terminal (State j)" for i j
  proof -
    have "i \<notin> set (picked (expired p) (cl_Limit p) ord (jobs b))"
      using that by (auto dest!: picked_sub simp: expired_def Terminal_def split: option.splits)
        (cases "State j"; simp)+
    then show ?thesis using that by (simp add: Clean_eq [OF d])
  qed
  ultimately show ?thesis by (simp add: Clean_eq [OF d] expired_past)
qed

lemma Clean_spec_witness:
  "jobs (snd (mem_Clean [1, 2] \<lparr>cl_Now = 900, cl_CompletedRetention = 1, cl_CancelledRetention = 1,
      cl_DeadRetention = 1, cl_Limit = 9\<rparr> sample_store)) 2 = jobs sample_store 2"
proof -
  have "jobs sample_store 2 \<noteq> None" "State (the (jobs sample_store 2)) = StateAvailable" by code_simp+
  then obtain j where "jobs sample_store 2 = Some j" "\<not> Terminal (State j)" by (auto simp: Terminal_def)
  with Clean_spec [OF sample_ranges(1)] show ?thesis by auto
qed

subsection \<open>Heartbeats\<close>

text \<open>C27: A heartbeat renews exactly the running jobs whose token it carries, and reports exactly the IDs of
  those for which cancellation was requested; a token that has been fenced off renews nothing.\<close>

theorem Heartbeat_spec:
  "\<exists>ids. fst (mem_Heartbeat p b) = Inr ids \<and>
     set ids = {i. \<exists>hb\<in>set (hp_Jobs p). jh_ID hb = i \<and>
                  held b i (jh_Generation hb) \<and> CancelRequested (the (jobs b i))} \<and>
     (\<forall>i. jobs (snd (mem_Heartbeat p b)) i =
       (if \<exists>hb\<in>set (hp_Jobs p). jh_ID hb = i \<and> held b i (jh_Generation hb)
        then Some ((the (jobs b i))\<lparr>HeartbeatAt := hp_Now p\<rparr>) else jobs b i))"
  by (auto simp: Heartbeat_eq beats_def held_hit hit_iff)

lemma Heartbeat_spec_witness:
  "HeartbeatAt (the (jobs (snd (mem_Heartbeat \<lparr>hp_ClientID = ''w'', hp_Jobs = [\<lparr>jh_ID = 2, jh_Generation = 1\<rparr>],
     hp_Now = 195\<rparr> (sample_mid 3))) 2)) = 195"
proof -
  have "jobs (sample_mid 3) 2 \<noteq> None" "running_at 1 (the (jobs (sample_mid 3) 2))" by code_simp+
  then have "held (sample_mid 3) 2 1" by (auto simp: held_def running_at_def)
  then show ?thesis
    using Heartbeat_spec [of "\<lparr>hp_ClientID = ''w'', hp_Jobs = [\<lparr>jh_ID = 2, jh_Generation = 1\<rparr>], hp_Now = 195\<rparr>" "sample_mid 3"]
    by auto
qed

text \<open>A held job that keeps its heartbeat is never rescued: after a heartbeat with the job's current
  token, a rescue whose TTL has not run out since leaves the row running under the same token.\<close>

theorem heartbeat_holds:
  assumes "jobs b i = Some j" "held b i g" "\<lparr>jh_ID = i, jh_Generation = g\<rparr> \<in> set (hp_Jobs p)"
    and "distinct ord" "sr_Now q - hp_Now p \<le> sint (sr_TTL q)" "0 \<le> sint (sr_TTL q)"
  shows "jobs (snd (mem_RescueStale ord q (snd (mem_Heartbeat p b)))) i = Some (j\<lparr>HeartbeatAt := hp_Now p\<rparr>)"
proof -
  have "beats (hp_Jobs p) (jobs b) i"
    unfolding beats_def using assms(2) by (intro bexI [OF _ assms(3)]) (simp add: held_hit)
  then have row: "jobs (snd (mem_Heartbeat p b)) i = Some (j\<lparr>HeartbeatAt := hp_Now p\<rparr>)"
    using assms(1) by (simp add: Heartbeat_eq)
  have "sint (- sr_TTL q) = - sint (sr_TTL q)" using assms(6) by (intro sint_uminus_exact) (simp add: min_i64_def)
  then have "\<not> stale_since (rescue_cutoff q) (j\<lparr>HeartbeatAt := hp_Now p\<rparr>)"
    using assms(5) by (simp add: stale_since_def rescue_cutoff_def time_Add_def)
  then have "i \<notin> set (picked (stale_since (rescue_cutoff q)) (sr_Limit q) ord (jobs (snd (mem_Heartbeat p b))))"
    using row by (auto dest!: picked_sub)
  then show ?thesis using row by (simp add: RescueStale_eq [OF assms(4)])
qed

lemma heartbeat_holds_witness:
  "jobs (snd (mem_RescueStale [1, 2] \<lparr>sr_Now = 200, sr_TTL = 10, sr_Limit = 9\<rparr>
     (snd (mem_Heartbeat \<lparr>hp_ClientID = ''w'', hp_Jobs = [\<lparr>jh_ID = 2, jh_Generation = 1\<rparr>], hp_Now = 195\<rparr> (sample_mid 3))))) 2
   = Some ((the (jobs (sample_mid 3) 2))\<lparr>HeartbeatAt := 195\<rparr>)"
proof -
  have "jobs (sample_mid 3) 2 \<noteq> None" "running_at 1 (the (jobs (sample_mid 3) 2))" by code_simp+
  then obtain j where j: "jobs (sample_mid 3) 2 = Some j" "held (sample_mid 3) 2 1"
    by (auto simp: held_def running_at_def)
  from heartbeat_holds [OF j, of "\<lparr>hp_ClientID = ''w'', hp_Jobs = [\<lparr>jh_ID = 2, jh_Generation = 1\<rparr>], hp_Now = 195\<rparr>"
      "[1, 2]" "\<lparr>sr_Now = 200, sr_TTL = 10, sr_Limit = 9\<rparr>"] j(1)
  show ?thesis by simp
qed

subsection \<open>Snoozing\<close>

text \<open>A snooze gives the attempt back: when a fetched job is snoozed with the token of its claim, it
  ends retryable at the chosen time with the attempt count it had before the claim, no error recorded, and a
  generation one higher, so that the snoozed claim stays fenced.\<close>

theorem claim_snooze_roundtrip:
  assumes "ids_ok b" "ranges ord b" "fst (mem_Fetch ord p b) = Inr out" "r \<in> set out"
    and "\<forall>f\<in>set (sp_Jobs s). storable (js_At f)"
    and "deciding js_ID js_Generation (sp_Jobs s) (jobs (snd (mem_Fetch ord p b))) (ID r) = Some f"
  shows "\<exists>j j'. jobs b (ID r) = Some j \<and> jobs (snd (mem_Snooze s (snd (mem_Fetch ord p b)))) (ID r) = Some j' \<and>
     State j' = StateRetryable \<and> Attempt j' = Attempt j \<and> Errors j' = Errors j \<and>
     Generation j' = Generation j + 1 \<and> ScheduledAt j' = js_At f \<and>
     PriorityAt j' = clamp_instant (js_At f - sint (PriorityBoost j)) \<and> FinalizedAt j' = zero_time"
proof -
  have d: "distinct ord" using assms(2) by (simp add: ranges_def)
  have l: "0 \<le> fp_Limit p" using assms(3) Fetch_neg [of p ord b] by (cases "fp_Limit p < 0") auto
  note e = Fetch_eq [OF d l, of b]
  from assms(3,4) obtain k where k: "k \<in> set (chosen ord p b)" "r = claim p (the (jobs b k))"
    by (auto simp: e)
  note c = chosen_ID [OF assms(1) k(1)]
  have ID: "ID r = k" using c(2) by (simp add: k(2))
  let ?j = "the (jobs b k)" and ?b = "snd (mem_Fetch ord p b)"
  have row: "jobs ?b k = Some (claim p ?j)" using k(1) by (subst e, simp) (subst c(1), simp)
  have ok: "storable (js_At f)" using deciding_Some [OF assms(6)] assms(5) by blast
  have "validate_all (map js_At (sp_Jobs s)) = None" using assms(5) by (simp add: validate_all_None)
  then have "jobs (snd (mem_Snooze s ?b)) k = Some (apply_snooze f ((claim p ?j)\<lparr>FinalizedAt := sp_Now s\<rparr>))"
    using assms(6) by (simp add: mem_Snooze_def finalize_jobs [OF leaves_running(5)] ID row)
  then show ?thesis
    using c(1) ok unfolding ID
    by (intro exI [of _ ?j] exI [of _ "apply_snooze f ((claim p ?j)\<lparr>FinalizedAt := sp_Now s\<rparr>)"])
      (simp add: apply_snooze_def mergeMeta_def claim_def SubDurationClamped_spec)
qed

lemma claim_snooze_roundtrip_witness:
  "Attempt (the (jobs (snd (mem_Snooze \<lparr>sp_Jobs = [\<lparr>js_ID = 2, js_Generation = 1, js_At = 500, js_Metadata = RawNil\<rparr>],
      sp_Now = 150\<rparr> (snd (mem_Fetch [1, 2] (sample_fetch 100) sample_store)))) 2)) = Attempt (the (jobs sample_store 2))"
proof -
  let ?s = "\<lparr>sp_Jobs = [\<lparr>js_ID = 2, js_Generation = 1, js_At = 500, js_Metadata = RawNil\<rparr>], sp_Now = 150\<rparr>"
  let ?out = "projr (fst (mem_Fetch [1, 2] (sample_fetch 100) sample_store))"
  have f: "fst (mem_Fetch [1, 2] (sample_fetch 100) sample_store) = Inr ?out" by code_simp
  have i: "map ID ?out = [2]" by code_simp
  then obtain r where r: "r \<in> set ?out" "ID r = 2" by (metis (no_types) in_set_conv_nth length_map list.set_intros(1) nth_map)
  have "deciding js_ID js_Generation (sp_Jobs ?s) (jobs (snd (mem_Fetch [1, 2] (sample_fetch 100) sample_store))) 2
      = Some \<lparr>js_ID = 2, js_Generation = 1, js_At = 500, js_Metadata = RawNil\<rparr>" by code_simp
  moreover have "\<forall>f\<in>set (sp_Jobs ?s). storable (js_At f)" by (simp add: storable_iff min_i64_def max_i64_def)
  ultimately show ?thesis
    using claim_snooze_roundtrip [OF sample_ids_ok sample_ranges(1) f r(1), of ?s] r(2) by auto
qed

end
