(* ===== verification/Storage.thy ===== *)
theory Storage
  imports Memory_Maint
begin

text \<open>
  The storage contract of \<^verbatim>\<open>backend.go\<close> as the client relies on it: the locale \<open>storage\<close> fixes a
  backend, the rows its state holds and an invariant of that state, and assumes what each method
  promises about the rows. \<open>reliable_storage\<close> adds that calls whose instants can be stored do not
  fail. The memory backend is an instance of both.
\<close>

subsection \<open>The laws\<close>

definition fetched :: "fetch_params \<Rightarrow> (int \<rightharpoonup> job_row) \<Rightarrow> job_row list \<Rightarrow> (int \<rightharpoonup> job_row) \<Rightarrow> bool" where
  "fetched p m out m' \<longleftrightarrow>
     length out = min (nat (fp_Limit p)) (card {i. hit (due p) m i}) \<and>
     sorted (map prio_key out) \<and> distinct (map ID out) \<and>
     (\<forall>r\<in>set out. hit (\<lambda>j. due p j \<and> r = claim p j) m (ID r) \<and> m' (ID r) = Some r) \<and>
     (\<forall>i. i \<notin> ID ` set out \<longrightarrow> m' i = m i)"

text \<open>A finalization either fails without an effect, or decides each row by the first entry that holds it.\<close>

definition accepted_or_stale :: "go_error option \<Rightarrow> bool" where
  "accepted_or_stale r \<longleftrightarrow> (case r of None \<Rightarrow> True | Some e \<Rightarrow> errors_Is e ErrStaleAttempt)"

definition finalized ::
  "('e \<Rightarrow> int) \<Rightarrow> ('e \<Rightarrow> int) \<Rightarrow> ('e \<Rightarrow> job_row \<Rightarrow> job_row) \<Rightarrow> 'e list
   \<Rightarrow> (int \<rightharpoonup> job_row) \<Rightarrow> go_error option \<Rightarrow> (int \<rightharpoonup> job_row) \<Rightarrow> bool" where
  "finalized idf gen eff fs m r m' \<longleftrightarrow>
     (if accepted_or_stale r
      then \<forall>i. m' i = (case deciding idf gen fs m i of None \<Rightarrow> m i | Some f \<Rightarrow> Some (eff f (the (m i))))
      else m' = m)"

definition swept ::
  "(job_row \<Rightarrow> bool) \<Rightarrow> (job_row \<Rightarrow> job_row option) \<Rightarrow> int \<Rightarrow> (int \<rightharpoonup> job_row) \<Rightarrow> int \<Rightarrow> (int \<rightharpoonup> job_row) \<Rightarrow> bool" where
  "swept P f limit m n m' \<longleftrightarrow>
     n = min (max 0 limit) (int (card {i. hit P m i})) \<and>
     (\<exists>S. finite S \<and> int (card S) = n \<and> S \<subseteq> {i. hit P m i} \<and>
        (\<forall>i. m' i = (if i \<in> S then Option.bind (m i) f else m i)))"

locale storage =
  fixes B :: "'s backend"
    and rows :: "'s \<Rightarrow> int \<rightharpoonup> job_row"
    and inv :: "'s \<Rightarrow> bool"
  assumes Fetch_law: "inv s \<Longrightarrow> 0 \<le> fp_Limit p \<Longrightarrow> Fetch B p s = (Inr out, s') \<Longrightarrow> fetched p (rows s) out (rows s')"
    and Fetch_fails: "inv s \<Longrightarrow> Fetch B p s = (Inl e, s') \<Longrightarrow> rows s' = rows s"
    and Complete_law: "inv s \<Longrightarrow> Complete B cp s = (r, s') \<Longrightarrow>
       finalized jf_ID jf_Generation (\<lambda>f j. apply_complete f (j\<lparr>FinalizedAt := cp_Now cp\<rparr>)) (cp_Jobs cp) (rows s) r (rows s')"
    and Retry_law: "inv s \<Longrightarrow> Retry B rp s = (r, s') \<Longrightarrow>
       finalized jr_ID jr_Generation (\<lambda>f j. apply_retry f (j\<lparr>FinalizedAt := rp_Now rp\<rparr>)) (rp_Jobs rp) (rows s) r (rows s')"
    and Cancel_law: "inv s \<Longrightarrow> CancelJobs B xp s = (r, s') \<Longrightarrow>
       finalized jc_ID jc_Generation (\<lambda>f j. apply_cancel (xp_Now xp) f (j\<lparr>FinalizedAt := xp_Now xp\<rparr>)) (xp_Jobs xp) (rows s) r (rows s')"
    and Kill_law: "inv s \<Longrightarrow> Kill B kp s = (r, s') \<Longrightarrow>
       finalized jk_ID jk_Generation (\<lambda>f j. apply_kill f (j\<lparr>FinalizedAt := kp_Now kp\<rparr>)) (kp_Jobs kp) (rows s) r (rows s')"
    and Snooze_law: "inv s \<Longrightarrow> Snooze B sp s = (r, s') \<Longrightarrow>
       finalized js_ID js_Generation (\<lambda>f j. apply_snooze f (j\<lparr>FinalizedAt := sp_Now sp\<rparr>)) (sp_Jobs sp) (rows s) r (rows s')"
    and MoveDue_law: "inv s \<Longrightarrow> MoveDue B mp s = (Inr n, s') \<Longrightarrow>
       swept (movable (mp_Now mp)) (\<lambda>j. Some (j\<lparr>State := StateAvailable\<rparr>)) (mp_Limit mp) (rows s) n (rows s')"
    and inv_Fetch: "inv s \<Longrightarrow> inv (snd (Fetch B p s))"
    and inv_Complete: "inv s \<Longrightarrow> inv (snd (Complete B cp s))"
    and inv_Retry: "inv s \<Longrightarrow> inv (snd (Retry B rp s))"
    and inv_Cancel: "inv s \<Longrightarrow> inv (snd (CancelJobs B xp s))"
    and inv_Kill: "inv s \<Longrightarrow> inv (snd (Kill B kp s))"
    and inv_Snooze: "inv s \<Longrightarrow> inv (snd (Snooze B sp s))"
    and inv_MoveDue: "inv s \<Longrightarrow> inv (snd (MoveDue B mp s))"
    and inv_Enqueue: "inv s \<Longrightarrow> inv (snd (Enqueue B ep s))"

text \<open>A backend that is there: only instants that cannot be stored make a call fail.\<close>

locale reliable_storage = storage +
  assumes Fetch_ok: "inv s \<Longrightarrow> 0 \<le> fp_Limit p \<Longrightarrow> \<exists>out. fst (Fetch B p s) = Inr out"
    and Complete_ok: "inv s \<Longrightarrow> accepted_or_stale (fst (Complete B cp s))"
    and Retry_ok: "inv s \<Longrightarrow> \<forall>f\<in>set (rp_Jobs rp). storable (jr_At f) \<Longrightarrow> accepted_or_stale (fst (Retry B rp s))"
    and Cancel_ok: "inv s \<Longrightarrow> accepted_or_stale (fst (CancelJobs B xp s))"
    and Kill_ok: "inv s \<Longrightarrow> accepted_or_stale (fst (Kill B kp s))"
    and Snooze_ok: "inv s \<Longrightarrow> \<forall>f\<in>set (sp_Jobs sp). storable (js_At f) \<Longrightarrow> accepted_or_stale (fst (Snooze B sp s))"
    and MoveDue_ok: "inv s \<Longrightarrow> \<exists>n. fst (MoveDue B mp s) = Inr n"

subsection \<open>The memory backend as a storage\<close>

text \<open>One order in which Go may range over the map: by ID. No theorem about the client depends on it.\<close>

definition id_order :: "mem \<Rightarrow> int list" where
  "id_order b = filter (\<lambda>i. jobs b i \<noteq> None) [1..nextID b]"

definition mem_backend :: "mem backend" where
  "mem_backend = \<lparr>Enqueue = mem_Enqueue, Fetch = (\<lambda>p b. mem_Fetch (id_order b) p b), Complete = mem_Complete,
     Retry = mem_Retry, CancelJobs = mem_Cancel, Kill = mem_Kill, Snooze = mem_Snooze, Heartbeat = mem_Heartbeat,
     MoveDue = (\<lambda>p b. mem_MoveDue (id_order b) p b), RescueStale = (\<lambda>p b. mem_RescueStale (id_order b) p b),
     Clean = (\<lambda>p b. mem_Clean (id_order b) p b)\<rparr>"

lemma id_order_ranges: "ids_ok b \<Longrightarrow> ranges (id_order b) b"
  by (auto simp: ranges_def id_order_def dest: ids_ok_row)

lemma id_order_distinct [simp]: "distinct (id_order b)"
  by (simp add: id_order_def)

lemma fetch_post_fetched: "fetch_post p b out b' \<Longrightarrow> fetched p (jobs b) out (jobs b')"
  unfolding fetch_post_def fetched_def fetchable_due claimed_claim hit_iff prio_key_def by auto

lemma sweep_post_swept: "sweep_post P f l b n b' \<Longrightarrow> swept P f l (jobs b) n (jobs b')"
  by (auto simp: sweep_post_def swept_def)

lemma finalize_error_stale: "accepted_or_stale (fst (finalize idf gen now app fs b))"
  by (simp add: accepted_or_stale_def finalize_error)

lemma finalize_finalized:
  assumes "\<And>f j. State (app f j) \<noteq> StateRunning" "finalize idf gen now app fs b = (r, b')"
  shows "finalized idf gen (\<lambda>f j. app f (j\<lparr>FinalizedAt := now\<rparr>)) fs (jobs b) r (jobs b')"
proof -
  have "r = fst (finalize idf gen now app fs b)" "b' = snd (finalize idf gen now app fs b)"
    using assms(2) by simp_all
  then show ?thesis
    using finalize_jobs [where app = app, OF assms(1)] finalize_error_stale [of idf gen now app fs b]
    by (simp add: finalized_def)
qed

lemma validate_all_not_stale: "validate_all ts = Some e \<Longrightarrow> \<not> errors_Is e ErrStaleAttempt"
  by (induction ts) (auto simp: ValidateInstant_def split: sum.splits if_splits)

lemma validate_all_rejected:
  "validate_all ts = Some e \<Longrightarrow> finalized idf gen eff fs m (Some e) m"
  using validate_all_not_stale by (simp add: finalized_def accepted_or_stale_def)

lemma finalize_ids_ok:
  "ids_ok b \<Longrightarrow> ids_ok (snd (mem_Complete cp b))" "ids_ok b \<Longrightarrow> ids_ok (snd (mem_Retry rp b))"
  "ids_ok b \<Longrightarrow> ids_ok (snd (mem_Cancel xp b))" "ids_ok b \<Longrightarrow> ids_ok (snd (mem_Kill kp b))"
  "ids_ok b \<Longrightarrow> ids_ok (snd (mem_Snooze sp b))" "ids_ok b \<Longrightarrow> ids_ok (snd (mem_Enqueue ep b))"
  using exec_ids_ok [of "OpComplete cp" b] exec_ids_ok [of "OpRetry rp" b] exec_ids_ok [of "OpCancel xp" b]
    exec_ids_ok [of "OpKill kp" b] exec_ids_ok [of "OpSnooze sp" b] exec_ids_ok [of "OpEnqueue ep" b]
  by (simp_all add: case_prod_beta)

lemma sweep_ids_ok:
  "distinct ord \<Longrightarrow> ids_ok b \<Longrightarrow> ids_ok (snd (mem_Fetch ord fp b))"
  "distinct ord \<Longrightarrow> ids_ok b \<Longrightarrow> ids_ok (snd (mem_MoveDue ord mp b))"
  using exec_ids_ok [of "OpFetch ord fp" b] exec_ids_ok [of "OpMoveDue ord mp" b]
  by (simp_all add: case_prod_beta)

lemma mem_MoveDue_swept:
  assumes "ids_ok b"
  shows "\<exists>n. fst (mem_MoveDue (id_order b) p b) = Inr n \<and>
    swept (movable (mp_Now p)) (\<lambda>j. Some (j\<lparr>State := StateAvailable\<rparr>)) (mp_Limit p) (jobs b) n
      (jobs (snd (mem_MoveDue (id_order b) p b)))"
proof -
  let ?ks = "picked (movable (mp_Now p)) (mp_Limit p) (id_order b) (jobs b)"
  have "sweep_post (movable (mp_Now p)) (\<lambda>j. Some (j\<lparr>State := StateAvailable\<rparr>)) (mp_Limit p) b
      (int (length ?ks)) (snd (mem_MoveDue (id_order b) p b))"
    unfolding MoveDue_eq [OF id_order_distinct] snd_conv
    by (rule sweep_picked [OF id_order_ranges [OF assms]]) (simp add: bind_map_option)
  from sweep_post_swept [OF this] show ?thesis by (simp add: MoveDue_eq)
qed

lemma mem_Fetch_fetched:
  assumes "ids_ok b" "0 \<le> fp_Limit p"
  shows "\<exists>out. fst (mem_Fetch (id_order b) p b) = Inr out \<and> fetched p (jobs b) out (jobs (snd (mem_Fetch (id_order b) p b)))"
  using fetch_ok [OF id_order_ranges [OF assms(1)] assms] fetch_post_fetched by blast

lemma mem_Retry_finalized:
  "mem_Retry rp s = (r, s') \<Longrightarrow>
     finalized jr_ID jr_Generation (\<lambda>f j. apply_retry f (j\<lparr>FinalizedAt := rp_Now rp\<rparr>)) (rp_Jobs rp) (jobs s) r (jobs s')"
  by (cases "validate_all (map jr_At (rp_Jobs rp))")
    (use validate_all_rejected finalize_finalized [OF leaves_running(2)] in \<open>fastforce simp: mem_Retry_def\<close>)+

lemma mem_Snooze_finalized:
  "mem_Snooze sp s = (r, s') \<Longrightarrow>
     finalized js_ID js_Generation (\<lambda>f j. apply_snooze f (j\<lparr>FinalizedAt := sp_Now sp\<rparr>)) (sp_Jobs sp) (jobs s) r (jobs s')"
  by (cases "validate_all (map js_At (sp_Jobs sp))")
    (use validate_all_rejected finalize_finalized [OF leaves_running(5)] in \<open>fastforce simp: mem_Snooze_def\<close>)+

lemma mem_finalize_ok:
  "accepted_or_stale (fst (mem_Complete cp s))"
  "\<forall>f\<in>set (rp_Jobs rp). storable (jr_At f) \<Longrightarrow> accepted_or_stale (fst (mem_Retry rp s))"
  "accepted_or_stale (fst (mem_Cancel xp s))"
  "accepted_or_stale (fst (mem_Kill kp s))"
  "\<forall>f\<in>set (sp_Jobs sp). storable (js_At f) \<Longrightarrow> accepted_or_stale (fst (mem_Snooze sp s))"
  using validate_all_None [of "map jr_At (rp_Jobs rp)"] validate_all_None [of "map js_At (sp_Jobs sp)"]
  by (auto simp: mem_Complete_def mem_Retry_def mem_Cancel_def mem_Kill_def mem_Snooze_def finalize_error_stale)

interpretation mem_store: reliable_storage mem_backend jobs ids_ok
proof (unfold_locales, goal_cases)
  case (1 s p out s')
  then show ?case using mem_Fetch_fetched [of s p] by (auto simp: mem_backend_def)
next
  case (2 s p e s')
  then show ?case
    using mem_Fetch_fetched [of s p] by (cases "0 \<le> fp_Limit p") (auto simp: mem_backend_def Fetch_neg)
next
  case (3 s cp r s')
  then show ?case
    by (auto simp: mem_backend_def mem_Complete_def intro: finalize_finalized [OF leaves_running(1)])
next
  case (4 s rp r s')
  then show ?case by (simp add: mem_backend_def mem_Retry_finalized)
next
  case (5 s xp r s')
  then show ?case
    by (auto simp: mem_backend_def mem_Cancel_def intro: finalize_finalized [OF leaves_running(3)])
next
  case (6 s kp r s')
  then show ?case
    by (auto simp: mem_backend_def mem_Kill_def intro: finalize_finalized [OF leaves_running(4)])
next
  case (7 s sp r s')
  then show ?case by (simp add: mem_backend_def mem_Snooze_finalized)
next
  case (8 s mp n s')
  then show ?case using mem_MoveDue_swept [of s mp] by (auto simp: mem_backend_def)
next
  case (17 s p)
  then show ?case using mem_Fetch_fetched [of s p] by (auto simp: mem_backend_def)
next
  case (23 s mp)
  then show ?case using mem_MoveDue_swept [of s mp] by (auto simp: mem_backend_def)
qed (simp_all add: mem_backend_def finalize_ids_ok sweep_ids_ok mem_finalize_ok)

end
