(* ===== verification/Completer.thy ===== *)
theory Completer
  imports Executor_Spec Storage
begin

text \<open>
  \<^verbatim>\<open>completer.go\<close>: finalizations are collected and written to the backend in batches. \<open>attempt\<close> and
  \<open>flush\<close> are the synchronous part, over any backend; \<open>cp_step\<close> is the goroutine with its channel, where
  each event is one communication or one firing of a timer.
\<close>

subsection \<open>Retrying a backend call\<close>

text \<open>
  What the lifetime context reports while one call is retried: whether it is done when checked after the
  \<open>i\<close>-th failure, and whether it ends before the \<open>i\<close>-th backoff timer fires.
\<close>

record lifetime =
  doneAfter :: "nat \<Rightarrow> bool"
  doneDuring :: "nat \<Rightarrow> bool"

definition completerBackoffs :: "duration list" where
  "completerBackoffs = [100000000, 200000000, 400000000, 800000000, 1600000000]"

function attempt_from :: "lifetime \<Rightarrow> nat \<Rightarrow> ('s \<Rightarrow> go_error option \<times> 's) \<Rightarrow> 's \<Rightarrow> go_error option \<times> 's" where
  "attempt_from L i fn s =
     (case fn s of
        (None, s') \<Rightarrow> (None, s')
      | (Some err, s') \<Rightarrow>
          if errors_Is err ErrStaleAttempt then (None, s')
          else if doneAfter L i \<or> length completerBackoffs \<le> i then (Some err, s')
          else if doneDuring L i then (Some err, s')
          else attempt_from L (i + 1) fn s')"
  by pat_completeness auto
termination
  by (relation "measure (\<lambda>(L, i, fn, s). length completerBackoffs - i)") auto

declare attempt_from.simps [simp del]

definition attempt :: "lifetime \<Rightarrow> ('s \<Rightarrow> go_error option \<times> 's) \<Rightarrow> 's \<Rightarrow> go_error option \<times> 's" where
  "attempt L fn s = attempt_from L 0 fn s"

text \<open>\<open>dropped\<close> counts the finalizations given up.\<close>

definition call :: "lifetime \<Rightarrow> nat \<Rightarrow> ('s \<Rightarrow> go_error option \<times> 's) \<Rightarrow> 's \<times> nat \<Rightarrow> 's \<times> nat" where
  "call L n fn sd =
     (case attempt L fn (fst sd) of
        (None, s') \<Rightarrow> (s', snd sd)
      | (Some err, s') \<Rightarrow> (s', snd sd + n))"

subsection \<open>Flushing a batch\<close>

record batch =
  completes :: "job_finalize list"
  retries :: "job_retry list"
  cancels :: "job_cancel list"
  kills :: "job_kill list"
  snoozes :: "job_snooze list"

fun collect_op :: "batch \<Rightarrow> finalizeOp \<Rightarrow> batch" where
  "collect_op b (opComplete f) = b\<lparr>completes := completes b @ [f]\<rparr>"
| "collect_op b (opRetry f) = b\<lparr>retries := retries b @ [f]\<rparr>"
| "collect_op b (opCancel f) = b\<lparr>cancels := cancels b @ [f]\<rparr>"
| "collect_op b (opKill f) = b\<lparr>kills := kills b @ [f]\<rparr>"
| "collect_op b (opSnooze f) = b\<lparr>snoozes := snoozes b @ [f]\<rparr>"

definition collect :: "finalizeOp list \<Rightarrow> batch" where
  "collect ops = foldl collect_op \<lparr>completes = [], retries = [], cancels = [], kills = [], snoozes = []\<rparr> ops"

text \<open>\<open>L k\<close> is the lifetime seen by the \<open>k\<close>-th of the five calls; \<open>now\<close> was read before them.\<close>

definition flush ::
  "'s backend \<Rightarrow> (nat \<Rightarrow> lifetime) \<Rightarrow> instant \<Rightarrow> finalizeOp list \<Rightarrow> 's \<times> nat \<Rightarrow> 's \<times> nat" where
  "flush B L now ops sd =
     (if ops = [] then sd
      else
        (let b = collect ops;
             sd = (if completes b \<noteq> []
                   then call (L 0) (length (completes b)) (Complete B \<lparr>cp_Jobs = completes b, cp_Now = now\<rparr>) sd else sd);
             sd = (if retries b \<noteq> []
                   then call (L 1) (length (retries b)) (Retry B \<lparr>rp_Jobs = retries b, rp_Now = now\<rparr>) sd else sd);
             sd = (if cancels b \<noteq> []
                   then call (L 2) (length (cancels b)) (CancelJobs B \<lparr>xp_Jobs = cancels b, xp_Now = now\<rparr>) sd else sd);
             sd = (if kills b \<noteq> []
                   then call (L 3) (length (kills b)) (Kill B \<lparr>kp_Jobs = kills b, kp_Now = now\<rparr>) sd else sd)
         in if snoozes b \<noteq> []
            then call (L 4) (length (snoozes b)) (Snooze B \<lparr>sp_Jobs = snoozes b, sp_Now = now\<rparr>) sd else sd))"

subsection \<open>The goroutine and its channel\<close>

text \<open>
  \<open>ch\<close> is the buffered channel, \<open>waiting\<close> the pushes blocked on it, \<open>buf\<close> the batch being collected,
  \<open>finished\<close> the closed \<^verbatim>\<open>done\<close> channel. \<open>sink\<close> is whatever a flush acts on.
\<close>

record 'x completer =
  ch :: "finalizeOp list"
  closed :: bool
  waiting :: "finalizeOp list"
  buf :: "finalizeOp list"
  finished :: bool
  droppedOps :: "finalizeOp list"
  sink :: 'x

definition newCompleter :: "'x \<Rightarrow> 'x completer" where
  "newCompleter x = \<lparr>ch = [], closed = False, waiting = [], buf = [], finished = False, droppedOps = [], sink = x\<rparr>"

definition chan_capacity :: "nat \<Rightarrow> nat" where
  "chan_capacity flushSize = flushSize * 4"

text \<open>
  The events: a push that finds room or starts to wait; a waiting push that gets its turn or gives up (its
  timer fired, or the lifetime ended); the loop's two cases; the close of \<^verbatim>\<open>stop\<close>.
\<close>

datatype cp_event = Push finalizeOp | Resume finalizeOp | GiveUp finalizeOp | Recv | Tick | Close

definition flush_buf :: "(finalizeOp list \<Rightarrow> 'x \<Rightarrow> 'x) \<Rightarrow> finalizeOp list \<Rightarrow> 'x completer \<Rightarrow> 'x completer" where
  "flush_buf fl ops c = c\<lparr>sink := (if ops = [] then sink c else fl ops (sink c)), buf := []\<rparr>"

text \<open>\<open>None\<close> means that the event cannot happen in the state; a send on the closed channel panics.\<close>

fun cp_step :: "nat \<Rightarrow> (finalizeOp list \<Rightarrow> 'x \<Rightarrow> 'x) \<Rightarrow> cp_event \<Rightarrow> 'x completer \<Rightarrow> (go_error + 'x completer) option" where
  "cp_step n fl (Push fop) c =
     (if closed c then Some (Inl (PanicError ''send on closed channel'' []))
      else if length (ch c) < chan_capacity n then Some (Inr (c\<lparr>ch := ch c @ [fop]\<rparr>))
      else Some (Inr (c\<lparr>waiting := waiting c @ [fop]\<rparr>)))"
| "cp_step n fl (Resume fop) c =
     (if fop \<notin> set (waiting c) then None
      else if closed c then Some (Inl (PanicError ''send on closed channel'' []))
      else if length (ch c) < chan_capacity n
      then Some (Inr (c\<lparr>ch := ch c @ [fop], waiting := remove1 fop (waiting c)\<rparr>))
      else None)"
| "cp_step n fl (GiveUp fop) c =
     (if fop \<notin> set (waiting c) then None
      else Some (Inr (c\<lparr>waiting := remove1 fop (waiting c), droppedOps := droppedOps c @ [fop]\<rparr>)))"
| "cp_step n fl Recv c =
     (if finished c then None
      else case ch c of
        fop # rest \<Rightarrow>
          (let c = c\<lparr>ch := rest, buf := buf c @ [fop]\<rparr>
           in Some (Inr (if n \<le> length (buf c) then flush_buf fl (buf c) c else c)))
      | [] \<Rightarrow> (if closed c then Some (Inr ((flush_buf fl (buf c) c)\<lparr>finished := True\<rparr>)) else None))"
| "cp_step n fl Tick c = (if finished c then None else Some (Inr (flush_buf fl (buf c) c)))"
| "cp_step n fl Close c = (if closed c then Some (Inr c) else Some (Inr (c\<lparr>closed := True\<rparr>)))"

fun cp_run :: "nat \<Rightarrow> (finalizeOp list \<Rightarrow> 'x \<Rightarrow> 'x) \<Rightarrow> cp_event list \<Rightarrow> 'x completer \<Rightarrow> (go_error + 'x completer) option" where
  "cp_run n fl [] c = Some (Inr c)"
| "cp_run n fl (e # es) c =
     (case cp_step n fl e c of
        None \<Rightarrow> None
      | Some (Inl panic) \<Rightarrow> Some (Inl panic)
      | Some (Inr c') \<Rightarrow> cp_run n fl es c')"

end
