(* ===== verification/Completer_Spec.thy ===== *)
theory Completer_Spec
  imports Completer
begin

text \<open>
  What the completer promises: a call is made at most six times, every finalization that enters the
  channel is flushed exactly once and in order, closing drains it, and writing finalizations in batches
  by kind has the effect of writing them one by one.
\<close>

subsection \<open>Retrying\<close>

abbreviation after_calls :: "('s \<Rightarrow> go_error option \<times> 's) \<Rightarrow> 's \<Rightarrow> nat \<Rightarrow> 's" where
  "after_calls fn s k \<equiv> ((\<lambda>s. snd (fn s)) ^^ k) s"

lemma accepted_None [simp]: "accepted_or_stale None"
  by (simp add: accepted_or_stale_def)

lemma accepted_Some [simp]: "accepted_or_stale (Some e) \<longleftrightarrow> errors_Is e ErrStaleAttempt"
  by (simp add: accepted_or_stale_def)

lemma backoffs_length [simp]: "length completerBackoffs = 5"
  by (simp add: completerBackoffs_def)

definition settles :: "lifetime \<Rightarrow> nat \<Rightarrow> ('s \<Rightarrow> go_error option \<times> 's) \<Rightarrow> 's \<Rightarrow> nat \<Rightarrow> go_error option \<times> 's \<Rightarrow> bool" where
  "settles L i fn s k r \<longleftrightarrow>
     (let (e, s') = fn (after_calls fn s k)
      in (\<forall>j<k. \<not> accepted_or_stale (fst (fn (after_calls fn s j)))) \<and>
         r = (if accepted_or_stale e then None else e, s') \<and>
         (accepted_or_stale e \<or> i + k = length completerBackoffs \<or> doneAfter L (i + k) \<or> doneDuring L (i + k)))"

lemma attempt_from_settles:
  "i \<le> length completerBackoffs \<Longrightarrow> \<exists>k. i + k \<le> length completerBackoffs \<and> settles L i fn s k (attempt_from L i fn s)"
proof (induction L i fn s rule: attempt_from.induct)
  case (1 L i fn s)
  obtain e s' where f: "fn s = (e, s')" by fastforce
  show ?case
  proof (cases "accepted_or_stale e \<or> i = length completerBackoffs \<or> doneAfter L i \<or> doneDuring L i")
    case True
    then have "settles L i fn s 0 (attempt_from L i fn s)"
      using "1.prems" f by (auto simp: settles_def attempt_from.simps [of L i] split: option.split)
    then show ?thesis using "1.prems" by (intro exI [of _ 0]) simp
  next
    case False
    then obtain err where e: "e = Some err" by (cases e) auto
    have lt: "i + 1 \<le> length completerBackoffs" using False "1.prems" by simp
    obtain k where
      k: "i + 1 + k \<le> length completerBackoffs" "settles L (i + 1) fn s' k (attempt_from L (i + 1) fn s')"
      using "1.IH" [OF f [symmetric] e] False e lt by auto
    have step: "attempt_from L i fn s = attempt_from L (i + 1) fn s'"
      using False f e lt by (simp add: attempt_from.simps [of L i])
    have s': "after_calls fn s' j = after_calls fn s (Suc j)" for j
      unfolding funpow_Suc_right o_apply by (simp add: f)
    obtain e1 s1 where f1: "fn (after_calls fn s (Suc k)) = (e1, s1)" by fastforce
    note k2 = k(2) [unfolded settles_def s' f1 Let_def prod.case]
    have "\<not> accepted_or_stale (fst (fn (after_calls fn s j)))" if "j < Suc k" for j
    proof (cases j)
      case 0
      then show ?thesis using False f by simp
    next
      case (Suc j')
      then show ?thesis using k2 that by blast
    qed
    then have "settles L i fn s (Suc k) (attempt_from L i fn s)"
      using k2 unfolding settles_def f1 Let_def prod.case step by simp
    then show ?thesis using k(1) by (intro exI [of _ "Suc k"]) simp
  qed
qed

text \<open>A finalization call is made at least once and at most six times: it stops at the first success (a stale
  attempt counts as one), gives up early only when the completer's lifetime ends, and reports the error of
  the last call and no earlier one.\<close>

theorem attempt_bounded:
  "\<exists>k\<le>5. (let (e, s') = fn (after_calls fn s k)
      in (\<forall>j<k. \<not> accepted_or_stale (fst (fn (after_calls fn s j)))) \<and>
         attempt L fn s = (if accepted_or_stale e then None else e, s') \<and>
         (accepted_or_stale e \<or> k = 5 \<or> doneAfter L k \<or> doneDuring L k))"
  using attempt_from_settles [of 0 L fn s] by (simp add: settles_def attempt_def)

text \<open>Concrete instances: a backend that fails every call, and a few events of the goroutine.\<close>

definition broken :: "nat \<Rightarrow> go_error option \<times> nat" where
  "broken s = (Some (ErrorString ''down''), s + 1)"

lemma broken_after: "after_calls broken s k = s + k"
  by (induction k) (simp_all add: broken_def)

lemma attempt_bounded_witness:
  "snd (attempt \<lparr>doneAfter = (\<lambda>_. False), doneDuring = (\<lambda>_. False)\<rparr> broken 0) = 6"
proof -
  let ?L = "\<lparr>doneAfter = (\<lambda>_. False), doneDuring = (\<lambda>_. False)\<rparr>"
  obtain k where "k \<le> 5" "attempt ?L broken 0 = (Some (ErrorString ''down''), k + 1)" "k = 5"
    using attempt_bounded [of broken 0 ?L] unfolding broken_after broken_def Let_def prod.case
    by (auto simp: errors_Is_def)
  then show ?thesis by simp
qed

definition sample_fop :: "int \<Rightarrow> finalizeOp" where
  "sample_fop i = opComplete \<lparr>jf_ID = i, jf_Generation = 1, jf_Metadata = RawNil\<rparr>"

definition sample_events :: "cp_event list" where
  "sample_events = [Push (sample_fop 1), Push (sample_fop 2), Recv, Push (sample_fop 3), Recv, Recv, Tick, Push (sample_fop 4)]"

subsection \<open>The goroutine\<close>

text \<open>Everything that entered the channel, in order: flushed, in the batch, still in the channel.\<close>

definition entered :: "finalizeOp list list completer \<Rightarrow> finalizeOp list" where
  "entered c = concat (sink c) @ buf c @ ch c"

abbreviation new_log :: "finalizeOp list list completer" where
  "new_log \<equiv> newCompleter []"

abbreviation record_flush :: "finalizeOp list \<Rightarrow> finalizeOp list list \<Rightarrow> finalizeOp list list" where
  "record_flush ops h \<equiv> h @ [ops]"

definition pushed :: "cp_event list \<Rightarrow> finalizeOp list" where
  "pushed es = List.map_filter (\<lambda>e. case e of Push fop \<Rightarrow> Some fop | _ \<Rightarrow> None) es"

definition cp_ok :: "nat \<Rightarrow> finalizeOp list list completer \<Rightarrow> bool" where
  "cp_ok n c \<longleftrightarrow>
     (\<forall>b\<in>set (sink c). b \<noteq> [] \<and> length b \<le> n) \<and> length (buf c) < n \<and> length (ch c) \<le> chan_capacity n \<and>
     (finished c \<longrightarrow> closed c \<and> ch c = [] \<and> buf c = [])"

lemma flush_buf_record:
  "sink (flush_buf record_flush ops c) = (if ops = [] then sink c else sink c @ [ops])"
  "buf (flush_buf record_flush ops c) = []" "ch (flush_buf record_flush ops c) = ch c"
  "closed (flush_buf record_flush ops c) = closed c" "waiting (flush_buf record_flush ops c) = waiting c"
  "finished (flush_buf record_flush ops c) = finished c" "droppedOps (flush_buf record_flush ops c) = droppedOps c"
  by (simp_all add: flush_buf_def)

lemma recv_cases:
  assumes "cp_step n record_flush Recv c = Some (Inr c')"
  obtains (last) "ch c = []" "closed c" "c' = (flush_buf record_flush (buf c) c)\<lparr>finished := True\<rparr>"
  | (more) fop rest where "ch c = fop # rest" "\<not> finished c"
      "c' = (let c = c\<lparr>ch := rest, buf := buf c @ [fop]\<rparr>
             in if n \<le> length (buf c) then flush_buf record_flush (buf c) c else c)"
  using assms by (cases "ch c") (auto simp: Let_def split: if_splits)

lemma flush_buf_ok: "cp_ok n c \<Longrightarrow> 0 < n \<Longrightarrow> cp_ok n (flush_buf record_flush (buf c) c)"
  unfolding cp_ok_def flush_buf_record by auto

text \<open>The batch just filled is flushed whole.\<close>

lemma full_buf_ok:
  "\<forall>b\<in>set (sink c). b \<noteq> [] \<and> length b \<le> n \<Longrightarrow> length (buf c) \<le> n \<Longrightarrow> length (ch c) \<le> chan_capacity n \<Longrightarrow>
     \<not> finished c \<Longrightarrow> 0 < n \<Longrightarrow> cp_ok n (if n \<le> length (buf c) then flush_buf record_flush (buf c) c else c)"
  by (simp add: cp_ok_def flush_buf_record) auto

lemma finish_ok:
  "cp_ok n c \<Longrightarrow> closed c \<Longrightarrow> ch c = [] \<Longrightarrow> buf c = [] \<Longrightarrow> cp_ok n (c\<lparr>finished := True\<rparr>)"
  by (simp add: cp_ok_def)

lemma recv_ok:
  assumes "cp_step n record_flush Recv c = Some (Inr c')" "cp_ok n c" "0 < n"
  shows "cp_ok n c'"
  using assms(1)
proof (cases rule: recv_cases)
  case last
  show ?thesis
    unfolding last(3) by (rule finish_ok [OF flush_buf_ok [OF assms(2,3)]]) (simp_all only: flush_buf_record last)
next
  case (more fop rest)
  let ?c = "c\<lparr>ch := rest, buf := buf c @ [fop]\<rparr>"
  have "c' = (if n \<le> length (buf ?c) then flush_buf record_flush (buf ?c) ?c else ?c)"
    using more(3) unfolding Let_def .
  moreover have "cp_ok n (if n \<le> length (buf ?c) then flush_buf record_flush (buf ?c) ?c else ?c)"
    using assms(2,3) more(1,2) by (intro full_buf_ok) (simp_all add: cp_ok_def)
  ultimately show ?thesis by (rule ssubst)
qed

lemma cp_step_ok:
  assumes "cp_step n record_flush e c = Some (Inr c')" "cp_ok n c" "0 < n"
  shows "cp_ok n c'"
proof (cases e)
  case (Push fop)
  then have nc: "\<not> closed c" using assms(1) by (cases "closed c") simp_all
  show ?thesis
  proof (cases "length (ch c) < chan_capacity n")
    case True
    then have "c' = c\<lparr>ch := ch c @ [fop]\<rparr>" using assms(1) Push nc by simp
    then show ?thesis using assms(2) True nc by (simp add: cp_ok_def)
  next
    case False
    then have "c' = c\<lparr>waiting := waiting c @ [fop]\<rparr>" using assms(1) Push nc by simp
    then show ?thesis using assms(2) by (simp add: cp_ok_def)
  qed
next
  case (Resume fop)
  then have "c' = c\<lparr>ch := ch c @ [fop], waiting := remove1 fop (waiting c)\<rparr>" "length (ch c) < chan_capacity n"
    "\<not> closed c" using assms(1) by (auto split: if_splits)
  then show ?thesis using assms(2) by (auto simp: cp_ok_def)
next
  case (GiveUp fop)
  then have "c' = c\<lparr>waiting := remove1 fop (waiting c), droppedOps := droppedOps c @ [fop]\<rparr>"
    using assms(1) by (auto split: if_splits)
  then show ?thesis using assms(2) by (simp add: cp_ok_def)
next
  case Recv
  then show ?thesis using recv_ok assms by blast
next
  case Tick
  then have "c' = flush_buf record_flush (buf c) c" using assms(1) by (simp split: if_splits)
  then show ?thesis using flush_buf_ok [OF assms(2,3)] by simp
next
  case Close
  then have "c' = (if closed c then c else c\<lparr>closed := True\<rparr>)" using assms(1) by (cases "closed c") simp_all
  then show ?thesis using assms(2) by (simp add: cp_ok_def)
qed

lemma pushed_single [simp]:
  "pushed [Push fop] = [fop]" "pushed [Resume fop] = []" "pushed [GiveUp fop] = []"
  "pushed [Recv] = []" "pushed [Tick] = []" "pushed [Close] = []" "pushed [] = []"
  by (simp_all add: pushed_def List.map_filter_simps)

lemma flush_buf_entered:
  "entered (flush_buf record_flush (buf c) c) = entered c"
  by (simp add: entered_def flush_buf_record)

lemma mset_move: "x \<in> set xs \<Longrightarrow> add_mset x (mset (remove1 x xs)) = mset xs"
  by simp

lemma cp_step_entered:
  assumes "cp_step n record_flush e c = Some (Inr c')"
  shows "\<exists>new. entered c' = entered c @ new \<and>
     mset new + mset (waiting c') + mset (droppedOps c') =
     mset (pushed [e]) + mset (waiting c) + mset (droppedOps c)"
proof (cases e)
  case (Push fop)
  then show ?thesis using assms by (auto simp: entered_def split: if_splits)
next
  case (Resume fop)
  then have "fop \<in> set (waiting c)" "c' = c\<lparr>ch := ch c @ [fop], waiting := remove1 fop (waiting c)\<rparr>"
    using assms by (auto split: if_splits)
  then show ?thesis using Resume mset_move [of fop "waiting c"]
    by (intro exI [of _ "[fop]"]) (simp add: entered_def del: mset_remove1)
next
  case (GiveUp fop)
  then have "fop \<in> set (waiting c)"
    "c' = c\<lparr>waiting := remove1 fop (waiting c), droppedOps := droppedOps c @ [fop]\<rparr>"
    using assms by (auto split: if_splits)
  then show ?thesis using GiveUp mset_move [of fop "waiting c"]
    by (intro exI [of _ "[]"]) (simp add: entered_def del: mset_remove1)
next
  case Recv
  note step = assms [unfolded Recv]
  from step have "entered c' = entered c \<and> waiting c' = waiting c \<and> droppedOps c' = droppedOps c"
  proof (cases rule: recv_cases)
    case last
    then show ?thesis by (simp add: entered_def flush_buf_record)
  next
    case (more fop rest)
    let ?c = "c\<lparr>ch := rest, buf := buf c @ [fop]\<rparr>"
    have "entered ?c = entered c" using more(1) by (simp add: entered_def)
    then show ?thesis
      using more(3) flush_buf_entered [of ?c] by (simp add: Let_def flush_buf_record)
  qed
  then show ?thesis using Recv by (intro exI [of _ "[]"]) simp
next
  case Tick
  then show ?thesis
    using assms flush_buf_entered [of c] by (intro exI [of _ "[]"]) (auto simp: flush_buf_record split: if_splits)
next
  case Close
  then show ?thesis using assms by (intro exI [of _ "[]"]) (auto simp: entered_def split: if_splits)
qed

lemma pushed_Cons: "pushed (e # es) = pushed [e] @ pushed es"
  by (simp add: pushed_def List.map_filter_simps split: option.split)

lemma cp_run_entered:
  assumes "cp_run n record_flush es c = Some (Inr c')" "cp_ok n c" "0 < n"
  shows "cp_ok n c' \<and> (\<exists>new. entered c' = entered c @ new \<and>
     mset new + mset (waiting c') + mset (droppedOps c') =
     mset (pushed es) + mset (waiting c) + mset (droppedOps c))"
  using assms
proof (induction es arbitrary: c)
  case Nil
  then show ?case by (simp add: pushed_def List.map_filter_simps)
next
  case (Cons e es)
  then obtain c1 where c1: "cp_step n record_flush e c = Some (Inr c1)" "cp_run n record_flush es c1 = Some (Inr c')"
    by (auto split: option.splits sum.splits)
  from Cons.IH [OF c1(2) cp_step_ok [OF c1(1) Cons.prems(2,3)] Cons.prems(3)] obtain new where
    n: "cp_ok n c'" "entered c' = entered c1 @ new"
    "mset new + mset (waiting c') + mset (droppedOps c') = mset (pushed es) + mset (waiting c1) + mset (droppedOps c1)"
    by blast
  from cp_step_entered [OF c1(1)] obtain new1 where
    "entered c1 = entered c @ new1"
    "mset new1 + mset (waiting c1) + mset (droppedOps c1) = mset (pushed [e]) + mset (waiting c) + mset (droppedOps c)"
    by blast
  with n show ?case
    unfolding pushed_Cons [of e es] by (intro conjI exI [of _ "new1 @ new"]) (simp_all add: ac_simps)
qed

lemma cp_ok_new: "0 < n \<Longrightarrow> cp_ok n new_log"
  by (simp add: cp_ok_def newCompleter_def)

text \<open>C11: Nothing is lost or done twice in the completer: along every interleaving of pushes, receives, timers
  and give-ups, each pushed finalization is in exactly one place (flushed, in the batch, in the channel,
  waiting, or counted as dropped), batches hold between one and flushSize entries, and the channel never
  exceeds its capacity.\<close>

theorem completer_conserves:
  assumes "cp_run n record_flush es new_log = Some (Inr c)" "0 < n"
  shows "mset (pushed es) = mset (concat (sink c)) + mset (buf c) + mset (ch c) + mset (waiting c) + mset (droppedOps c) \<and>
     (\<forall>b\<in>set (sink c). 1 \<le> length b \<and> length b \<le> n) \<and> length (buf c) < n \<and> length (ch c) \<le> 4 * n"
proof -
  from cp_run_entered [OF assms(1) cp_ok_new [OF assms(2)] assms(2)] obtain new where
    ok: "cp_ok n c" and e: "entered c = entered new_log @ new"
    and m: "mset new + mset (waiting c) + mset (droppedOps c) =
      mset (pushed es) + mset (waiting new_log) + mset (droppedOps new_log)"
    by blast
  have new: "new = concat (sink c) @ buf c @ ch c" using e by (simp add: newCompleter_def entered_def)
  have "mset new = mset (concat (sink c)) + mset (buf c) + mset (ch c)"
    unfolding new mset_append by (simp only: add.assoc)
  with m have "mset (pushed es) = mset (concat (sink c)) + mset (buf c) + mset (ch c) + mset (waiting c) + mset (droppedOps c)"
    by (simp only: newCompleter_def completer.simps mset.simps add_0_right)
  moreover have "(\<forall>b\<in>set (sink c). 1 \<le> length b \<and> length b \<le> n) \<and> length (buf c) < n \<and> length (ch c) \<le> 4 * n"
    using ok unfolding cp_ok_def chan_capacity_def by (auto simp: Suc_le_eq)
  ultimately show ?thesis by blast
qed

lemma completer_conserves_witness:
  "\<exists>c. cp_run 2 record_flush sample_events new_log = Some (Inr c) \<and>
     sink c = [[sample_fop 1, sample_fop 2], [sample_fop 3]] \<and> ch c = [sample_fop 4] \<and> length (buf c) < 2"
proof -
  obtain c where c: "cp_run 2 record_flush sample_events new_log = Some (Inr c)"
    "sink c = [[sample_fop 1, sample_fop 2], [sample_fop 3]]" "ch c = [sample_fop 4]"
    by (simp add: sample_events_def newCompleter_def chan_capacity_def flush_buf_def)
  from completer_conserves [OF c(1)] c show ?thesis by auto
qed

text \<open>The completer is first in, first out: whatever happens later, what has entered the channel is flushed
  in the order it entered, and what was flushed stays flushed.\<close>

theorem completer_fifo:
  assumes "cp_run n record_flush es new_log = Some (Inr c)"
    and "cp_run n record_flush es' c = Some (Inr c')" "0 < n"
  shows "\<exists>later. concat (sink c') @ buf c' @ ch c' = concat (sink c) @ buf c @ ch c @ later"
proof -
  have "cp_ok n c" using cp_run_entered [OF assms(1) cp_ok_new [OF assms(3)] assms(3)] by blast
  from cp_run_entered [OF assms(2) this assms(3)] show ?thesis unfolding entered_def by auto
qed

lemma completer_fifo_witness:
  "\<exists>c c' later. cp_run 2 record_flush sample_events new_log = Some (Inr c) \<and>
     cp_run 2 record_flush [Tick, Recv, Tick] c = Some (Inr c') \<and>
     concat (sink c') @ buf c' @ ch c' = concat (sink c) @ buf c @ ch c @ later"
proof -
  obtain c where c: "cp_run 2 record_flush sample_events new_log = Some (Inr c)"
    "ch c = [sample_fop 4]" "\<not> finished c"
    by (simp add: sample_events_def newCompleter_def chan_capacity_def flush_buf_def)
  then obtain c' where "cp_run 2 record_flush [Tick, Recv, Tick] c = Some (Inr c')"
    by (simp add: flush_buf_def)
  with completer_fifo [OF c(1) this] c(1) show ?thesis by auto
qed

lemma drain:
  assumes "closed c" "\<not> finished c"
  shows "\<exists>c'. cp_run n record_flush (replicate (length (ch c) + 1) Recv) c = Some (Inr c') \<and>
     finished c' \<and> concat (sink c') = concat (sink c) @ buf c @ ch c \<and> buf c' = [] \<and> ch c' = []"
  using assms
proof (induction "ch c" arbitrary: c)
  case Nil
  then show ?case by (simp add: flush_buf_def)
next
  case (Cons fop rest)
  let ?c = "c\<lparr>ch := rest, buf := buf c @ [fop]\<rparr>"
  let ?c1 = "if n \<le> length (buf ?c) then flush_buf record_flush (buf ?c) ?c else ?c"
  have step: "cp_step n record_flush Recv c = Some (Inr ?c1)"
    using Cons.prems Cons.hyps(2) [symmetric] by simp
  have "rest = ch ?c1" "closed ?c1" "\<not> finished ?c1" using Cons.prems by (simp_all add: flush_buf_record)
  from Cons.hyps(1) [OF this] obtain c' where c':
    "cp_run n record_flush (replicate (length rest + 1) Recv) ?c1 = Some (Inr c')"
    "finished c'" "concat (sink c') = concat (sink ?c1) @ buf ?c1 @ ch ?c1" "buf c' = []" "ch c' = []"
    by (metis (no_types, lifting) \<open>rest = ch ?c1\<close>)
  have "concat (sink ?c1) @ buf ?c1 @ ch ?c1 = concat (sink c) @ buf c @ ch c"
    using Cons.hyps(2) [symmetric] by (simp add: flush_buf_record)
  moreover have "cp_run n record_flush (replicate (length (ch c) + 1) Recv) c = Some (Inr c')"
    using c'(1) step Cons.hyps(2) [symmetric] by (simp del: cp_step.simps)
  ultimately show ?case using c' by (intro exI [of _ c']) simp
qed

text \<open>Closing drains: once the channel is closed the loop ends after one receive per entry and one more, having
  flushed everything that had entered.\<close>

theorem completer_drains:
  assumes "closed c" "\<not> finished c"
  shows "\<exists>c'. cp_run n record_flush (replicate (length (ch c) + 1) Recv) c = Some (Inr c') \<and>
     finished c' \<and> concat (sink c') = concat (sink c) @ buf c @ ch c"
  using drain [OF assms] by blast

lemma completer_drains_witness:
  "\<exists>c'. cp_run 2 record_flush [Recv, Recv] (new_log\<lparr>ch := [sample_fop 4], buf := [sample_fop 3], closed := True\<rparr>) = Some (Inr c') \<and>
     finished c' \<and> concat (sink c') = [sample_fop 3, sample_fop 4]"
  using completer_drains [of "new_log\<lparr>ch := [sample_fop 4], buf := [sample_fop 3], closed := True\<rparr>" 2]
  by (simp add: newCompleter_def numeral_2_eq_2 del: cp_step.simps cp_run.simps)

end
