(* ===== verification/Flush_Spec.thy ===== *)
theory Flush_Spec
  imports Completer_Spec
begin

text \<open>
  Batching is transparent: for finalizations of different executions, one flush of the whole batch, which
  groups them by kind, leaves every row as writing them one at a time in the order they came. Proved for
  every reliable storage in its locale, and for the memory backend by its interpretation.
\<close>

subsection \<open>The batch by kind\<close>

fun as_complete :: "finalizeOp \<Rightarrow> job_finalize option" where
  "as_complete (opComplete f) = Some f" | "as_complete _ = None"

fun as_retry :: "finalizeOp \<Rightarrow> job_retry option" where
  "as_retry (opRetry f) = Some f" | "as_retry _ = None"

fun as_cancel :: "finalizeOp \<Rightarrow> job_cancel option" where
  "as_cancel (opCancel f) = Some f" | "as_cancel _ = None"

fun as_kill :: "finalizeOp \<Rightarrow> job_kill option" where
  "as_kill (opKill f) = Some f" | "as_kill _ = None"

fun as_snooze :: "finalizeOp \<Rightarrow> job_snooze option" where
  "as_snooze (opSnooze f) = Some f" | "as_snooze _ = None"

lemma filter_snoc: "List.map_filter g (xs @ [x]) = List.map_filter g xs @ (case g x of None \<Rightarrow> [] | Some y \<Rightarrow> [y])"
  by (induction xs) (simp_all add: List.map_filter_simps split: option.split)

lemma collect_kinds:
  "completes (collect ops) = List.map_filter as_complete ops"
  "retries (collect ops) = List.map_filter as_retry ops"
  "cancels (collect ops) = List.map_filter as_cancel ops"
  "kills (collect ops) = List.map_filter as_kill ops"
  "snoozes (collect ops) = List.map_filter as_snooze ops"
proof -
  have "completes (collect ops) = List.map_filter as_complete ops \<and>
    retries (collect ops) = List.map_filter as_retry ops \<and>
    cancels (collect ops) = List.map_filter as_cancel ops \<and>
    kills (collect ops) = List.map_filter as_kill ops \<and>
    snoozes (collect ops) = List.map_filter as_snooze ops"
  proof (induction ops rule: rev_induct)
    case Nil
    then show ?case by (simp add: collect_def List.map_filter_simps)
  next
    case (snoc fop ops)
    have "collect (ops @ [fop]) = collect_op (collect ops) fop" by (simp add: collect_def)
    with snoc show ?case by (cases fop) (simp_all add: filter_snoc)
  qed
  then show "completes (collect ops) = List.map_filter as_complete ops"
    "retries (collect ops) = List.map_filter as_retry ops"
    "cancels (collect ops) = List.map_filter as_cancel ops"
    "kills (collect ops) = List.map_filter as_kill ops"
    "snoozes (collect ops) = List.map_filter as_snooze ops" by simp_all
qed

subsection \<open>What one finalization does to its row\<close>

fun effect :: "instant \<Rightarrow> finalizeOp \<Rightarrow> job_row \<Rightarrow> job_row" where
  "effect now (opComplete f) j = apply_complete f (j\<lparr>FinalizedAt := now\<rparr>)"
| "effect now (opRetry f) j = apply_retry f (j\<lparr>FinalizedAt := now\<rparr>)"
| "effect now (opCancel f) j = apply_cancel now f (j\<lparr>FinalizedAt := now\<rparr>)"
| "effect now (opKill f) j = apply_kill f (j\<lparr>FinalizedAt := now\<rparr>)"
| "effect now (opSnooze f) j = apply_snooze f (j\<lparr>FinalizedAt := now\<rparr>)"

lemma effect_leaves [simp]: "State (effect now fop j) \<noteq> StateRunning"
  by (cases fop) simp_all

fun op_storable :: "finalizeOp \<Rightarrow> bool" where
  "op_storable (opRetry f) \<longleftrightarrow> storable (jr_At f)"
| "op_storable (opSnooze f) \<longleftrightarrow> storable (js_At f)"
| "op_storable _ \<longleftrightarrow> True"

definition holds :: "(int \<rightharpoonup> job_row) \<Rightarrow> int \<Rightarrow> finalizeOp \<Rightarrow> bool" where
  "holds m i fop \<longleftrightarrow> fst (token fop) = i \<and> hit (running_at (snd (token fop))) m i"

text \<open>One round over the entries that satisfy \<open>K\<close>: each row is decided by the first of them that holds it.\<close>

definition phase :: "instant \<Rightarrow> finalizeOp list \<Rightarrow> (finalizeOp \<Rightarrow> bool) \<Rightarrow> (int \<rightharpoonup> job_row) \<Rightarrow> (int \<rightharpoonup> job_row) \<Rightarrow> bool" where
  "phase now ops K m m' \<longleftrightarrow>
     (\<forall>i. m' i = (case List.find (\<lambda>fop. K fop \<and> holds m i fop) ops of
                    None \<Rightarrow> m i | Some fop \<Rightarrow> Some (effect now fop (the (m i)))))"

lemma find_map_filter:
  "List.find P (List.map_filter g xs) =
     Option.bind (List.find (\<lambda>x. case g x of None \<Rightarrow> False | Some y \<Rightarrow> P y) xs) g"
  by (induction xs) (auto simp: List.map_filter_simps split: option.split)

text \<open>A finalization by the contract is a round over the entries of its kind.\<close>

lemma finalized_phase:
  assumes fin: "finalized idf gen eff (List.map_filter g ops) m r m'" "accepted_or_stale r"
    and g: "\<And>fop f. g fop = Some f \<Longrightarrow> token fop = (idf f, gen f) \<and> (\<forall>j. eff f j = effect now fop j)"
  shows "phase now ops (\<lambda>fop. g fop \<noteq> None) m m'"
  unfolding phase_def
proof
  fix i
  have m': "m' i = (case deciding idf gen (List.map_filter g ops) m i of
      None \<Rightarrow> m i | Some f \<Rightarrow> Some (eff f (the (m i))))"
    using fin by (simp add: finalized_def)
  have eq: "(\<lambda>fop. case g fop of None \<Rightarrow> False | Some y \<Rightarrow> idf y = i \<and> hit (running_at (gen y)) m i)
      = (\<lambda>fop. g fop \<noteq> None \<and> holds m i fop)"
    using g by (fastforce simp: fun_eq_iff holds_def split: option.split)
  show "m' i = (case List.find (\<lambda>fop. g fop \<noteq> None \<and> holds m i fop) ops of
      None \<Rightarrow> m i | Some fop \<Rightarrow> Some (effect now fop (the (m i))))"
  proof (cases "List.find (\<lambda>fop. g fop \<noteq> None \<and> holds m i fop) ops")
    case None
    then show ?thesis by (simp add: m' deciding_def find_map_filter eq)
  next
    case (Some fop)
    then obtain f where "g fop = Some f" by (auto simp: find_Some_iff)
    with Some g [OF this] show ?thesis by (simp add: m' deciding_def find_map_filter eq)
  qed
qed

lemma phase_skip: "(\<And>fop. fop \<in> set ops \<Longrightarrow> \<not> K fop) \<Longrightarrow> phase now ops K m m"
proof -
  assume "\<And>fop. fop \<in> set ops \<Longrightarrow> \<not> K fop"
  then have "List.find (\<lambda>fop. K fop \<and> holds m i fop) ops = None" for i by (auto simp: find_None_iff)
  then show ?thesis by (simp add: phase_def)
qed

text \<open>Entries of different executions: at most one of them holds a row.\<close>

lemma holder_unique:
  assumes "distinct (map token ops)" "x \<in> set ops" "y \<in> set ops" "holds m i x" "holds m i y"
  shows "x = y"
proof -
  have "token x = token y"
    using assms(4,5) by (auto simp: holds_def hit_iff running_at_def prod_eq_iff)
  then show ?thesis using assms(1-3) by (simp add: distinct_map inj_on_def)
qed

lemma find_holder:
  assumes "distinct (map token ops)" "fop \<in> set ops" "holds m i fop" "K fop"
  shows "List.find (\<lambda>x. K x \<and> holds m i x) ops = Some fop"
proof (cases "List.find (\<lambda>x. K x \<and> holds m i x) ops")
  case None
  then show ?thesis using assms(2-4) by (auto simp: find_None_iff)
next
  case (Some x)
  then have "x \<in> set ops" "holds m i x" by (auto simp: find_Some_iff)
  then show ?thesis using Some holder_unique [OF assms(1) _ assms(2) _ assms(3)] by simp
qed

lemma holds_cong: "m i = m' i \<Longrightarrow> holds m i fop = holds m' i fop"
  by (simp add: holds_def hit_def)

text \<open>Two rounds over different entries make one round over both.\<close>

lemma phase_join:
  assumes "distinct (map token ops)" "phase now ops K m m1" "phase now ops K' m1 m2"
  shows "phase now ops (\<lambda>fop. K fop \<or> K' fop) m m2"
  unfolding phase_def
proof
  fix i
  note p1 = assms(2) [unfolded phase_def, rule_format, of i]
    and p2 = assms(3) [unfolded phase_def, rule_format, of i]
  show "m2 i = (case List.find (\<lambda>fop. (K fop \<or> K' fop) \<and> holds m i fop) ops of
      None \<Rightarrow> m i | Some fop \<Rightarrow> Some (effect now fop (the (m i))))"
  proof (cases "List.find (\<lambda>fop. K fop \<and> holds m i fop) ops")
    case None
    then have same: "m1 i = m i" using p1 by simp
    have none: "\<not> (K fop \<and> holds m i fop)" if "fop \<in> set ops" for fop
      using None that by (auto simp: find_None_iff)
    have "List.find (\<lambda>fop. (K fop \<or> K' fop) \<and> holds m i fop) ops = List.find (\<lambda>fop. K' fop \<and> holds m1 i fop) ops"
      using none holds_cong [of m1 i m, OF same] by (intro find_cong) auto
    then show ?thesis using p2 same by (simp split: option.split)
  next
    case (Some fop)
    then have fop: "fop \<in> set ops" "K fop" "holds m i fop" by (auto simp: find_Some_iff)
    have m1: "m1 i = Some (effect now fop (the (m i)))" using p1 Some by simp
    then have "\<not> holds m1 i x" for x by (simp add: holds_def hit_iff running_at_def)
    then have "List.find (\<lambda>fop. K' fop \<and> holds m1 i fop) ops = None" by (simp add: find_None_iff)
    then have "m2 i = m1 i" using p2 by simp
    moreover have "List.find (\<lambda>fop. (K fop \<or> K' fop) \<and> holds m i fop) ops = Some fop"
      using fop by (intro find_holder [OF assms(1)]) simp_all
    ultimately show ?thesis using m1 by simp
  qed
qed

lemma as_complete_Some: "as_complete fop = Some f \<Longrightarrow> token fop = (jf_ID f, jf_Generation f) \<and>
    (\<forall>j. apply_complete f (j\<lparr>FinalizedAt := now\<rparr>) = effect now fop j)"
  by (cases fop) simp_all

lemma as_retry_Some: "as_retry fop = Some f \<Longrightarrow> token fop = (jr_ID f, jr_Generation f) \<and>
    (\<forall>j. apply_retry f (j\<lparr>FinalizedAt := now\<rparr>) = effect now fop j)"
  by (cases fop) simp_all

lemma as_cancel_Some: "as_cancel fop = Some f \<Longrightarrow> token fop = (jc_ID f, jc_Generation f) \<and>
    (\<forall>j. apply_cancel now f (j\<lparr>FinalizedAt := now\<rparr>) = effect now fop j)"
  by (cases fop) simp_all

lemma as_kill_Some: "as_kill fop = Some f \<Longrightarrow> token fop = (jk_ID f, jk_Generation f) \<and>
    (\<forall>j. apply_kill f (j\<lparr>FinalizedAt := now\<rparr>) = effect now fop j)"
  by (cases fop) simp_all

lemma as_snooze_Some: "as_snooze fop = Some f \<Longrightarrow> token fop = (js_ID f, js_Generation f) \<and>
    (\<forall>j. apply_snooze f (j\<lparr>FinalizedAt := now\<rparr>) = effect now fop j)"
  by (cases fop) simp_all

lemma every_kind:
  "as_complete fop \<noteq> None \<or> as_retry fop \<noteq> None \<or> as_cancel fop \<noteq> None \<or> as_kill fop \<noteq> None \<or> as_snooze fop \<noteq> None"
  by (cases fop) simp_all

subsection \<open>A flush is one round over the batch\<close>

lemma call_accepted:
  "accepted_or_stale (fst (fn (fst sd))) \<Longrightarrow> call L n fn sd = (snd (fn (fst sd)), snd sd)"
  by (auto simp: call_def attempt_def attempt_from.simps [of L 0] split: prod.split option.split)

lemma in_map_filter: "f \<in> set (List.map_filter g xs) \<longleftrightarrow> (\<exists>x\<in>set xs. g x = Some f)"
  by (induction xs) (auto simp: List.map_filter_simps split: option.split)

context reliable_storage
begin

text \<open>One of the five calls of a flush, whether there are entries of its kind or not.\<close>

lemma one_call:
  assumes law: "\<And>s r s'. inv s \<Longrightarrow> fn s = (r, s') \<Longrightarrow> finalized idf gen eff (List.map_filter g ops) (rows s) r (rows s')"
    and ok: "\<And>s. inv s \<Longrightarrow> accepted_or_stale (fst (fn s))"
    and keep: "\<And>s. inv s \<Longrightarrow> inv (snd (fn s))"
    and g: "\<And>fop f. g fop = Some f \<Longrightarrow> token fop = (idf f, gen f) \<and> (\<forall>j. eff f j = effect now fop j)"
    and s: "inv (fst sd)"
    and sd': "sd' = (if List.map_filter g ops \<noteq> [] then call L n fn sd else sd)"
  shows "inv (fst sd') \<and> snd sd' = snd sd \<and> phase now ops (\<lambda>fop. g fop \<noteq> None) (rows (fst sd)) (rows (fst sd'))"
proof (cases "List.map_filter g ops = []")
  case True
  then have "g fop = None" if "fop \<in> set ops" for fop
    using that in_map_filter [of _ g ops] by (cases "g fop") auto
  then show ?thesis using True s by (simp add: sd' phase_skip)
next
  case False
  have "sd' = (snd (fn (fst sd)), snd sd)"
    using False call_accepted [of fn sd L n] ok [OF s] by (simp add: sd')
  moreover have "phase now ops (\<lambda>fop. g fop \<noteq> None) (rows (fst sd)) (rows (snd (fn (fst sd))))"
    using finalized_phase [OF law [OF s] ok [OF s] g] by (metis prod.collapse)
  ultimately show ?thesis using keep [OF s] by simp
qed

lemma flush_round:
  assumes "inv s" "distinct (map token ops)" "\<forall>fop\<in>set ops. op_storable fop"
  shows "inv (fst (flush B L now ops (s, d))) \<and> snd (flush B L now ops (s, d)) = d \<and>
     phase now ops (\<lambda>_. True) (rows s) (rows (fst (flush B L now ops (s, d))))"
proof (cases "ops = []")
  case True
  then show ?thesis using assms(1) by (simp add: flush_def phase_def)
next
  case False
  let ?b = "collect ops"
  define s1 where "s1 = (if completes ?b \<noteq> [] then call (L 0) (length (completes ?b)) (Complete B \<lparr>cp_Jobs = completes ?b, cp_Now = now\<rparr>) (s, d) else (s, d))"
  define s2 where "s2 = (if retries ?b \<noteq> [] then call (L 1) (length (retries ?b)) (Retry B \<lparr>rp_Jobs = retries ?b, rp_Now = now\<rparr>) s1 else s1)"
  define s3 where "s3 = (if cancels ?b \<noteq> [] then call (L 2) (length (cancels ?b)) (CancelJobs B \<lparr>xp_Jobs = cancels ?b, xp_Now = now\<rparr>) s2 else s2)"
  define s4 where "s4 = (if kills ?b \<noteq> [] then call (L 3) (length (kills ?b)) (Kill B \<lparr>kp_Jobs = kills ?b, kp_Now = now\<rparr>) s3 else s3)"
  define s5 where "s5 = (if snoozes ?b \<noteq> [] then call (L 4) (length (snoozes ?b)) (Snooze B \<lparr>sp_Jobs = snoozes ?b, sp_Now = now\<rparr>) s4 else s4)"
  have flush: "flush B L now ops (s, d) = s5"
    using False by (simp add: flush_def Let_def s5_def s4_def s3_def s2_def s1_def)
  have st: "\<forall>f\<in>set (List.map_filter as_retry ops). storable (jr_At f)"
    "\<forall>f\<in>set (List.map_filter as_snooze ops). storable (js_At f)"
    using assms(3) by (force simp: in_map_filter elim!: as_retry.elims as_snooze.elims)+
  note steps = s1_def [unfolded collect_kinds] s2_def [unfolded collect_kinds] s3_def [unfolded collect_kinds]
    s4_def [unfolded collect_kinds] s5_def [unfolded collect_kinds]
  have 1: "inv (fst s1) \<and> snd s1 = d \<and> phase now ops (\<lambda>fop. as_complete fop \<noteq> None) (rows s) (rows (fst s1))"
    using one_call [where fn = "Complete B \<lparr>cp_Jobs = List.map_filter as_complete ops, cp_Now = now\<rparr>" and L = "L 0"
          and n = "length (List.map_filter as_complete ops)", OF Complete_law [where cp = "\<lparr>cp_Jobs = List.map_filter as_complete ops, cp_Now = now\<rparr>", simplified]
        Complete_ok inv_Complete as_complete_Some _ steps(1)] assms(1) by simp
  have 2: "inv (fst s2) \<and> snd s2 = d \<and> phase now ops (\<lambda>fop. as_retry fop \<noteq> None) (rows (fst s1)) (rows (fst s2))"
    using one_call [where fn = "Retry B \<lparr>rp_Jobs = List.map_filter as_retry ops, rp_Now = now\<rparr>" and L = "L 1"
          and n = "length (List.map_filter as_retry ops)", OF Retry_law [where rp = "\<lparr>rp_Jobs = List.map_filter as_retry ops, rp_Now = now\<rparr>", simplified]
        Retry_ok [where rp = "\<lparr>rp_Jobs = List.map_filter as_retry ops, rp_Now = now\<rparr>", simplified, OF _ st(1)] inv_Retry as_retry_Some _ steps(2)] 1 by simp
  have 3: "inv (fst s3) \<and> snd s3 = d \<and> phase now ops (\<lambda>fop. as_cancel fop \<noteq> None) (rows (fst s2)) (rows (fst s3))"
    using one_call [where fn = "CancelJobs B \<lparr>xp_Jobs = List.map_filter as_cancel ops, xp_Now = now\<rparr>" and L = "L 2"
          and n = "length (List.map_filter as_cancel ops)", OF Cancel_law [where xp = "\<lparr>xp_Jobs = List.map_filter as_cancel ops, xp_Now = now\<rparr>", simplified]
        Cancel_ok inv_Cancel as_cancel_Some _ steps(3)] 2 by simp
  have 4: "inv (fst s4) \<and> snd s4 = d \<and> phase now ops (\<lambda>fop. as_kill fop \<noteq> None) (rows (fst s3)) (rows (fst s4))"
    using one_call [where fn = "Kill B \<lparr>kp_Jobs = List.map_filter as_kill ops, kp_Now = now\<rparr>" and L = "L 3"
          and n = "length (List.map_filter as_kill ops)", OF Kill_law [where kp = "\<lparr>kp_Jobs = List.map_filter as_kill ops, kp_Now = now\<rparr>", simplified]
        Kill_ok inv_Kill as_kill_Some _ steps(4)] 3 by simp
  have 5: "inv (fst s5) \<and> snd s5 = d \<and> phase now ops (\<lambda>fop. as_snooze fop \<noteq> None) (rows (fst s4)) (rows (fst s5))"
    using one_call [where fn = "Snooze B \<lparr>sp_Jobs = List.map_filter as_snooze ops, sp_Now = now\<rparr>" and L = "L 4"
          and n = "length (List.map_filter as_snooze ops)", OF Snooze_law [where sp = "\<lparr>sp_Jobs = List.map_filter as_snooze ops, sp_Now = now\<rparr>", simplified]
        Snooze_ok [where sp = "\<lparr>sp_Jobs = List.map_filter as_snooze ops, sp_Now = now\<rparr>", simplified, OF _ st(2)] inv_Snooze as_snooze_Some _ steps(5)] 4 by simp
  note j = phase_join [OF assms(2)]
  have "phase now ops (\<lambda>fop. as_complete fop \<noteq> None \<or> as_retry fop \<noteq> None \<or> as_cancel fop \<noteq> None \<or>
      as_kill fop \<noteq> None \<or> as_snooze fop \<noteq> None) (rows s) (rows (fst s5))"
    using 1 2 3 4 5 by (intro j [of now _ "rows s" "rows (fst s1)"] j [of now _ "rows (fst s1)" "rows (fst s2)"]
        j [of now _ "rows (fst s2)" "rows (fst s3)"] j [of now _ "rows (fst s3)" "rows (fst s4)"]) simp_all
  moreover have "(\<lambda>fop. as_complete fop \<noteq> None \<or> as_retry fop \<noteq> None \<or> as_cancel fop \<noteq> None \<or>
      as_kill fop \<noteq> None \<or> as_snooze fop \<noteq> None) = (\<lambda>_. True)"
    by (rule ext) (simp only: every_kind)
  ultimately show ?thesis using 5 unfolding flush by (simp only: simp_thms)
qed

text \<open>One at a time: each flush of a single entry is a round over it.\<close>

lemma flush_singles:
  assumes "inv s" "distinct (map token ops)" "\<forall>fop\<in>set ops. op_storable fop"
  shows "let r = foldl (\<lambda>sd fop. flush B L now [fop] sd) (s, d) ops
     in inv (fst r) \<and> snd r = d \<and> phase now ops (\<lambda>_. True) (rows s) (rows (fst r))"
  using assms
proof (induction ops rule: rev_induct)
  case Nil
  then show ?case by (simp add: phase_def)
next
  case (snoc fop ops)
  define r where "r = foldl (\<lambda>sd fop. flush B L now [fop] sd) (s, d) ops"
  have ih: "inv (fst r)" "snd r = d" "phase now ops (\<lambda>_. True) (rows s) (rows (fst r))"
    using snoc by (simp_all add: Let_def r_def)
  have step: "inv (fst (flush B L now [fop] r)) \<and> snd (flush B L now [fop] r) = d \<and>
      phase now [fop] (\<lambda>_. True) (rows (fst r)) (rows (fst (flush B L now [fop] r)))"
    using flush_round [of "fst r" "[fop]" L now d] ih(1,2) snoc.prems(3) by (cases r) simp
  let ?all = "ops @ [fop]"
  have d: "distinct (map token ?all)" by (rule snoc.prems(2))
  have nin: "fop \<notin> set ops" using d by auto
  have p1: "phase now ?all (\<lambda>x. x \<noteq> fop) (rows s) (rows (fst r))"
  proof -
    have "List.find (\<lambda>x. x \<noteq> fop \<and> holds (rows s) i x) ?all = List.find (\<lambda>x. True \<and> holds (rows s) i x) ops" for i
      using nin by (induction ops) auto
    then show ?thesis using ih(3) by (simp add: phase_def)
  qed
  have p2: "phase now ?all (\<lambda>x. x = fop) (rows (fst r)) (rows (fst (flush B L now [fop] r)))"
  proof -
    have "List.find (\<lambda>x. x = fop \<and> holds (rows (fst r)) i x) ?all = List.find (\<lambda>x. True \<and> holds (rows (fst r)) i x) [fop]" for i
      using nin by (induction ops) auto
    then show ?thesis using step unfolding phase_def by presburger
  qed
  have "phase now ?all (\<lambda>x. x \<noteq> fop \<or> x = fop) (rows s) (rows (fst (flush B L now [fop] r)))"
    by (rule phase_join [OF d p1 p2])
  then show ?case using step by (simp add: Let_def r_def)
qed

lemma batching_transparent:
  assumes "inv s" "distinct (map token ops)" "\<forall>fop\<in>set ops. op_storable fop"
  shows "rows (fst (flush B L now ops (s, d))) = rows (fst (foldl (\<lambda>sd fop. flush B L now [fop] sd) (s, d) ops)) \<and>
     snd (flush B L now ops (s, d)) = d"
proof -
  have "phase now ops (\<lambda>_. True) (rows s) (rows (fst (flush B L now ops (s, d))))"
    "phase now ops (\<lambda>_. True) (rows s) (rows (fst (foldl (\<lambda>sd fop. flush B L now [fop] sd) (s, d) ops)))"
    using flush_round [OF assms] flush_singles [OF assms, of L now d] by (simp_all add: Let_def)
  then have "rows (fst (flush B L now ops (s, d))) = rows (fst (foldl (\<lambda>sd fop. flush B L now [fop] sd) (s, d) ops))"
    unfolding phase_def by (intro ext) simp
  then show ?thesis using flush_round [OF assms] by simp
qed

text \<open>A finalization that still holds its row takes effect, whatever else is in the batch.\<close>

lemma flush_delivers:
  assumes "inv s" "distinct (map token ops)" "\<forall>fop\<in>set ops. op_storable fop"
    and "fop \<in> set ops" "rows s (fst (token fop)) = Some j" "running_at (snd (token fop)) j"
  shows "rows (fst (flush B L now ops (s, d))) (fst (token fop)) = Some (effect now fop j)"
proof -
  have "holds (rows s) (fst (token fop)) fop" using assms(5,6) by (simp add: holds_def hit_iff)
  then have "List.find (\<lambda>x. True \<and> holds (rows s) (fst (token fop)) x) ops = Some fop"
    by (rule find_holder [OF assms(2,4)]) simp
  then show ?thesis
    using flush_round [OF assms(1-3), of L now d] assms(5) by (simp add: phase_def)
qed

end

subsection \<open>On the memory backend\<close>


definition sample_ops :: "finalizeOp list" where
  "sample_ops =
    [opSnooze \<lparr>js_ID = 2, js_Generation = 1, js_At = 500, js_Metadata = RawNil\<rparr>,
     opComplete \<lparr>jf_ID = 1, jf_Generation = 1, jf_Metadata = RawNil\<rparr>]"

definition sample_life :: "nat \<Rightarrow> lifetime" where
  "sample_life k = \<lparr>doneAfter = (\<lambda>_. False), doneDuring = (\<lambda>_. False)\<rparr>"

lemma sample_ops_ok: "distinct (map token sample_ops)" "\<forall>fop\<in>set sample_ops. op_storable fop"
  by (simp_all add: sample_ops_def storable_iff min_i64_def max_i64_def)


text \<open>Delivery: every finalization of such a batch whose token is still the running one takes effect on its
  row, exactly as its kind says, whatever else is in the batch and whether or not other entries are stale.\<close>

theorem flush_delivers_each:
  assumes "ids_ok b" "distinct (map token ops)" "\<forall>fop\<in>set ops. op_storable fop"
    and "fop \<in> set ops" "jobs b (fst (token fop)) = Some j" "State j = StateRunning" "Generation j = snd (token fop)"
  shows "jobs (fst (flush mem_backend L now ops (b, d))) (fst (token fop)) = Some (effect now fop j)"
  using assms by (intro mem_store.flush_delivers) (simp_all add: running_at_def)

lemma flush_delivers_each_witness:
  "State (the (jobs (fst (flush mem_backend sample_life 300 sample_ops (sample_mid 3, 0))) 1)) = StateCompleted"
proof -
  have "jobs (sample_mid 3) 1 \<noteq> None" "State (the (jobs (sample_mid 3) 1)) = StateRunning"
    "Generation (the (jobs (sample_mid 3) 1)) = 1" by code_simp+
  then obtain j where j: "jobs (sample_mid 3) 1 = Some j" "State j = StateRunning" "Generation j = 1" by auto
  let ?f = "\<lparr>jf_ID = 1, jf_Generation = 1, jf_Metadata = RawNil\<rparr>"
  have "opComplete ?f \<in> set sample_ops" by (simp add: sample_ops_def)
  from flush_delivers_each [OF sample_mid_ids_ok sample_ops_ok this] j
  show ?thesis by (simp add: apply_complete_def mergeMeta_def)
qed

text \<open>C35: One finalization with an instant that cannot be stored poisons its kind: if one retry of a batch has
  such an instant (a worker's \<^verbatim>\<open>RetryAt(time.Time{}, err)\<close> is enough), no retry of the batch is written,
  whatever the completer repeats, and all of them are counted as dropped, so unrelated jobs lose theirs.\<close>

theorem retry_batch_poisoned:
  assumes "f \<in> set fs" "\<not> storable (jr_At f)"
  shows "flush mem_backend L now (map opRetry fs) (b, d) = (b, d + length fs)"
proof -
  have ops: "collect (map opRetry fs) = \<lparr>completes = [], retries = fs, cancels = [], kills = [], snoozes = []\<rparr>"
  proof -
    have "List.map_filter as_retry (map opRetry fs) = fs" by (induction fs) (simp_all add: List.map_filter_simps)
    moreover have "List.map_filter as_complete (map opRetry fs) = []" "List.map_filter as_cancel (map opRetry fs) = []"
      "List.map_filter as_kill (map opRetry fs) = []" "List.map_filter as_snooze (map opRetry fs) = []"
      by (induction fs) (simp_all add: List.map_filter_simps)
    ultimately show ?thesis using collect_kinds [of "map opRetry fs"] by simp
  qed
  let ?fn = "Retry mem_backend \<lparr>rp_Jobs = fs, rp_Now = now\<rparr>"
  obtain e where e: "validate_all (map jr_At fs) = Some e"
    using assms validate_all_None [of "map jr_At fs"] by auto
  then have "errors_Is e ErrTimeOutOfRange" "\<not> errors_Is e ErrStaleAttempt"
    using validate_all_Some [OF e] validate_all_not_stale [OF e] by simp_all
  then have fn: "?fn s = (Some e, s)" "\<not> accepted_or_stale (Some e)" for s
    by (simp_all add: mem_backend_def mem_Retry_def e)
  have calls: "((\<lambda>s :: mem. s) ^^ k) b = b" for k by (induction k) simp_all
  have "\<exists>k. settles (L 1) 0 ?fn b k (attempt (L 1) ?fn b)"
    using attempt_from_settles [of 0 "L 1" ?fn b] by (auto simp: attempt_def)
  then have "attempt (L 1) ?fn b = (Some e, b)" using fn by (auto simp: settles_def fn calls)
  then show ?thesis using assms(1) by (auto simp: flush_def ops call_def)
qed

lemma retry_batch_poisoned_witness:
  "flush mem_backend sample_life 300
     (map opRetry
       [\<lparr>jr_ID = 1, jr_Generation = 1, jr_At = 400, jr_Err = \<lparr>ae_at = 9, ae_attempt = 1, ae_err = ''x'', ae_stack = []\<rparr>, jr_Metadata = RawNil\<rparr>,
        \<lparr>jr_ID = 2, jr_Generation = 1, jr_At = zero_time, jr_Err = \<lparr>ae_at = 9, ae_attempt = 1, ae_err = ''x'', ae_stack = []\<rparr>, jr_Metadata = RawNil\<rparr>])
     (sample_mid 3, 0) = (sample_mid 3, 2)"
  using retry_batch_poisoned [of
      "\<lparr>jr_ID = 2, jr_Generation = 1, jr_At = zero_time, jr_Err = \<lparr>ae_at = 9, ae_attempt = 1, ae_err = ''x'', ae_stack = []\<rparr>, jr_Metadata = RawNil\<rparr>"
      "[\<lparr>jr_ID = 1, jr_Generation = 1, jr_At = 400, jr_Err = \<lparr>ae_at = 9, ae_attempt = 1, ae_err = ''x'', ae_stack = []\<rparr>, jr_Metadata = RawNil\<rparr>,
        \<lparr>jr_ID = 2, jr_Generation = 1, jr_At = zero_time, jr_Err = \<lparr>ae_at = 9, ae_attempt = 1, ae_err = ''x'', ae_stack = []\<rparr>, jr_Metadata = RawNil\<rparr>]"
      sample_life 300 "sample_mid 3" 0]
  by (simp add: storable_iff zero_time_def min_i64_def max_i64_def)

end
