(* ===== verification/Process.thy ===== *)
theory Process
  imports Flush_Spec
begin

text \<open>
  \<^verbatim>\<open>process.go\<close>: one synchronous pass over the queues. The finalizer flushes each outcome at once and
  remembers it for the result. The storage and the rest of the world (clock, context, whatever the
  workers touch) are the two halves of the world a job runs in.
\<close>

subsection \<open>Outcomes\<close>

datatype outcome = OutcomeCompleted | OutcomeRetried | OutcomeCancelled | OutcomeDead | OutcomeSnoozed

record job_result =
  jrJob :: job_row
  jrOutcome :: outcome
  jrErr :: string

text \<open>
  The state of a \<^verbatim>\<open>syncFinalizer\<close>: its completer's count of dropped entries and the last operation.
  \<open>clock_of\<close> is the client's clock, which \<^verbatim>\<open>flush\<close> reads; \<open>life\<close> is what the lifetime of the completer
  reports, which nothing ends.
\<close>

record sync_finalizer =
  sfDropped :: nat
  sfLast :: "finalizeOp option"

definition endless :: lifetime where
  "endless = \<lparr>doneAfter = (\<lambda>_. False), doneDuring = (\<lambda>_. False)\<rparr>"

definition sync_push ::
  "'s backend \<Rightarrow> ('s \<times> 'e \<Rightarrow> instant \<times> ('s \<times> 'e)) \<Rightarrow> ('s \<times> 'e, sync_finalizer) push_fn" where
  "sync_push B nowFn fop x =
     (let (w, f) = x;
          (now, (s, e)) = nowFn w;
          (s', d) = flush B (\<lambda>_. endless) now [fop] (s, sfDropped f)
      in ((s', e), \<lparr>sfDropped = d, sfLast = Some fop\<rparr>))"

fun outcome_of :: "finalizeOp \<Rightarrow> outcome \<times> string" where
  "outcome_of (opComplete f) = (OutcomeCompleted, [])"
| "outcome_of (opRetry f) = (OutcomeRetried, ae_err (jr_Err f))"
| "outcome_of (opCancel f) = (OutcomeCancelled, jc_Err f)"
| "outcome_of (opKill f) = (OutcomeDead, ae_err (jk_Err f))"
| "outcome_of (opSnooze f) = (OutcomeSnoozed, [])"

definition take_result :: "job_row \<Rightarrow> sync_finalizer \<Rightarrow> job_result option \<times> sync_finalizer" where
  "take_result row f =
     (case sfLast f of
        None \<Rightarrow> (None, f\<lparr>sfLast := None\<rparr>)
      | Some fop \<Rightarrow>
          (let (out, err) = outcome_of fop
           in (Some \<lparr>jrJob = row, jrOutcome = out, jrErr = err\<rparr>, f\<lparr>sfLast := None\<rparr>)))"

subsection \<open>ProcessReady\<close>

definition moveDueMaxBatches :: nat where
  "moveDueMaxBatches = 1000"

text \<open>The two budgets are variables of the package, so that tests can lower them.\<close>

record budgets =
  moveDueBatch :: int
  perQueueJobBudget :: nat

definition default_budgets :: budgets where
  "default_budgets = \<lparr>moveDueBatch = 1000, perQueueJobBudget = 10000\<rparr>"

type_synonym ('s, 'e) proc_state = "('s \<times> 'e, sync_finalizer) run_state"

record ('s, 'e) proc_cfg =
  pcBackend :: "'s backend"
  pcRun :: "('s \<times> 'e) run_cfg"
  pcClientID :: string
  pcCtxErr :: "'s \<times> 'e \<Rightarrow> go_error option"
  pcCtx :: ctx

text \<open>A call of the backend on the storage half of the world.\<close>

definition on_store :: "('s \<Rightarrow> 'r \<times> 's) \<Rightarrow> ('s, 'e) proc_state \<Rightarrow> 'r \<times> ('s, 'e) proc_state" where
  "on_store fn st = (let (r, s') = fn (fst (world st)) in (r, st\<lparr>world := (s', snd (world st))\<rparr>))"

definition read_clock :: "('s, 'e) proc_cfg \<Rightarrow> ('s, 'e) proc_state \<Rightarrow> instant \<times> ('s, 'e) proc_state" where
  "read_clock cfg st = (let (now, w) = rcNow (pcRun cfg) (world st) in (now, st\<lparr>world := w\<rparr>))"

text \<open>The promotion loop; the first argument counts the batches left.\<close>

fun move_due_loop :: "nat \<Rightarrow> budgets \<Rightarrow> ('s, 'e) proc_cfg \<Rightarrow> ('s, 'e) proc_state \<Rightarrow> go_error option \<times> ('s, 'e) proc_state" where
  "move_due_loop 0 bud cfg st = (None, st)"
| "move_due_loop (Suc n) bud cfg st =
     (let (now, st) = read_clock cfg st;
          (r, st) = on_store (MoveDue (pcBackend cfg) \<lparr>mp_Now = now, mp_Limit = moveDueBatch bud\<rparr>) st
      in case r of
           Inl err \<Rightarrow> (Some err, st)
         | Inr moved \<Rightarrow>
             if moved < moveDueBatch bud then (None, st) else move_due_loop n bud cfg st)"

text \<open>The rows of one fetch. A panic that leaves \<^verbatim>\<open>runJob\<close> leaves the whole pass.\<close>

datatype pass_end = Panicking go_error | Failed go_error | Passed

fun run_rows ::
  "('s, 'e) proc_cfg \<Rightarrow> job_row list \<Rightarrow> job_result list \<Rightarrow> ('s, 'e) proc_state
   \<Rightarrow> go_error option \<times> job_result list \<times> ('s, 'e) proc_state" where
  "run_rows cfg [] results st = (None, results, st)"
| "run_rows cfg (row # rows) results st =
     (let (panic, row, st) = runJob (pcRun cfg) (sync_push (pcBackend cfg) (rcNow (pcRun cfg))) (pcCtx cfg) row st
      in case panic of
           Some e \<Rightarrow> (Some e, results, st)
         | None \<Rightarrow>
             (let (res, f) = take_result row (fin st);
                  results = (case res of Some r \<Rightarrow> results @ [r] | None \<Rightarrow> results)
              in run_rows cfg rows results (st\<lparr>fin := f\<rparr>)))"

text \<open>
  The loop over one queue. It ends: every round works at least one row, and past the budget the pass gives
  up. \<open>processed\<close> counts as the code does, after the rows of a fetch.
\<close>

function drain_queue ::
  "budgets \<Rightarrow> ('s, 'e) proc_cfg \<Rightarrow> string \<Rightarrow> nat \<Rightarrow> job_result list \<Rightarrow> ('s, 'e) proc_state
   \<Rightarrow> pass_end \<times> job_result list \<times> ('s, 'e) proc_state" where
  "drain_queue bud cfg q processed results st =
     (case pcCtxErr cfg (world st) of
        Some err \<Rightarrow> (Failed err, results, st)
      | None \<Rightarrow>
      (let (now, st) = read_clock cfg st;
           (r, st) = on_store (Fetch (pcBackend cfg)
             \<lparr>fp_Queue = q, fp_Limit = 100, fp_ClientID = pcClientID cfg, fp_Now = now\<rparr>) st
       in case r of
            Inl err \<Rightarrow> (Failed err, results, st)
          | Inr rows \<Rightarrow>
              if rows = [] then (Passed, results, st)
              else
                (let (panic, results, st) = run_rows cfg rows results st
                 in case panic of
                      Some e \<Rightarrow> (Panicking e, results, st)
                    | None \<Rightarrow>
                        if perQueueJobBudget bud < processed + length rows
                        then (Failed (ErrorString (''goque: ProcessReady exceeded the job budget in queue '' @ q)), results, st)
                        else drain_queue bud cfg q (processed + length rows) results st)))"
  by pat_completeness auto
termination
  by (relation "measure (\<lambda>(bud, cfg, q, processed, results, st). perQueueJobBudget bud + 1 - processed)")
    (auto simp: neq_Nil_conv)

declare drain_queue.simps [simp del]

fun drain_queues ::
  "budgets \<Rightarrow> ('s, 'e) proc_cfg \<Rightarrow> string list \<Rightarrow> job_result list \<Rightarrow> ('s, 'e) proc_state
   \<Rightarrow> pass_end \<times> job_result list \<times> ('s, 'e) proc_state" where
  "drain_queues bud cfg [] results st = (Passed, results, st)"
| "drain_queues bud cfg (q # qs) results st =
     (case drain_queue bud cfg q 0 results st of
        (Passed, results, st) \<Rightarrow> drain_queues bud cfg qs results st
      | stop \<Rightarrow> stop)"

text \<open>\<open>has_workers\<close> is whether the client has a registry. The pass starts with a fresh finalizer.\<close>

definition ProcessReady ::
  "budgets \<Rightarrow> bool \<Rightarrow> ('s, 'e) proc_cfg \<Rightarrow> string list \<Rightarrow> ('s, 'e) proc_state
   \<Rightarrow> pass_end \<times> job_result list \<times> ('s, 'e) proc_state" where
  "ProcessReady bud has_workers cfg queues st =
     (if \<not> has_workers then (Failed (ErrorString ''goque: ProcessReady requires workers''), [], st)
      else case pcCtxErr cfg (world st) of
        Some err \<Rightarrow> (Failed err, [], st)
      | None \<Rightarrow>
      (case move_due_loop moveDueMaxBatches bud cfg st of
         (Some err, st) \<Rightarrow> (Failed err, [], st)
       | (None, st) \<Rightarrow>
           drain_queues bud cfg queues [] (st\<lparr>fin := \<lparr>sfDropped = 0, sfLast = None\<rparr>\<rparr>)))"

end
