(* ===== verification/Process_Spec.thy ===== *)
theory Process_Spec
  imports Process
begin

text \<open>
  What a synchronous pass promises: the work of a pass is bounded, a queue that was passed is drained, and
  the outcome it reports for an execution is the one in the storage.
\<close>

subsection \<open>What user code keeps\<close>

text \<open>Workers, handlers and the clock keep a predicate of the world they run in.\<close>

definition keeps :: "('w \<Rightarrow> bool) \<Rightarrow> 'w run_cfg \<Rightarrow> bool" where
  "keeps I cfg \<longleftrightarrow>
     (\<forall>ctx row w. I w \<longrightarrow> I (snd (snd (workOnce cfg ctx row w)))) \<and>
     (\<forall>ctx row call w. I w \<longrightarrow> I (snd (snd (call_handler cfg ctx row call w)))) \<and>
     (\<forall>w. I w \<longrightarrow> I (snd (rcNow cfg w)))"

lemma runJob_keeps:
  assumes "keeps I cfg" "I (world s)" "runJob cfg push ctx row s = (panic, row', s')"
  shows "\<exists>w. I w \<and> (case panic of
       None \<Rightarrow> \<exists>fop. token fop = (ID row', Generation row') \<and> (world s', fin s') = push fop (w, fin s)
     | Some e \<Rightarrow> world s' = w \<and> fin s' = fin s)"
proof -
  obtain jctx p s1 where b: "runJob_begin ctx row s = (jctx, p, s1)" by (metis prod_cases3)
  have s1: "world s1 = world s" "fin s1 = fin s" "\<not> fenced (cells s1 ! p)" and p: "p = length (cells s)"
    using b by (auto simp: runJob_begin_def Let_def)
  obtain err r w0 where w: "workOnce cfg jctx row (world s1) = (err, r, w0)" by (metis prod_cases3)
  have I0: "I w0" using assms(1,2) w s1(1) unfolding keeps_def by (metis snd_conv)
  obtain now w1 where n: "rcNow cfg w0 = (now, w1)" by fastforce
  have I1: "I w1" using assms(1) I0 n unfolding keeps_def by (metis snd_conv)
  obtain call dec where d: "decide (rcFmt cfg) (rcRetry cfg) (rcDefaultPolicy cfg) r err now = (call, dec)" by fastforce
  obtain hp r2 w2 where h: "call_handler cfg ctx r call w1 = (hp, r2, w2)" by (metis prod_cases3)
  have I2: "I w2" using assms(1) I1 h unfolding keeps_def by (metis snd_conv)
  have "runJob_end cfg push ctx p r err (s1\<lparr>world := w0\<rparr>) = (panic, row', s')"
    using assms(3) by (simp add: runJob_def b w)
  then have e: "(case hp of
           Some (x, st) \<Rightarrow> (Some (PanicError x st), r2, runJob_defer p r2 (s1\<lparr>world := w0, world := w2\<rparr>))
         | None \<Rightarrow>
             (case dec r2 of
                Inl e \<Rightarrow> (Some e, r2, runJob_defer p r2 (s1\<lparr>world := w0, world := w2\<rparr>))
              | Inr fop \<Rightarrow> (None, r2, runJob_defer p r2 (pushFenced push p fop (s1\<lparr>world := w0, world := w2\<rparr>))))) = (panic, row', s')"
    unfolding runJob_end_def Let_def by (simp add: n d h)
  show ?thesis
  proof (cases hp)
    case (Some xs)
    then show ?thesis using e I2 s1 by (cases xs) (auto simp: runJob_defer_def)
  next
    case hp: None
    show ?thesis
    proof (cases "dec r2")
      case (Inl x)
      then show ?thesis using e hp I2 s1 by (auto simp: runJob_defer_def)
    next
      case (Inr fop)
      have t: "token fop = (ID r2, Generation r2)"
        using decide_token [of "rcFmt cfg" "rcRetry cfg" "rcDefaultPolicy cfg" r err now r2 fop] d Inr by simp
      obtain w' f' where "push fop (w2, fin s) = (w', f')" by fastforce
      then show ?thesis using e hp Inr I2 s1 t
        by (auto simp: runJob_defer_def pushFenced_def intro!: exI [of _ w2])
    qed
  qed
qed

lemma keeps_trivial [simp]: "keeps (\<lambda>_. True) cfg"
  by (simp add: keeps_def)

lemma runJob_sync:
  assumes "runJob cfg (sync_push B clk) ctx row s = (None, row', s')"
  shows "\<exists>fop. sfLast (fin s') = Some fop \<and> token fop = (ID row', Generation row')"
  using runJob_keeps [OF keeps_trivial _ assms] by (auto simp: sync_push_def case_prod_beta Let_def)

subsection \<open>Bounded work\<close>

lemma run_rows_results:
  "run_rows cfg rows results st = (panic, results', st') \<Longrightarrow>
     \<exists>new. results' = results @ new \<and> (panic = None \<longrightarrow> length new = length rows) \<and> length new \<le> length rows"
proof (induction cfg rows results st rule: run_rows.induct)
  case (2 cfg row rows results st)
  obtain p r s where j: "runJob (pcRun cfg) (sync_push (pcBackend cfg) (rcNow (pcRun cfg))) (pcCtx cfg) row st = (p, r, s)"
    by (metis prod_cases3)
  show ?case
  proof (cases p)
    case (Some e)
    have "panic = Some e" "results' = results" using "2.prems" j Some by auto
    then show ?thesis by simp
  next
    case None
    then obtain fop where "sfLast (fin s) = Some fop" using runJob_sync [of "pcRun cfg" _ _ _ row st r s] j by blast
    then obtain res f where t: "take_result r (fin s) = (Some res, f)"
      by (simp add: take_result_def case_prod_beta Let_def)
    have "run_rows cfg rows (results @ [res]) (s\<lparr>fin := f\<rparr>) = (panic, results', st')"
      using "2.prems" j None t by simp
    from "2.IH" [OF j [symmetric] refl refl None t [symmetric] refl] this t
    show ?thesis by auto
  qed
qed simp

subsection \<open>Passes over any storage\<close>

text \<open>
  What a fetch that returns no row says about the store, and a pass that ended so: at the last reading of
  the clock no available job of the queue was due, and nothing but that fetch has run since.
\<close>

definition no_due :: "string \<Rightarrow> string \<Rightarrow> instant \<Rightarrow> (int \<rightharpoonup> job_row) \<Rightarrow> bool" where
  "no_due q c now m \<longleftrightarrow> card {i. hit (due \<lparr>fp_Queue = q, fp_Limit = 100, fp_ClientID = c, fp_Now = now\<rparr>) m i} = 0"

definition passed_queue ::
  "('s \<Rightarrow> int \<rightharpoonup> job_row) \<Rightarrow> ('s, 'e) proc_cfg \<Rightarrow> string \<Rightarrow> ('s, 'e) proc_state \<Rightarrow> bool" where
  "passed_queue rows cfg q st' \<longleftrightarrow>
     (\<exists>st0 now st1. read_clock cfg st0 = (now, st1) \<and> snd (world st') = snd (world st1) \<and>
        no_due q (pcClientID cfg) now (rows (fst (world st'))))"

lemma attempt_from_inv:
  "(\<And>s. P s \<Longrightarrow> P (snd (fn s))) \<Longrightarrow> P s \<Longrightarrow> P (snd (attempt_from L i fn s))"
proof (induction L i fn s rule: attempt_from.induct)
  case (1 L i fn s)
  obtain e s' where f: "fn s = (e, s')" by fastforce
  have "P s'" using "1.prems" f by (metis snd_conv)
  with 1 f show ?case
    unfolding attempt_from.simps [of L i fn s] by (cases e) (simp_all split: if_split)
qed

lemma call_inv: "(\<And>s. P s \<Longrightarrow> P (snd (fn s))) \<Longrightarrow> P (fst sd) \<Longrightarrow> P (fst (call L n fn sd))"
  using attempt_from_inv [of P fn "fst sd" L 0]
  by (auto simp: call_def attempt_def split: prod.split option.split)

context storage
begin

lemma flush_inv:
  assumes "inv (fst sd)"
  shows "inv (fst (flush B L now ops sd))"
proof -
  have opt: "inv (fst (if c then call (L k) n fn sd else sd))"
    if "inv (fst sd)" "\<And>s. inv s \<Longrightarrow> inv (snd (fn s))" for c k n fn sd
    using call_inv [of inv fn sd] that by simp
  show ?thesis
    unfolding flush_def Let_def
    by (rule if_split [of "\<lambda>x. inv (fst x)", THEN iffD2], intro conjI impI assms opt
        inv_Complete inv_Retry inv_Cancel inv_Kill inv_Snooze)
qed

lemma sync_push_inv:
  assumes "keeps (\<lambda>w. inv (fst w)) cfg" "inv (fst (fst x))"
  shows "inv (fst (fst (sync_push B (rcNow cfg) fop x)))"
proof -
  obtain w f where x: "x = (w, f)" by fastforce
  obtain now s e where n: "rcNow cfg w = (now, s, e)" by (metis prod_cases3)
  have "inv s" using assms x n unfolding keeps_def by (metis fst_conv snd_conv)
  then have "inv (fst (flush B (\<lambda>_. endless) now [fop] (s, sfDropped f)))" by (simp add: flush_inv)
  then show ?thesis by (auto simp: sync_push_def x n split: prod.split)
qed

lemma runJob_inv:
  assumes "keeps (\<lambda>w. inv (fst w)) cfg" "inv (fst (world s))"
    "runJob cfg (sync_push B (rcNow cfg)) ctx row s = (panic, row', s')"
  shows "inv (fst (world s'))"
proof -
  obtain w where w: "inv (fst w)" and c: "case panic of
       None \<Rightarrow> \<exists>fop. token fop = (ID row', Generation row') \<and> (world s', fin s') = sync_push B (rcNow cfg) fop (w, fin s)
     | Some e \<Rightarrow> world s' = w \<and> fin s' = fin s"
    using runJob_keeps [OF assms] by blast
  show ?thesis
  proof (cases panic)
    case None
    with c obtain fop where "(world s', fin s') = sync_push B (rcNow cfg) fop (w, fin s)" by auto
    with sync_push_inv [OF assms(1), of "(w, fin s)" fop] w show ?thesis by (metis fst_conv)
  qed (use w c in simp)
qed

lemma run_rows_inv:
  "pcBackend cfg = B \<Longrightarrow> keeps (\<lambda>w. inv (fst w)) (pcRun cfg) \<Longrightarrow> inv (fst (world st)) \<Longrightarrow>
     run_rows cfg js results st = (panic, results', st') \<Longrightarrow> inv (fst (world st'))"
proof (induction cfg js results st rule: run_rows.induct)
  case (2 cfg row js results st)
  obtain p r s where j: "runJob (pcRun cfg) (sync_push (pcBackend cfg) (rcNow (pcRun cfg))) (pcCtx cfg) row st = (p, r, s)"
    by (metis prod_cases3)
  have s: "inv (fst (world s))" using runJob_inv j "2.prems" by metis
  show ?case
  proof (cases p)
    case (Some e)
    then have "st' = s" using "2.prems" j by auto
    with s show ?thesis by simp
  next
    case None
    obtain res f where t: "take_result r (fin s) = (res, f)" by fastforce
    from "2.IH" [OF j [symmetric] refl refl None t [symmetric] refl] "2.prems" j None t s show ?thesis by simp
  qed
qed simp

text \<open>One fetch of a pass: the clock is read, and the backend called at that instant.\<close>

lemma one_fetch:
  assumes "keeps (\<lambda>w. inv (fst w)) (pcRun cfg)" "inv (fst (world st))" "read_clock cfg st = (now, st1)"
    "on_store (Fetch B \<lparr>fp_Queue = q, fp_Limit = 100, fp_ClientID = c, fp_Now = now\<rparr>) st1 = (r, st2)"
  shows "inv (fst (world st2)) \<and>
    (\<forall>js. r = Inr js \<longrightarrow> length js \<le> 100 \<and>
       (js = [] \<longrightarrow> no_due q c now (rows (fst (world st2)))) \<and> snd (world st2) = snd (world st1))"
proof -
  let ?p = "\<lparr>fp_Queue = q, fp_Limit = 100, fp_ClientID = c, fp_Now = now\<rparr>"
  obtain w where w: "rcNow (pcRun cfg) (world st) = (now, w)" "st1 = st\<lparr>world := w\<rparr>"
    using assms(3) by (auto simp: read_clock_def split: prod.splits)
  have i1: "inv (fst w)" using assms(1,2) w(1) unfolding keeps_def by (metis snd_conv)
  obtain s' where f: "Fetch B ?p (fst w) = (r, s')" and st2: "st2 = st1\<lparr>world := (s', snd w)\<rparr>"
    using assms(4) w(2) by (auto simp: on_store_def split: prod.splits)
  have "inv s'" using inv_Fetch [OF i1, of ?p] f by simp
  moreover have "length js \<le> 100 \<and> (js = [] \<longrightarrow> no_due q c now (rows s'))"
    if r: "r = Inr js" for js
  proof -
    have l: "fetched ?p (rows (fst w)) js (rows s')" by (rule Fetch_law [OF i1 _ f [unfolded r]]) simp
    have "rows s' = rows (fst w)" if "js = []" using l that unfolding fetched_def by auto
    then show ?thesis using l by (auto simp: fetched_def no_due_def min_def split: if_splits)
  qed
  ultimately show ?thesis using st2 w(2) by simp
qed

lemma drain_queue_post:
  "pcBackend cfg = B \<Longrightarrow> keeps (\<lambda>w. inv (fst w)) (pcRun cfg) \<Longrightarrow> inv (fst (world st)) \<Longrightarrow>
     n \<le> perQueueJobBudget bud \<Longrightarrow> drain_queue bud cfg q n results st = (e, results', st') \<Longrightarrow>
     inv (fst (world st')) \<and> length results' + n \<le> length results + perQueueJobBudget bud + 100 \<and>
     (e = Passed \<longrightarrow> passed_queue rows cfg q st')"
proof (induction bud cfg q n results st rule: drain_queue.induct)
  case (1 bud cfg q n results st)
  note prems = "1.prems"
  obtain now st1 where c: "read_clock cfg st = (now, st1)" by fastforce
  let ?p = "\<lparr>fp_Queue = q, fp_Limit = 100, fp_ClientID = pcClientID cfg, fp_Now = now\<rparr>"
  obtain r st2 where f: "on_store (Fetch B ?p) st1 = (r, st2)" by fastforce
  note one = one_fetch [OF prems(2,3) c f]
  note unf = prems(5) [unfolded drain_queue.simps [of bud cfg q n results st] c prems(1) f Let_def prod.case]
  show ?case
  proof (cases "pcCtxErr cfg (world st)")
    case (Some err)
    then show ?thesis using unf prems(3,4) by auto
  next
    case ctx: None
    show ?thesis
    proof (cases r)
      case (Inl err)
      then show ?thesis using unf ctx one prems(4) by auto
    next
      case (Inr js)
      obtain p results1 st3 where rr: "run_rows cfg js results st2 = (p, results1, st3)" by (metis prod_cases3)
      have inv3: "inv (fst (world st3))" using run_rows_inv [OF prems(1,2) _ rr] one by blast
      obtain new where new: "results1 = results @ new" "p = None \<longrightarrow> length new = length js" "length new \<le> length js"
        using run_rows_results [OF rr] by blast
      have len: "length js \<le> 100" using one Inr by blast
      consider "js = []" | "js \<noteq> []" "p \<noteq> None" | "js \<noteq> []" "p = None" "perQueueJobBudget bud < n + length js"
        | "js \<noteq> []" "p = None" "n + length js \<le> perQueueJobBudget bud" by linarith
      then show ?thesis
      proof cases
        case 1
        then have *: "st' = st2" "results' = results" "e = Passed" using unf ctx Inr by simp_all
        have "passed_queue rows cfg q st2"
          unfolding passed_queue_def using c one Inr 1 by blast
        with * one prems(4) show ?thesis by simp
      next
        case 2
        then show ?thesis using unf ctx Inr rr inv3 new len prems(4) by auto
      next
        case 3
        then show ?thesis using unf ctx Inr rr inv3 new len prems(4) by auto
      next
        case 4
        have "drain_queue bud cfg q (n + length js) results1 st3 = (e, results', st')"
          using unf ctx Inr rr 4 by simp
        from "1.IH" [OF ctx c [symmetric] refl f [folded prems(1), symmetric] refl Inr 4(1) rr [symmetric] refl refl 4(2) _ prems(1,2) inv3 4(3) this] 4 new
        show ?thesis by simp
      qed
    qed
  qed
qed

lemma drain_queues_bound:
  "pcBackend cfg = B \<Longrightarrow> keeps (\<lambda>w. inv (fst w)) (pcRun cfg) \<Longrightarrow> inv (fst (world st)) \<Longrightarrow>
     drain_queues bud cfg qs results st = (e, results', st') \<Longrightarrow>
     inv (fst (world st')) \<and> length results' \<le> length results + length qs * (perQueueJobBudget bud + 100)"
proof (induction bud cfg qs results st rule: drain_queues.induct)
  case (2 bud cfg q qs results st)
  obtain e1 results1 st1 where d: "drain_queue bud cfg q 0 results st = (e1, results1, st1)" by (metis prod_cases3)
  note post = drain_queue_post [OF "2.prems"(1-3) le0 d]
  show ?case
  proof (cases "e1 = Passed")
    case True
    then have "drain_queues bud cfg qs results1 st1 = (e, results', st')" using "2.prems"(4) d by simp
    from "2.IH" [OF d [unfolded True, symmetric] refl refl "2.prems"(1,2) _ this] post show ?thesis by simp
  next
    case False
    then have "(e, results', st') = (e1, results1, st1)" using "2.prems"(4) d by (cases e1) simp_all
    then show ?thesis using post by simp
  qed
qed simp

lemma move_due_loop_inv:
  "pcBackend cfg = B \<Longrightarrow> keeps (\<lambda>w. inv (fst w)) (pcRun cfg) \<Longrightarrow> inv (fst (world st)) \<Longrightarrow>
     move_due_loop n bud cfg st = (e, st') \<Longrightarrow> inv (fst (world st'))"
proof (induction n bud cfg st rule: move_due_loop.induct)
  case (2 n bud cfg st)
  obtain now w where w: "rcNow (pcRun cfg) (world st) = (now, w)" by (metis surj_pair)
  have i1: "inv (fst w)" using "2.prems"(2,3) w unfolding keeps_def by (metis snd_conv)
  let ?p = "\<lparr>mp_Now = now, mp_Limit = moveDueBatch bud\<rparr>"
  obtain r s' where f: "MoveDue B ?p (fst w) = (r, s')" by fastforce
  let ?st1 = "st\<lparr>world := w\<rparr>" and ?st2 = "st\<lparr>world := (s', snd w)\<rparr>"
  have c: "read_clock cfg st = (now, ?st1)" by (simp add: read_clock_def w)
  have o: "on_store (MoveDue (pcBackend cfg) ?p) ?st1 = (r, ?st2)" by (simp add: on_store_def f "2.prems"(1))
  have i2: "inv (fst (world ?st2))" using inv_MoveDue [OF i1, of ?p] f by simp
  note unf = "2.prems"(4) [unfolded move_due_loop.simps c o Let_def prod.case]
  show ?case
  proof (cases r)
    case (Inl err)
    then show ?thesis using unf i2 by auto
  next
    case (Inr m)
    show ?thesis
    proof (cases "m < moveDueBatch bud")
      case True
      then show ?thesis using unf Inr i2 by auto
    next
      case False
      then have "move_due_loop n bud cfg ?st2 = (e, st')" using unf Inr by simp
      from "2.IH" [OF c [symmetric] refl o [symmetric] refl Inr False "2.prems"(1,2) i2 this] show ?thesis .
    qed
  qed
qed simp

lemma process_ready_bound:
  assumes "pcBackend cfg = B" "keeps (\<lambda>w. inv (fst w)) (pcRun cfg)" "inv (fst (world st))"
    "ProcessReady bud has_workers cfg qs st = (e, results, st')"
  shows "inv (fst (world st')) \<and> length results \<le> length qs * (perQueueJobBudget bud + 100)"
proof (cases "has_workers \<and> pcCtxErr cfg (world st) = None \<and> fst (move_due_loop moveDueMaxBatches bud cfg st) = None")
  case False
  obtain x st1 where m: "move_due_loop moveDueMaxBatches bud cfg st = (x, st1)" by fastforce
  show ?thesis
    using assms(3,4) False move_due_loop_inv [OF assms(1-3) m] m
    by (auto simp: ProcessReady_def split: option.splits if_splits)
next
  case True
  obtain st1 where m: "move_due_loop moveDueMaxBatches bud cfg st = (None, st1)"
    using True by (metis prod.collapse)
  let ?st2 = "st1\<lparr>fin := \<lparr>sfDropped = 0, sfLast = None\<rparr>\<rparr>"
  have "inv (fst (world ?st2))" using move_due_loop_inv [OF assms(1-3) m] by simp
  moreover have "drain_queues bud cfg qs [] ?st2 = (e, results, st')"
    using assms(4) True m by (simp add: ProcessReady_def)
  ultimately show ?thesis using drain_queues_bound [OF assms(1,2)] by fastforce
qed

end

subsection \<open>The memory backend\<close>

text \<open>User code may call the storage as it likes, but it cannot break its representation.\<close>

lemma rows_finite: "ids_ok b \<Longrightarrow> finite {i. hit P (jobs b) i}"
  by (rule finite_subset [of _ "set (id_order b)"])
    (auto simp: hit_iff dest: ids_ok_row id_order_ranges [unfolded ranges_def])

text \<open>C36: A pass ends and its work is bounded: whatever the workers enqueue while they run, a pass over the
  queues executes at most the job budget and one more fetch per queue, and keeps the store well formed.\<close>

theorem pass_bounded:
  assumes "pcBackend cfg = mem_backend" "keeps (\<lambda>w. ids_ok (fst w)) (pcRun cfg)" "ids_ok (fst (world st))"
    "ProcessReady bud has_workers cfg qs st = (e, results, st')"
  shows "ids_ok (fst (world st')) \<and> length results \<le> length qs * (perQueueJobBudget bud + 100)"
  by (rule mem_store.process_ready_bound [OF assms])

text \<open>A queue that was passed is drained: at the last reading of the clock no available job of it was due,
  and nothing has touched the rest of the world since.\<close>

theorem queue_drained:
  assumes "pcBackend cfg = mem_backend" "keeps (\<lambda>w. ids_ok (fst w)) (pcRun cfg)" "ids_ok (fst (world st))"
    "n \<le> perQueueJobBudget bud" "drain_queue bud cfg q n results st = (Passed, results', st')"
  shows "\<exists>st0 now st1. read_clock cfg st0 = (now, st1) \<and> snd (world st') = snd (world st1) \<and>
    \<not> (\<exists>i j. jobs (fst (world st')) i = Some j \<and> State j = StateAvailable \<and> Queue j = q \<and> ScheduledAt j \<le> now)"
proof -
  have "ids_ok (fst (world st'))" "passed_queue jobs cfg q st'"
    using mem_store.drain_queue_post [OF assms] by simp_all
  then show ?thesis
    unfolding passed_queue_def no_due_def by (fastforce simp: card_eq_0_iff rows_finite hit_iff due_def)
qed

definition sample_proc :: "(mem, unit) proc_cfg" where
  "sample_proc = \<lparr>pcBackend = mem_backend, pcRun = sample_cfg [] (\<lambda>_. 300) (Returned None), pcClientID = ''w'',
     pcCtxErr = (\<lambda>_. None), pcCtx = Background\<rparr>"

definition sample_pass :: "(mem, unit) proc_state" where
  "sample_pass = \<lparr>world = (sample_store, ()), fin = \<lparr>sfDropped = 0, sfLast = None\<rparr>, active = Map.empty, cells = [],
     wake = False\<rparr>"

lemma sample_keeps: "keeps I (sample_cfg [] (\<lambda>_. t) (Returned None))"
  by (simp add: keeps_def sample_cfg_def workOnce_def dispatch_def chainWork_def call_handler_def split: handler_call.split)

lemma pass_bounded_witness:
  "length (fst (snd (ProcessReady \<lparr>moveDueBatch = 10, perQueueJobBudget = 1\<rparr> True sample_proc [''default''] sample_pass))) \<le> 101"
proof -
  let ?r = "ProcessReady \<lparr>moveDueBatch = 10, perQueueJobBudget = 1\<rparr> True sample_proc [''default''] sample_pass"
  have "?r = (fst ?r, fst (snd ?r), snd (snd ?r))" by simp
  from pass_bounded [OF _ _ _ this]
  show ?thesis by (simp add: sample_proc_def sample_pass_def sample_keeps)
qed

abbreviation sample_budgets :: budgets where
  "sample_budgets \<equiv> \<lparr>moveDueBatch = 10, perQueueJobBudget = 5\<rparr>"

lemma queue_drained_witness:
  "\<exists>now. \<not> (\<exists>i j. jobs (fst (world (snd (snd (drain_queue sample_budgets sample_proc ''default'' 0 [] sample_pass))))) i = Some j \<and>
     State j = StateAvailable \<and> Queue j = ''default'' \<and> ScheduledAt j \<le> now)"
proof -
  let ?r = "drain_queue sample_budgets sample_proc ''default'' 0 [] sample_pass"
  have "fst ?r = Passed" by code_simp
  then have r: "?r = (Passed, fst (snd ?r), snd (snd ?r))" by (metis prod.collapse)
  from queue_drained [OF _ _ _ _ r]
  show ?thesis by (auto simp: sample_proc_def sample_pass_def sample_keeps)
qed

subsection \<open>Outcomes\<close>

fun outcome_stored_as :: "outcome \<Rightarrow> job_state" where
  "outcome_stored_as OutcomeCompleted = StateCompleted"
| "outcome_stored_as OutcomeRetried = StateRetryable"
| "outcome_stored_as OutcomeCancelled = StateCancelled"
| "outcome_stored_as OutcomeDead = StateDead"
| "outcome_stored_as OutcomeSnoozed = StateRetryable"

lemma effect_state: "State (effect now fop j) = outcome_stored_as (fst (outcome_of fop))"
  by (cases fop) (simp_all add: apply_complete_def apply_retry_def apply_cancel_def apply_kill_def apply_snooze_def mergeMeta_def Let_def)

text \<open>The outcome a pass reports is the one it stored: if the execution still holds its row when its
  finalization is pushed, and the instant it carries can be stored, the row has the state of the reported
  outcome when the result is taken, and nothing was dropped.\<close>

theorem reported_outcome_stored:
  assumes "clk w = (now, s, e)" "ids_ok s" "op_storable fop"
    and "jobs s (fst (token fop)) = Some j" "State j = StateRunning" "Generation j = snd (token fop)"
    and "sync_push mem_backend clk fop (w, f) = ((s', e'), f')" "take_result row f' = (res, f'')"
  shows "\<exists>r j'. res = Some r \<and> jrJob r = row \<and> jobs s' (fst (token fop)) = Some j' \<and>
    State j' = outcome_stored_as (jrOutcome r) \<and> sfDropped f'' = sfDropped f"
proof -
  let ?fl = "flush mem_backend (\<lambda>_. endless) now [fop] (s, sfDropped f)"
  have d: "distinct (map token [fop])" "\<forall>x\<in>set [fop]. op_storable x" using assms(3) by simp_all
  have "jobs (fst ?fl) (fst (token fop)) = Some (effect now fop j)"
    using mem_store.flush_delivers [OF assms(2) d _ assms(4)] assms(5,6) by (simp add: running_at_def)
  moreover have "snd ?fl = sfDropped f" using mem_store.flush_round [OF assms(2) d] by blast
  moreover have "s' = fst ?fl" "f' = \<lparr>sfDropped = snd ?fl, sfLast = Some fop\<rparr>"
    using assms(1,7) by (auto simp: sync_push_def split: prod.splits)
  moreover have "res = Some \<lparr>jrJob = row, jrOutcome = fst (outcome_of fop), jrErr = snd (outcome_of fop)\<rparr>"
    "f'' = f'\<lparr>sfLast := None\<rparr>"
    using assms(8) \<open>f' = _\<close> by (auto simp: take_result_def split: prod.splits)
  ultimately show ?thesis by (simp add: effect_state)
qed

lemma reported_outcome_stored_witness:
  "State (the (jobs (fst (fst (sync_push mem_backend (\<lambda>w. (300, w)) (opComplete \<lparr>jf_ID = 1, jf_Generation = 1, jf_Metadata = RawNil\<rparr>)
     ((sample_mid 3, ()), \<lparr>sfDropped = 0, sfLast = None\<rparr>)))) 1)) = StateCompleted"
proof -
  let ?op = "opComplete \<lparr>jf_ID = 1, jf_Generation = 1, jf_Metadata = RawNil\<rparr>"
  let ?x = "sync_push mem_backend (\<lambda>w. (300, w)) ?op ((sample_mid 3, ()), \<lparr>sfDropped = 0, sfLast = None\<rparr>)"
  have "jobs (sample_mid 3) 1 \<noteq> None" "State (the (jobs (sample_mid 3) 1)) = StateRunning"
    "Generation (the (jobs (sample_mid 3) 1)) = 1" by code_simp+
  then obtain j where j: "jobs (sample_mid 3) 1 = Some j" "State j = StateRunning" "Generation j = 1" by auto
  have x: "?x = ((fst (fst ?x), snd (fst ?x)), snd ?x)" by (metis prod.collapse)
  have t: "take_result sample_job (snd ?x) = (fst (take_result sample_job (snd ?x)), snd (take_result sample_job (snd ?x)))" by simp
  have o: "fst (outcome_of ?op) = OutcomeCompleted" by simp
  from reported_outcome_stored [OF refl sample_mid_ids_ok _ _ _ _ x t] j
  obtain r j' where r: "fst (take_result sample_job (snd ?x)) = Some r" "jobs (fst (fst ?x)) 1 = Some j'"
    "State j' = outcome_stored_as (jrOutcome r)" by auto
  have "jrOutcome r = OutcomeCompleted"
    using r(1) by (auto simp: take_result_def sync_push_def split: prod.splits)
  with r show ?thesis by simp
qed

end
