(* ===== verification/Client.thy ===== *)
theory Client
  imports Process_Spec
begin

text \<open>
  \<^verbatim>\<open>client.go\<close>: the configuration with its defaults, and the insertion of jobs.

  A Go map of queues is a list of pairs in the order in which the run ranges over it (Go chooses any).
  Counts (workers, weights, attempts) are unbounded integers; durations are 64-bit words. What the client
  takes from its surroundings are arguments: the host name and the random suffix of its identity, the
  system clock, and, in the world a client runs in, the storage as its first half.
\<close>

subsection \<open>Configuration\<close>

record queue_config =
  qcConcurrency :: int
  qcWeight :: int
  qcPollInterval :: duration

record 'w config =
  cfWorkers :: "'w workers option"
  cfQueues :: "(string \<times> queue_config) list"
  cfMaxWorkers :: int
  cfStrictQueuePriority :: bool
  cfDefaults :: job_options
  cfHeartbeatInterval :: duration
  cfRescueTTL :: duration
  cfMoverInterval :: duration
  cfCleanInterval :: duration
  cfCompletedRetention :: duration
  cfCancelledRetention :: duration
  cfDeadRetention :: duration
  cfWorkerMiddleware :: "'w middleware list"
  cfEnqueueMiddleware :: "('w enqueue_fn \<Rightarrow> 'w enqueue_fn) list"
  cfErrorHandler :: "(ctx \<Rightarrow> job_row \<Rightarrow> go_error option \<Rightarrow> 'w \<Rightarrow> (string \<times> string) option \<times> job_row \<times> 'w) option"
  cfPanicHandler :: "(ctx \<Rightarrow> job_row \<Rightarrow> string \<Rightarrow> string \<Rightarrow> 'w \<Rightarrow> (string \<times> string) option \<times> job_row \<times> 'w) option"
  cfNow :: "('w \<Rightarrow> instant \<times> 'w) option"

definition zero_config :: "'w config" where
  "zero_config = \<lparr>cfWorkers = None, cfQueues = [], cfMaxWorkers = 0, cfStrictQueuePriority = False,
     cfDefaults = zero_options, cfHeartbeatInterval = 0, cfRescueTTL = 0, cfMoverInterval = 0, cfCleanInterval = 0,
     cfCompletedRetention = 0, cfCancelledRetention = 0, cfDeadRetention = 0, cfWorkerMiddleware = [],
     cfEnqueueMiddleware = [], cfErrorHandler = None, cfPanicHandler = None, cfNow = None\<rparr>"

text \<open>The loop over the configured queues, which fills in their defaults or fails.\<close>

definition queue_defaults :: "queue_config \<Rightarrow> queue_config" where
  "queue_defaults q =
     (let q = (if qcWeight q \<le> 0 then q\<lparr>qcWeight := 1\<rparr> else q)
      in if sint (qcPollInterval q) \<le> 0 then q\<lparr>qcPollInterval := 500000000\<rparr> else q)"

fun check_queues :: "(string \<times> queue_config) list \<Rightarrow> go_error + (string \<times> queue_config) list" where
  "check_queues [] = Inr []"
| "check_queues ((name, q) # qs) =
     (if qcConcurrency q \<le> 0 then Inl (ErrorString (''goque: queue '' @ name @ '' needs Concurrency > 0''))
      else case check_queues qs of
        Inl e \<Rightarrow> Inl e
      | Inr qs' \<Rightarrow> Inr ((name, queue_defaults q) # qs'))"

text \<open>The default jitter is the \<^verbatim>\<open>float64\<close> nearest to one tenth.\<close>

definition default_policy :: retry_policy where
  "default_policy = Exponential 2000000000 900000000000 (3602879701896397 / 36028797018963968)"

definition option_defaults :: "job_options \<Rightarrow> job_options" where
  "option_defaults d =
     (let d = (if oQueue d = [] then d\<lparr>oQueue := ''default''\<rparr> else d);
          d = (if oMaxAttempts d = 0 then d\<lparr>oMaxAttempts := 25\<rparr> else d)
      in if oRetryPolicy d = None then d\<lparr>oRetryPolicy := Some default_policy\<rparr> else d)"

definition or_default :: "duration \<Rightarrow> duration \<Rightarrow> duration" where
  "or_default d x = (if x = 0 then d else x)"

definition config_defaults :: "'w config \<Rightarrow> 'w config" where
  "config_defaults cfg =
     (let cfg = cfg\<lparr>cfDefaults := option_defaults (cfDefaults cfg)\<rparr>;
          cfg = (if cfMaxWorkers cfg = 0
                 then cfg\<lparr>cfMaxWorkers := foldl (\<lambda>n (name, q). n + qcConcurrency q) 0 (cfQueues cfg)\<rparr> else cfg);
          cfg = cfg\<lparr>cfHeartbeatInterval := or_default 30000000000 (cfHeartbeatInterval cfg)\<rparr>;
          cfg = cfg\<lparr>cfRescueTTL := or_default (3 * cfHeartbeatInterval cfg) (cfRescueTTL cfg)\<rparr>;
          cfg = cfg\<lparr>cfMoverInterval := or_default 1000000000 (cfMoverInterval cfg)\<rparr>;
          cfg = cfg\<lparr>cfCleanInterval := or_default 60000000000 (cfCleanInterval cfg)\<rparr>;
          cfg = cfg\<lparr>cfCompletedRetention := or_default 86400000000000 (cfCompletedRetention cfg)\<rparr>;
          cfg = cfg\<lparr>cfCancelledRetention := or_default 604800000000000 (cfCancelledRetention cfg)\<rparr>
      in cfg\<lparr>cfDeadRetention := or_default 604800000000000 (cfDeadRetention cfg)\<rparr>)"

subsection \<open>The client\<close>

text \<open>
  What a client keeps of its configuration is fixed; \<open>clNow\<close> and \<open>clEnqueue\<close> are the two functions behind
  its atomic pointers, which a fake may exchange; the second reads the client's clock when it is called, so
  it takes the clock as an argument.
\<close>

record ('s, 'e) client =
  clBackend :: "'s backend"
  clWorkers :: "('s \<times> 'e) workers option"
  clCfg :: "('s \<times> 'e) config"
  clID :: string
  clNow :: "'s \<times> 'e \<Rightarrow> instant \<times> ('s \<times> 'e)"
  clEnqueue :: "('s \<times> 'e \<Rightarrow> instant \<times> ('s \<times> 'e)) \<Rightarrow> ('s \<times> 'e) enqueue_fn"

definition backend_enqueue ::
  "'s backend \<Rightarrow> ('s \<times> 'e \<Rightarrow> instant \<times> ('s \<times> 'e)) \<Rightarrow> ('s \<times> 'e) enqueue_fn" where
  "backend_enqueue B now rs w =
     (let (t, w) = now w; (r, s) = Enqueue B \<lparr>ep_Jobs = rs, ep_Now = t\<rparr> (fst w) in (r, (s, snd w)))"

definition NewClient ::
  "('s \<times> 'e \<Rightarrow> instant \<times> ('s \<times> 'e)) \<Rightarrow> string \<Rightarrow> string \<Rightarrow> 's backend option \<Rightarrow> ('s \<times> 'e) config option
   \<Rightarrow> go_error + ('s, 'e) client" where
  "NewClient time_Now host suffix b cfgPtr =
     (case b of
        None \<Rightarrow> Inl (ErrorString ''goque: backend is required'')
      | Some b \<Rightarrow>
          (let cfg = (case cfgPtr of None \<Rightarrow> zero_config | Some cfg \<Rightarrow> cfg) in
           case check_queues (cfQueues cfg) of
             Inl e \<Rightarrow> Inl e
           | Inr queues \<Rightarrow>
               (let cfg = config_defaults (cfg\<lparr>cfQueues := queues\<rparr>);
                    nowFn = (case cfNow cfg of None \<Rightarrow> time_Now | Some fn \<Rightarrow> fn)
                in Inr \<lparr>clBackend = b, clWorkers = cfWorkers cfg, clCfg = cfg, clID = host @ ''-'' @ suffix,
                        clNow = nowFn, clEnqueue = (\<lambda>now. chainEnqueue (cfEnqueueMiddleware cfg) (backend_enqueue b now))\<rparr>)))"

subsection \<open>Inserting jobs\<close>

record enqueue_result =
  erJob :: job_row
  erSkipped :: bool

record insert_params =
  ipArgs :: job_args
  ipOpts :: "enqueue_option list"

text \<open>The clock is read once per job.\<close>

fun buildRows :: "fmt \<Rightarrow> ('s, 'e) client \<Rightarrow> insert_params list \<Rightarrow> 's \<times> 'e \<Rightarrow> (go_error + job_row list) \<times> ('s \<times> 'e)" where
  "buildRows F c [] w = (Inr [], w)"
| "buildRows F c (p # ps) w =
     (let resolved = resolveOptions (cfDefaults (clCfg c)) (kindOptions (ipArgs p)) (ipOpts p);
          (t, w) = clNow c w
      in case buildRow F (ipArgs p) resolved t of
           Inl err \<Rightarrow> (Inl err, w)
         | Inr row \<Rightarrow>
             (case buildRows F c ps w of
                (Inl err, w) \<Rightarrow> (Inl err, w)
              | (Inr rows, w) \<Rightarrow> (Inr (row # rows), w)))"

definition EnqueueMany ::
  "fmt \<Rightarrow> ('s, 'e) client \<Rightarrow> insert_params list \<Rightarrow> 's \<times> 'e \<Rightarrow> (go_error + enqueue_result list) \<times> ('s \<times> 'e)" where
  "EnqueueMany F c params w =
     (case buildRows F c params w of
        (Inl err, w) \<Rightarrow> (Inl err, w)
      | (Inr rows, w) \<Rightarrow>
          (case clEnqueue c (clNow c) rows w of
             (Inl err, w) \<Rightarrow> (Inl err, w)
           | (Inr rows, w) \<Rightarrow> (Inr (map (\<lambda>r. \<lparr>erJob = r, erSkipped = False\<rparr>) rows), w)))"

definition EnqueueOne ::
  "fmt \<Rightarrow> ('s, 'e) client \<Rightarrow> job_args \<Rightarrow> enqueue_option list \<Rightarrow> 's \<times> 'e \<Rightarrow> (go_error + enqueue_result) \<times> ('s \<times> 'e)" where
  "EnqueueOne F c args opts w =
     (case EnqueueMany F c [\<lparr>ipArgs = args, ipOpts = opts\<rparr>] w of
        (Inl err, w) \<Rightarrow> (Inl err, w)
      | (Inr (r # res), w) \<Rightarrow> (Inr r, w)
      | (Inr [], w) \<Rightarrow> (Inl (PanicError ''index out of range [0] with length 0'' []), w))"

end
