(* ===== verification/Client_Spec.thy ===== *)
theory Client_Spec
  imports Client
begin

text \<open>
  What \<^verbatim>\<open>NewClient\<close> guarantees of a configuration, and that inserting a batch is all or nothing. The
  clock of a client may change the rest of the world when it is read, but not the storage.
\<close>

subsection \<open>Configuration\<close>

lemma check_queues_Inr:
  "check_queues qs = Inr qs' \<longleftrightarrow>
     (\<forall>(n, q)\<in>set qs. 0 < qcConcurrency q) \<and> qs' = map (\<lambda>(n, q). (n, queue_defaults q)) qs"
proof (induction qs arbitrary: qs')
  case (Cons x qs)
  then show ?case by (cases x; cases "check_queues qs") (auto split: if_splits)
qed auto

lemma check_queues_Inl:
  "check_queues qs = Inl e \<Longrightarrow> \<exists>(n, q)\<in>set qs. qcConcurrency q \<le> 0 \<and> e = ErrorString (''goque: queue '' @ n @ '' needs Concurrency > 0'')"
  by (induction qs) (auto split: sum.splits if_splits)

lemma queue_defaults_fields [simp]:
  "qcConcurrency (queue_defaults q) = qcConcurrency q"
  "qcWeight (queue_defaults q) = (if qcWeight q \<le> 0 then 1 else qcWeight q)"
  "qcPollInterval (queue_defaults q) = (if sint (qcPollInterval q) \<le> 0 then 500000000 else qcPollInterval q)"
  by (simp_all add: queue_defaults_def Let_def)

lemma option_defaults_fields [simp]:
  "oQueue (option_defaults d) = (if oQueue d = [] then ''default'' else oQueue d)"
  "oMaxAttempts (option_defaults d) = (if oMaxAttempts d = 0 then 25 else oMaxAttempts d)"
  "oRetryPolicy (option_defaults d) = (if oRetryPolicy d = None then Some default_policy else oRetryPolicy d)"
  by (simp_all add: option_defaults_def Let_def)

lemma config_defaults_fields [simp]:
  "cfQueues (config_defaults cfg) = cfQueues cfg"
  "cfDefaults (config_defaults cfg) = option_defaults (cfDefaults cfg)"
  "cfNow (config_defaults cfg) = cfNow cfg"
  "cfWorkers (config_defaults cfg) = cfWorkers cfg"
  "cfEnqueueMiddleware (config_defaults cfg) = cfEnqueueMiddleware cfg"
  "cfHeartbeatInterval (config_defaults cfg) = or_default 30000000000 (cfHeartbeatInterval cfg)"
  "cfRescueTTL (config_defaults cfg) = or_default (3 * or_default 30000000000 (cfHeartbeatInterval cfg)) (cfRescueTTL cfg)"
  by (simp_all add: config_defaults_def Let_def)

lemma sum_concurrency: "foldl (\<lambda>n (name, q). n + qcConcurrency q) k qs = k + sum_list (map (qcConcurrency \<circ> snd) qs)"
  by (induction qs arbitrary: k) (auto simp: case_prod_beta)

lemma config_defaults_workers:
  "cfMaxWorkers (config_defaults cfg) =
     (if cfMaxWorkers cfg = 0 then sum_list (map (qcConcurrency \<circ> snd) (cfQueues cfg)) else cfMaxWorkers cfg)"
  by (simp add: config_defaults_def Let_def sum_concurrency)

definition given :: "'w config option \<Rightarrow> 'w config" where
  "given cfgPtr = (case cfgPtr of None \<Rightarrow> zero_config | Some cfg \<Rightarrow> cfg)"


definition sample_config :: "(mem \<times> unit) config" where
  "sample_config = zero_config\<lparr>cfQueues := [(''default'', \<lparr>qcConcurrency = 4, qcWeight = 0, qcPollInterval = 0\<rparr>)]\<rparr>"

definition sample_client :: "(mem, unit) client" where
  "sample_client = projr (NewClient (\<lambda>w. (100, w)) ''host'' ''00ff'' (Some mem_backend) (Some sample_config))"

lemma sample_client: "NewClient (\<lambda>w. (100, w)) ''host'' ''00ff'' (Some mem_backend) (Some sample_config) = Inr sample_client"
  by (simp add: sample_client_def NewClient_def sample_config_def Let_def)


subsection \<open>Inserting jobs\<close>

text \<open>The clock of a client leaves the storage alone.\<close>

definition clock_apart :: "('s, 'e) client \<Rightarrow> bool" where
  "clock_apart c \<longleftrightarrow> (\<forall>w. fst (snd (clNow c w)) = fst w)"

text \<open>The options one entry of a batch resolves to.\<close>

definition resolved :: "('s, 'e) client \<Rightarrow> insert_params \<Rightarrow> job_options" where
  "resolved c p = resolveOptions (cfDefaults (clCfg c)) (kindOptions (ipArgs p)) (ipOpts p)"

lemma buildRows_built:
  assumes "clock_apart c" "buildRows F c ps w = (r, w')"
  shows "fst w' = fst w \<and> (case r of
      Inl err \<Rightarrow> \<exists>p\<in>set ps. \<exists>t. buildRow F (ipArgs p) (resolved c p) t = Inl err
    | Inr js \<Rightarrow> list_all2 (\<lambda>p j. \<exists>t. buildRow F (ipArgs p) (resolved c p) t = Inr j) ps js)"
  using assms(2)
proof (induction ps arbitrary: w r w')
  case (Cons p ps)
  obtain t w1 where t: "clNow c w = (t, w1)" by (metis surj_pair)
  have w1: "fst w1 = fst w" using assms(1) t unfolding clock_apart_def by (metis snd_conv)
  obtain r2 w2 where rest: "buildRows F c ps w1 = (r2, w2)" by (metis surj_pair)
  note ih = Cons.IH [OF rest]
  show ?case
    using Cons.prems t w1 rest ih
    by (auto simp: resolved_def Let_def split: sum.splits)
qed simp

lemma buildRow_fields:
  "buildRow F args r t = Inr j \<Longrightarrow> Kind j = aKind args \<and> Queue j = oQueue r \<and> MaxAttempts j = oMaxAttempts r \<and>
     aPayload args = Inr (Payload j) \<and> Attempt j = 0 \<and> Generation j = 0"
  by (auto simp: buildRow_def Let_def zero_row_def split: if_splits sum.splits option.splits)

text \<open>Inserting a batch is all or nothing: with the memory backend and no enqueue middleware, a call that
  fails (for one job's options, or an instant that cannot be stored) stores none of its jobs, and a call that
  succeeds stores exactly its jobs, in order under the next IDs, each with what its options resolved to.\<close>

theorem EnqueueMany_atomic:
  assumes "clock_apart c" "clEnqueue c = (\<lambda>now. chainEnqueue [] (backend_enqueue mem_backend now))"
    "EnqueueMany F c ps w = (r, w')"
  shows "case r of
    Inl err \<Rightarrow> fst w' = fst w
  | Inr res \<Rightarrow>
      length res = length ps \<and> nextID (fst w') = nextID (fst w) + int (length ps) \<and>
      (\<forall>i. \<not> (nextID (fst w) < i \<and> i \<le> nextID (fst w')) \<longrightarrow> jobs (fst w') i = jobs (fst w) i) \<and>
      (\<forall>k<length ps. let j = erJob (res ! k) in
         ID j = nextID (fst w) + int k + 1 \<and> jobs (fst w') (ID j) = Some j \<and>
         Kind j = aKind (ipArgs (ps ! k)) \<and> Queue j = oQueue (resolved c (ps ! k)) \<and>
         MaxAttempts j = oMaxAttempts (resolved c (ps ! k)) \<and> aPayload (ipArgs (ps ! k)) = Inr (Payload j) \<and>
         Attempt j = 0 \<and> State j \<in> {StateScheduled, StateAvailable})"
proof -
  obtain b w1 where b: "buildRows F c ps w = (b, w1)" by (metis surj_pair)
  note built = buildRows_built [OF assms(1) b]
  show ?thesis
  proof (cases b)
    case (Inl err)
    then show ?thesis using assms(3) b built by (auto simp: EnqueueMany_def)
  next
    case (Inr js)
    obtain t w2 where t: "clNow c w1 = (t, w2)" by (metis surj_pair)
    have w2: "fst w2 = fst w" using assms(1) t built unfolding clock_apart_def by (metis snd_conv)
    let ?p = "\<lparr>ep_Jobs = js, ep_Now = t\<rparr>"
    obtain e b' where m: "mem_Enqueue ?p (fst w) = (e, b')" by (metis surj_pair)
    have r: "(r, w') = (map_sum id (map (\<lambda>j. \<lparr>erJob = j, erSkipped = False\<rparr>)) e, (b', snd w2))"
      using assms(2,3) b Inr t w2 m
      by (cases e) (simp_all add: EnqueueMany_def backend_enqueue_def mem_backend_def)
    have all2: "list_all2 (\<lambda>p j. \<exists>t. buildRow F (ipArgs p) (resolved c p) t = Inr j) ps js"
      using built Inr by simp
    show ?thesis
    proof (cases rule: Enqueue_cases [of ?p "fst w"])
      case (bad err)
      then show ?thesis using m r by auto
    next
      case (good out b2)
      have eq: "e = Inr out" "b2 = b'" using m good(1) by auto
      have n: "length out = length ps" using good(2) all2 by (simp add: list_all2_lengthD)
      have "let j = out ! k in
         ID j = nextID (fst w) + int k + 1 \<and> jobs b' (ID j) = Some j \<and>
         Kind j = aKind (ipArgs (ps ! k)) \<and> Queue j = oQueue (resolved c (ps ! k)) \<and>
         MaxAttempts j = oMaxAttempts (resolved c (ps ! k)) \<and> aPayload (ipArgs (ps ! k)) = Inr (Payload j) \<and>
         Attempt j = 0 \<and> State j \<in> {StateScheduled, StateAvailable}" if k: "k < length ps" for k
      proof -
        obtain t' where "buildRow F (ipArgs (ps ! k)) (resolved c (ps ! k)) t' = Inr (js ! k)"
          using all2 k by (auto simp: list_all2_conv_all_nth)
        note f = buildRow_fields [OF this]
        have o: "out ! k = stamp_row t (nextID (fst w) + int k + 1) (sched t (js ! k) - sint (PriorityBoost (js ! k))) (js ! k)"
          using good(4) [of k] k n by simp
        have "jobs b' (nextID (fst w) + int k + 1) = Some (out ! k)"
          using good(3) good(5) [of "nextID (fst w) + int k + 1"] k n eq(2) by simp
        then show ?thesis using f o by (simp add: stamp_row_eq Let_def)
      qed
      then show ?thesis
        using r eq n good(3,5) by (auto simp: Let_def)
    qed
  qed
qed

lemma EnqueueMany_atomic_witness:
  "\<exists>res w'. EnqueueMany sample_fmt sample_client
      [\<lparr>ipArgs = \<lparr>aKind = ''email'', aPayload = Inr (RawJson (JObj [])), aJobOptions = None, aPriority = None\<rparr>, ipOpts = []\<rparr>]
      (sample_store, ()) = (Inr res, w') \<and>
    length res = 1 \<and> Kind (erJob (res ! 0)) = ''email'' \<and> jobs (fst w') 3 = Some (erJob (res ! 0))"
proof -
  let ?ps = "[\<lparr>ipArgs = \<lparr>aKind = ''email'', aPayload = Inr (RawJson (JObj [])), aJobOptions = None, aPriority = None\<rparr>, ipOpts = []\<rparr>]"
  let ?r = "EnqueueMany sample_fmt sample_client ?ps (sample_store, ())"
  have ok: "\<not> isl (fst ?r)" by code_simp
  then obtain res w' where r: "?r = (Inr res, w')" by (metis prod.collapse sum.collapse(2))
  have n: "nextID sample_store = 2" by code_simp
  have "clock_apart sample_client" "clEnqueue sample_client = (\<lambda>now. chainEnqueue [] (backend_enqueue mem_backend now))"
    by (simp_all add: clock_apart_def sample_client_def NewClient_def sample_config_def zero_config_def Let_def)
  from EnqueueMany_atomic [OF this r]
  have "length res = 1" "Kind (erJob (res ! 0)) = ''email''" "jobs (fst w') 3 = Some (erJob (res ! 0))"
    by (auto simp: n Let_def)
  with r show ?thesis by blast
qed

end
