(* ===== verification/Dispatcher.thy ===== *)
theory Dispatcher
  imports Client_Spec
begin

text \<open>
  \<^verbatim>\<open>dispatcher.go\<close>: the loop that claims work for the configured queues, and the heartbeat loop.

  \<open>dispatch_step\<close> is the dispatch loop with the job goroutines it starts, one step per access to a shared
  counter, so that executions may end between any two of them; the storage may be changed by others at any
  time, within the states \<open>good\<close> describes. The counters are unbounded integers.
\<close>

subsection \<open>Queues and demands\<close>

record queueState =
  qsName :: string
  qsCfg :: queue_config
  qsRunning :: int
  qsCredit :: int

text \<open>
  A demand points to its queue by the index in the client's list. \<open>start_queues\<close> is the list that \<^verbatim>\<open>Start\<close>
  builds: \<^verbatim>\<open>slices.SortFunc\<close> is free to arrange equal weights, as the map's order is free before it.
\<close>

record demand =
  dQ :: nat
  dFree :: int

definition start_queues :: "(string \<times> queue_config) list \<Rightarrow> queueState list" where
  "start_queues qs =
     sort_key (\<lambda>q. - qcWeight (qsCfg q))
       (map (\<lambda>(name, qc). \<lparr>qsName = name, qsCfg = qc, qsRunning = 0, qsCredit = 0\<rparr>) qs)"

definition poll_base :: "queueState list \<Rightarrow> int" where
  "poll_base qs =
     foldl (\<lambda>base q. if sint (qcPollInterval (qsCfg q)) < base then sint (qcPollInterval (qsCfg q)) else base)
       (sint (qcPollInterval (qsCfg (qs ! 0)))) qs"

abbreviation weight :: "queueState list \<Rightarrow> nat \<Rightarrow> int" where
  "weight qs i \<equiv> qcWeight (qsCfg (qs ! i))"

abbreviation concurrency :: "queueState list \<Rightarrow> nat \<Rightarrow> int" where
  "concurrency qs i \<equiv> qcConcurrency (qsCfg (qs ! i))"

definition add_credit :: "int \<Rightarrow> nat \<Rightarrow> queueState list \<Rightarrow> queueState list" where
  "add_credit n i qs = qs[i := (qs ! i)\<lparr>qsCredit := qsCredit (qs ! i) + n\<rparr>]"

definition add_running :: "int \<Rightarrow> nat \<Rightarrow> queueState list \<Rightarrow> queueState list" where
  "add_running n i qs = qs[i := (qs ! i)\<lparr>qsRunning := qsRunning (qs ! i) + n\<rparr>]"

text \<open>One round of the smooth weighted round-robin: every demand is credited, the demands are put in the
  order of their credit, and the first pays for all.\<close>

definition credit_key :: "queueState list \<Rightarrow> demand \<Rightarrow> int \<times> string" where
  "credit_key qs d = (- qsCredit (qs ! dQ d), qsName (qs ! dQ d))"

definition credit_round :: "int \<Rightarrow> demand list \<Rightarrow> queueState list \<Rightarrow> demand list \<times> queueState list" where
  "credit_round totalWeight ds qs =
     (let qs = foldl (\<lambda>qs d. add_credit (weight qs (dQ d)) (dQ d) qs) qs ds;
          ds = sort_key (credit_key qs) ds
      in (ds, add_credit (- totalWeight) (dQ (hd ds)) qs))"

text \<open>How many jobs a demand may claim. The operands of the division are positive.\<close>

record dispatch_cfg =
  dcMaxWorkers :: int
  dcStrict :: bool
  dcClientID :: string

definition quota :: "dispatch_cfg \<Rightarrow> int \<Rightarrow> int \<Rightarrow> int \<Rightarrow> int" where
  "quota cfg globalFree totalWeight w =
     (if dcStrict cfg then globalFree else (globalFree * w + totalWeight - 1) div totalWeight)"

definition fetch_limit :: "dispatch_cfg \<Rightarrow> int \<Rightarrow> int \<Rightarrow> queueState list \<Rightarrow> demand \<Rightarrow> int" where
  "fetch_limit cfg globalFree totalWeight qs d =
     min (quota cfg globalFree totalWeight (weight qs (dQ d))) (min (dFree d) globalFree)"

subsection \<open>The dispatch loop\<close>

text \<open>
  Where the loop is: between two rounds; reading the queues' counters, with the index of the next one, the
  demands and the sum of their weights; serving the demands that are left; starting the rows of a fetch.
\<close>

datatype dispatch_pc =
    Between
  | Gathering int nat "demand list" int
  | Serving int int "demand list"
  | Launching int int "demand list" nat "job_row list"

text \<open>
  \<open>executing\<close> holds the rows in \<^verbatim>\<open>runJob\<close> with the index of their queue, \<open>leaving\<close> those whose goroutine has
  lowered the global counter and not yet its queue's.
\<close>

record 's dispatch =
  dsQueues :: "queueState list"
  dsGlobal :: int
  dsPc :: dispatch_pc
  executing :: "(nat \<times> job_row) multiset"
  leaving :: "nat multiset"
  dsStore :: 's

definition start_dispatch :: "(string \<times> queue_config) list \<Rightarrow> 's \<Rightarrow> 's dispatch" where
  "start_dispatch qs st = \<lparr>dsQueues = start_queues qs, dsGlobal = 0, dsPc = Between, executing = {#}, leaving = {#},
     dsStore = st\<rparr>"

definition look :: "dispatch_cfg \<Rightarrow> 's dispatch \<Rightarrow> 's dispatch" where
  "look cfg s =
     (let globalFree = dcMaxWorkers cfg - dsGlobal s
      in s\<lparr>dsPc := if globalFree \<le> 0 then Between else Gathering globalFree 0 [] 0\<rparr>)"

definition gather :: "int \<Rightarrow> nat \<Rightarrow> demand list \<Rightarrow> int \<Rightarrow> 's dispatch \<Rightarrow> 's dispatch" where
  "gather globalFree i ds totalWeight s =
     (let q = dsQueues s ! i; free = qcConcurrency (qsCfg q) - qsRunning q
      in if 0 < free
         then s\<lparr>dsPc := Gathering globalFree (i + 1) (ds @ [\<lparr>dQ = i, dFree = free\<rparr>]) (totalWeight + qcWeight (qsCfg q))\<rparr>
         else s\<lparr>dsPc := Gathering globalFree (i + 1) ds totalWeight\<rparr>)"

definition arrange :: "dispatch_cfg \<Rightarrow> int \<Rightarrow> demand list \<Rightarrow> int \<Rightarrow> 's dispatch \<Rightarrow> 's dispatch" where
  "arrange cfg globalFree ds totalWeight s =
     (if \<not> dcStrict cfg \<and> ds \<noteq> []
      then (let (ds, qs) = credit_round totalWeight ds (dsQueues s)
            in s\<lparr>dsQueues := qs, dsPc := Serving globalFree totalWeight ds\<rparr>)
      else s\<lparr>dsPc := Serving globalFree totalWeight ds\<rparr>)"

inductive dispatch_step ::
  "'s backend \<Rightarrow> ('s \<Rightarrow> bool) \<Rightarrow> dispatch_cfg \<Rightarrow> 's dispatch \<Rightarrow> 's dispatch \<Rightarrow> bool"
  for B :: "'s backend" and good :: "'s \<Rightarrow> bool" and cfg :: dispatch_cfg where
  Look: "dsPc s = Between \<Longrightarrow> dispatch_step B good cfg s (look cfg s)"
| Gather: "dsPc s = Gathering gf i ds tw \<Longrightarrow> i < length (dsQueues s) \<Longrightarrow>
     dispatch_step B good cfg s (gather gf i ds tw s)"
| Arrange: "dsPc s = Gathering gf i ds tw \<Longrightarrow> length (dsQueues s) \<le> i \<Longrightarrow>
     dispatch_step B good cfg s (arrange cfg gf ds tw s)"
| Skip: "dsPc s = Serving gf tw (d # ds) \<Longrightarrow> fetch_limit cfg gf tw (dsQueues s) d \<le> 0 \<Longrightarrow>
     dispatch_step B good cfg s (s\<lparr>dsPc := Serving gf tw ds\<rparr>)"
| FetchFails: "dsPc s = Serving gf tw (d # ds) \<Longrightarrow> 0 < fetch_limit cfg gf tw (dsQueues s) d \<Longrightarrow>
     Fetch B \<lparr>fp_Queue = qsName (dsQueues s ! dQ d), fp_Limit = fetch_limit cfg gf tw (dsQueues s) d,
       fp_ClientID = dcClientID cfg, fp_Now = now\<rparr> (dsStore s) = (Inl err, st) \<Longrightarrow>
     dispatch_step B good cfg s (s\<lparr>dsPc := Serving gf tw ds, dsStore := st\<rparr>)"
| FetchRows: "dsPc s = Serving gf tw (d # ds) \<Longrightarrow> 0 < fetch_limit cfg gf tw (dsQueues s) d \<Longrightarrow>
     Fetch B \<lparr>fp_Queue = qsName (dsQueues s ! dQ d), fp_Limit = fetch_limit cfg gf tw (dsQueues s) d,
       fp_ClientID = dcClientID cfg, fp_Now = now\<rparr> (dsStore s) = (Inr js, st) \<Longrightarrow>
     dispatch_step B good cfg s
       (s\<lparr>dsPc := Launching (gf - int (length js)) tw ds (dQ d) js, dsStore := st\<rparr>)"
| Launch: "dsPc s = Launching gf tw ds i (j # js) \<Longrightarrow>
     dispatch_step B good cfg s
       (s\<lparr>dsPc := Launching gf tw ds i js, dsQueues := add_running 1 i (dsQueues s), dsGlobal := dsGlobal s + 1,
          executing := add_mset (i, j) (executing s)\<rparr>)"
| Launched: "dsPc s = Launching gf tw ds i [] \<Longrightarrow>
     dispatch_step B good cfg s (s\<lparr>dsPc := if gf \<le> 0 then Between else Serving gf tw ds\<rparr>)"
| Served: "dsPc s = Serving gf tw [] \<Longrightarrow> dispatch_step B good cfg s (s\<lparr>dsPc := Between\<rparr>)"
| Leave: "(i, j) \<in># executing s \<Longrightarrow>
     dispatch_step B good cfg s
       (s\<lparr>dsGlobal := dsGlobal s - 1, executing := executing s - {#(i, j)#}, leaving := add_mset i (leaving s)\<rparr>)"
| Left: "i \<in># leaving s \<Longrightarrow>
     dispatch_step B good cfg s (s\<lparr>dsQueues := add_running (- 1) i (dsQueues s), leaving := leaving s - {#i#}\<rparr>)"
| Others: "good st \<Longrightarrow> dispatch_step B good cfg s (s\<lparr>dsStore := st\<rparr>)"

inductive dispatch_reach ::
  "'s backend \<Rightarrow> ('s \<Rightarrow> bool) \<Rightarrow> dispatch_cfg \<Rightarrow> (string \<times> queue_config) list \<Rightarrow> 's dispatch \<Rightarrow> bool"
  for B good cfg qs where
  Started: "good st \<Longrightarrow> dispatch_reach B good cfg qs (start_dispatch qs st)"
| Stepped: "dispatch_reach B good cfg qs s \<Longrightarrow> dispatch_step B good cfg s s' \<Longrightarrow> dispatch_reach B good cfg qs s'"

subsection \<open>Heartbeats and fencing\<close>

text \<open>
  One tick of the heartbeat loop in its two halves: what it sends, and what it does with the answer; other
  goroutines may run in between. \<open>ord\<close> is the order in which the run ranges over the \<^verbatim>\<open>sync.Map\<close>.
\<close>

definition heartbeat_jobs :: "int list \<Rightarrow> ('w, 'f) run_state \<Rightarrow> job_heartbeat list" where
  "heartbeat_jobs ord s =
     List.map_filter (\<lambda>i. map_option (\<lambda>p. \<lparr>jh_ID = i, jh_Generation = generation (cells s ! p)\<rparr>) (active s i)) ord"

definition cancel_cell :: "nat \<Rightarrow> ('w, 'f) run_state \<Rightarrow> ('w, 'f) run_state" where
  "cancel_cell p s = s\<lparr>cells := (cells s)[p := (cells s ! p)\<lparr>cancelled := True\<rparr>]\<rparr>"

definition fence_cell :: "nat \<Rightarrow> ('w, 'f) run_state \<Rightarrow> ('w, 'f) run_state" where
  "fence_cell p s = cancel_cell p (s\<lparr>cells := (cells s)[p := (cells s ! p)\<lparr>fenced := True\<rparr>]\<rparr>)"

definition with_active :: "(nat \<Rightarrow> ('w, 'f) run_state \<Rightarrow> ('w, 'f) run_state) \<Rightarrow> int \<Rightarrow> ('w, 'f) run_state \<Rightarrow> ('w, 'f) run_state" where
  "with_active f i s = (case active s i of None \<Rightarrow> s | Some p \<Rightarrow> f p s)"

definition cancelActive :: "int list \<Rightarrow> ('w, 'f) run_state \<Rightarrow> ('w, 'f) run_state" where
  "cancelActive ord s = foldl (\<lambda>s i. with_active cancel_cell i s) s ord"

definition fenceActive :: "int list \<Rightarrow> ('w, 'f) run_state \<Rightarrow> ('w, 'f) run_state" where
  "fenceActive ord s = foldl (\<lambda>s i. with_active fence_cell i s) s ord"

definition heartbeat_react ::
  "int list \<Rightarrow> (go_error + int list) option \<Rightarrow> nat \<Rightarrow> ('w, 'f) run_state \<Rightarrow> nat \<times> ('w, 'f) run_state" where
  "heartbeat_react ord answer failures s =
     (case answer of
        None \<Rightarrow> (0, s)
      | Some (Inl err) \<Rightarrow>
          if 3 \<le> failures + 1 then (0, fenceActive ord s) else (failures + 1, s)
      | Some (Inr ids) \<Rightarrow> (0, foldl (\<lambda>s i. with_active cancel_cell i s) s ids))"

text \<open>\<open>None\<close> is the tick that finds no active job and sends nothing.\<close>

definition heartbeat_send ::
  "'s backend \<Rightarrow> string \<Rightarrow> instant \<Rightarrow> int list \<Rightarrow> ('w, 'f) run_state \<Rightarrow> 's \<Rightarrow> (go_error + int list) option \<times> 's" where
  "heartbeat_send B clientID now ord s st =
     (let js = heartbeat_jobs ord s
      in if js = [] then (None, st)
         else (let (r, st) = Heartbeat B \<lparr>hp_ClientID = clientID, hp_Jobs = js, hp_Now = now\<rparr> st in (Some r, st)))"

subsection \<open>Maintenance\<close>

text \<open>The call each maintenance loop makes on a tick; its result only reaches the log.\<close>

datatype maintenance = Mover | Rescuer | Cleaner

fun maintenance_call :: "'w config \<Rightarrow> maintenance \<Rightarrow> 's backend \<Rightarrow> instant \<Rightarrow> 's \<Rightarrow> (go_error + int) \<times> 's" where
  "maintenance_call cfg Mover B now st = MoveDue B \<lparr>mp_Now = now, mp_Limit = 1000\<rparr> st"
| "maintenance_call cfg Rescuer B now st = RescueStale B \<lparr>sr_Now = now, sr_TTL = cfRescueTTL cfg, sr_Limit = 1000\<rparr> st"
| "maintenance_call cfg Cleaner B now st =
     Clean B \<lparr>cl_Now = now, cl_CompletedRetention = cfCompletedRetention cfg,
       cl_CancelledRetention = cfCancelledRetention cfg, cl_DeadRetention = cfDeadRetention cfg, cl_Limit = 1000\<rparr> st"

fun maintenance_interval :: "'w config \<Rightarrow> maintenance \<Rightarrow> duration" where
  "maintenance_interval cfg Mover = cfMoverInterval cfg"
| "maintenance_interval cfg Rescuer = cfHeartbeatInterval cfg"
| "maintenance_interval cfg Cleaner = cfCleanInterval cfg"

end
