(* ===== verification/Dispatcher_Spec.thy ===== *)
theory Dispatcher_Spec
  imports Dispatcher
begin

text \<open>
  The limits hold at every moment of every interleaving of the dispatch loop with the goroutines it starts;
  the round-robin gives every queue its share; and a client that lost its heartbeat writes nothing.
\<close>

subsection \<open>Counters and credits\<close>

lemma add_lengths [simp]: "length (add_credit n i qs) = length qs" "length (add_running n i qs) = length qs"
  by (simp_all add: add_credit_def add_running_def)

lemma add_credit_nth [simp]:
  "i < length qs \<Longrightarrow> add_credit n i qs ! j = (if i = j then (qs ! j)\<lparr>qsCredit := qsCredit (qs ! j) + n\<rparr> else qs ! j)"
  by (simp add: add_credit_def nth_list_update)

lemma add_running_nth [simp]:
  "i < length qs \<Longrightarrow> add_running n i qs ! j = (if i = j then (qs ! j)\<lparr>qsRunning := qsRunning (qs ! j) + n\<rparr> else qs ! j)"
  by (simp add: add_running_def nth_list_update)

lemma sum_add_credit: "i < length qs \<Longrightarrow> sum_list (map qsCredit (add_credit n i qs)) = sum_list (map qsCredit qs) + n"
  by (induction qs arbitrary: i) (auto simp: add_credit_def split: nat.split)

lemma sum_add_running [simp]: "sum_list (map qsCredit (add_running n i qs)) = sum_list (map qsCredit qs)"
  by (induction qs arbitrary: i) (auto simp: add_running_def split: nat.split)

text \<open>What a queue is, apart from its counters.\<close>

definition fixed :: "queueState list \<Rightarrow> (string \<times> queue_config) list" where
  "fixed qs = map (\<lambda>q. (qsName q, qsCfg q)) qs"

lemma fixed_nth:
  assumes "fixed qs = fixed qs'"
  shows "length qs = length qs'" "i < length qs \<Longrightarrow> qsName (qs ! i) = qsName (qs' ! i)" "i < length qs \<Longrightarrow> qsCfg (qs ! i) = qsCfg (qs' ! i)"
proof -
  show l: "length qs = length qs'" using assms map_eq_imp_length_eq by (auto simp: fixed_def)
  show "qsName (qs ! i) = qsName (qs' ! i)" "qsCfg (qs ! i) = qsCfg (qs' ! i)" if "i < length qs"
    using arg_cong [OF assms, of "\<lambda>xs. xs ! i"] that l by (simp_all add: fixed_def)
qed

lemma fixed_credit [simp]: "i < length qs \<Longrightarrow> fixed (add_credit n i qs) = fixed qs"
  by (intro nth_equalityI) (auto simp: fixed_def)

lemma fixed_running [simp]: "i < length qs \<Longrightarrow> fixed (add_running n i qs) = fixed qs"
  by (intro nth_equalityI) (auto simp: fixed_def)

text \<open>The crediting loop of a round.\<close>

definition credited :: "demand list \<Rightarrow> queueState list \<Rightarrow> queueState list" where
  "credited ds qs = foldl (\<lambda>qs d. add_credit (weight qs (dQ d)) (dQ d) qs) qs ds"

lemma credited_snoc: "credited (ds @ [d]) qs = add_credit (weight (credited ds qs) (dQ d)) (dQ d) (credited ds qs)"
  by (simp add: credited_def)

lemma credited_fields:
  assumes "distinct (map dQ ds)" "\<forall>d\<in>set ds. dQ d < length qs"
  shows "length (credited ds qs) = length qs \<and> fixed (credited ds qs) = fixed qs \<and>
    sum_list (map qsCredit (credited ds qs)) = sum_list (map qsCredit qs) + (\<Sum>d\<leftarrow>ds. weight qs (dQ d)) \<and>
    (\<forall>i<length qs. qsRunning (credited ds qs ! i) = qsRunning (qs ! i) \<and>
       qsCredit (credited ds qs ! i) = qsCredit (qs ! i) + (if i \<in> dQ ` set ds then weight qs i else 0))"
  using assms
proof (induction ds rule: rev_induct)
  case Nil
  then show ?case by (simp add: credited_def)
next
  case (snoc d ds)
  let ?c = "credited ds qs"
  have ih: "length ?c = length qs" "fixed ?c = fixed qs"
    "sum_list (map qsCredit ?c) = sum_list (map qsCredit qs) + (\<Sum>d\<leftarrow>ds. weight qs (dQ d))"
    "\<forall>i<length qs. qsRunning (?c ! i) = qsRunning (qs ! i) \<and>
       qsCredit (?c ! i) = qsCredit (qs ! i) + (if i \<in> dQ ` set ds then weight qs i else 0)"
    using snoc by auto
  have d: "dQ d < length ?c" "dQ d \<notin> dQ ` set ds" using snoc.prems ih(1) by auto
  have w: "weight ?c (dQ d) = weight qs (dQ d)" using fixed_nth(3) [OF ih(2)] d(1) by simp
  show ?case
    unfolding credited_snoc w using ih d by (auto simp: sum_add_credit)
qed

lemma credit_round_eq:
  "credit_round tw ds qs =
     (let cs = credited ds qs; ds' = sort_key (credit_key cs) ds in (ds', add_credit (- tw) (dQ (hd ds')) cs))"
  by (simp add: credit_round_def credited_def Let_def)

subsection \<open>The limits\<close>

text \<open>A configuration as \<^verbatim>\<open>NewClient\<close> leaves it.\<close>

definition queues_ok :: "(string \<times> queue_config) list \<Rightarrow> bool" where
  "queues_ok qs \<longleftrightarrow> distinct (map fst qs) \<and> (\<forall>(n, q)\<in>set qs. 0 < qcConcurrency q \<and> 0 < qcWeight q)"

definition busy :: "'s dispatch \<Rightarrow> nat \<Rightarrow> nat" where
  "busy s i = size (filter_mset (\<lambda>x. fst x = i) (executing s)) + count (leaving s) i"

lemma busy_updates [simp]:
  "busy (s\<lparr>dsPc := pc\<rparr>) = busy s" "busy (s\<lparr>dsStore := st\<rparr>) = busy s" "busy (s\<lparr>dsQueues := cs\<rparr>) = busy s"
  "busy (s\<lparr>dsGlobal := g\<rparr>) = busy s"
  by (simp_all add: busy_def fun_eq_iff)

lemma busy_moves [simp]:
  "busy (s\<lparr>executing := add_mset (i, j) E\<rparr>) k = busy (s\<lparr>executing := E\<rparr>) k + (if i = k then 1 else 0)"
  "busy (s\<lparr>executing := E, leaving := add_mset i L\<rparr>) k = busy (s\<lparr>executing := E, leaving := L\<rparr>) k + (if i = k then 1 else 0)"
  by (simp_all add: busy_def)

definition demands_ok :: "queueState list \<Rightarrow> demand list \<Rightarrow> bool" where
  "demands_ok qs ds \<longleftrightarrow> distinct (map dQ ds) \<and>
     (\<forall>d\<in>set ds. dQ d < length qs \<and> 0 < dFree d \<and> dFree d + qsRunning (qs ! dQ d) \<le> concurrency qs (dQ d))"

fun pc_ok :: "int \<Rightarrow> int \<Rightarrow> queueState list \<Rightarrow> dispatch_pc \<Rightarrow> bool" where
  "pc_ok mx g qs Between \<longleftrightarrow> True"
| "pc_ok mx g qs (Gathering gf i ds tw) \<longleftrightarrow>
     0 < gf \<and> gf + g \<le> mx \<and> i \<le> length qs \<and> demands_ok qs ds \<and> (\<forall>d\<in>set ds. dQ d < i) \<and>
     tw = (\<Sum>d\<leftarrow>ds. weight qs (dQ d))"
| "pc_ok mx g qs (Serving gf tw ds) \<longleftrightarrow>
     0 < gf \<and> gf + g \<le> mx \<and> demands_ok qs ds \<and> (\<forall>d\<in>set ds. weight qs (dQ d) \<le> tw)"
| "pc_ok mx g qs (Launching gf tw ds i js) \<longleftrightarrow>
     0 \<le> gf \<and> gf + int (length js) + g \<le> mx \<and> demands_ok qs ds \<and> (\<forall>d\<in>set ds. weight qs (dQ d) \<le> tw) \<and>
     i < length qs \<and> i \<notin> dQ ` set ds \<and> qsRunning (qs ! i) + int (length js) \<le> concurrency qs i"

definition dispatch_ok :: "('s \<Rightarrow> bool) \<Rightarrow> dispatch_cfg \<Rightarrow> (string \<times> queue_config) list \<Rightarrow> 's dispatch \<Rightarrow> bool" where
  "dispatch_ok good cfg qs s \<longleftrightarrow>
     good (dsStore s) \<and>
     fixed (dsQueues s) = fixed (start_queues qs) \<and>
     sum_list (map qsCredit (dsQueues s)) = 0 \<and>
     (\<forall>i<length (dsQueues s). int (busy s i) = qsRunning (dsQueues s ! i) \<and>
        qsRunning (dsQueues s ! i) \<le> concurrency (dsQueues s) i) \<and>
     (\<forall>x\<in>#executing s. fst x < length (dsQueues s)) \<and> (\<forall>i\<in>#leaving s. i < length (dsQueues s)) \<and>
     int (size (executing s)) = dsGlobal s \<and> dsGlobal s \<le> max 0 (dcMaxWorkers cfg) \<and>
     pc_ok (dcMaxWorkers cfg) (dsGlobal s) (dsQueues s) (dsPc s)"

lemma start_queues_set: "set (fixed (start_queues qs)) = set qs"
  by (force simp: fixed_def start_queues_def case_prod_beta image_iff)

lemma queue_positive:
  assumes "queues_ok qs" "fixed cs = fixed (start_queues qs)" "i < length cs"
  shows "0 < weight cs i \<and> 0 < concurrency cs i"
proof -
  have "(qsName (cs ! i), qsCfg (cs ! i)) \<in> set (fixed cs)" using assms(3) by (auto simp: fixed_def)
  then have "(qsName (cs ! i), qsCfg (cs ! i)) \<in> set qs" using assms(2) start_queues_set by metis
  then show ?thesis using assms(1) by (auto simp: queues_ok_def)
qed

lemma start_queues_zero: "q \<in> set (start_queues qs) \<Longrightarrow> qsRunning q = 0 \<and> qsCredit q = 0"
  by (auto simp: start_queues_def)

lemma start_ok:
  assumes "queues_ok qs" "good st"
  shows "dispatch_ok good cfg qs (start_dispatch qs st)"
proof -
  have "sum_list (map qsCredit (start_queues qs)) = (\<Sum>q\<leftarrow>start_queues qs. 0)"
    using start_queues_zero by (intro arg_cong [of _ _ sum_list] map_cong) auto
  moreover have "qsRunning (start_queues qs ! i) = 0" "0 < concurrency (start_queues qs) i"
    if "i < length (start_queues qs)" for i
    using start_queues_zero [OF nth_mem [OF that]] queue_positive [OF assms(1) refl that] by auto
  ultimately show ?thesis
    using assms by (fastforce simp: dispatch_ok_def start_dispatch_def busy_def)
qed

text \<open>The steps of the loop itself.\<close>

lemma look_ok: "dispatch_ok good cfg qs s \<Longrightarrow> dispatch_ok good cfg qs (look cfg s)"
  by (auto simp: dispatch_ok_def look_def Let_def demands_ok_def)

lemma gather_ok:
  assumes "dispatch_ok good cfg qs s" "dsPc s = Gathering gf i ds tw" "i < length (dsQueues s)"
  shows "dispatch_ok good cfg qs (gather gf i ds tw s)"
  using assms by (auto simp: dispatch_ok_def gather_def Let_def demands_ok_def)

lemma le_sum_list: "(\<forall>x\<in>set xs. 0 \<le> f x) \<Longrightarrow> x \<in> set xs \<Longrightarrow> f x \<le> (\<Sum>y\<leftarrow>xs. f y :: int)"
proof (induction xs)
  case (Cons y ys)
  moreover have "0 \<le> (\<Sum>y\<leftarrow>ys. f y)" using Cons.prems by (intro sum_list_nonneg) auto
  ultimately show ?case by fastforce
qed simp

lemma demands_ok_cong:
  assumes "demands_ok qs ds" "mset ds' = mset ds" "length qs' = length qs"
    "\<And>i. i < length qs \<Longrightarrow> qsRunning (qs' ! i) \<le> qsRunning (qs ! i) \<and> concurrency qs' i = concurrency qs i"
  shows "demands_ok qs' ds'"
proof -
  have "set ds' = set ds" "distinct (map dQ ds')"
    using assms(1,2) mset_eq_setD [OF assms(2)] mset_eq_imp_distinct_iff [of "map dQ ds'" "map dQ ds"]
    by (simp_all add: demands_ok_def)
  then show ?thesis using assms(1,3,4) by (fastforce simp: demands_ok_def)
qed

lemma arrange_ok:
  assumes "queues_ok qs" "dispatch_ok good cfg qs s" "dsPc s = Gathering gf i ds tw"
  shows "dispatch_ok good cfg qs (arrange cfg gf ds tw s)"
proof -
  let ?qs = "dsQueues s"
  have ok: "demands_ok ?qs ds" "0 < gf" "gf + dsGlobal s \<le> dcMaxWorkers cfg" "tw = (\<Sum>d\<leftarrow>ds. weight ?qs (dQ d))"
    and fx: "fixed ?qs = fixed (start_queues qs)" and sum: "sum_list (map qsCredit ?qs) = 0"
    using assms(2,3) by (simp_all add: dispatch_ok_def)
  have in_qs: "\<forall>d\<in>set ds. dQ d < length ?qs" and dist: "distinct (map dQ ds)" using ok(1) by (auto simp: demands_ok_def)
  have w: "\<forall>d\<in>set ds. weight ?qs (dQ d) \<le> tw"
    unfolding ok(4) using le_sum_list [of ds "\<lambda>d. weight ?qs (dQ d)"] queue_positive [OF assms(1) fx] in_qs
    by (meson less_imp_le)
  show ?thesis
  proof (cases "\<not> dcStrict cfg \<and> ds \<noteq> []")
    case False
    then have "arrange cfg gf ds tw s = s\<lparr>dsPc := Serving gf tw ds\<rparr>" by (auto simp: arrange_def)
    then show ?thesis using assms(2) ok w by (simp add: dispatch_ok_def)
  next
    case True
    define cs where "cs = credited ds ?qs"
    define ds' where "ds' = sort_key (credit_key cs) ds"
    define qs' where "qs' = add_credit (- tw) (dQ (hd ds')) cs"
    have a: "arrange cfg gf ds tw s = s\<lparr>dsQueues := qs', dsPc := Serving gf tw ds'\<rparr>"
      using True by (simp add: arrange_def credit_round_eq cs_def ds'_def qs'_def Let_def)
    note c = credited_fields [OF dist in_qs, folded cs_def]
    have "set ds' = set ds" "mset ds' = mset ds" by (simp_all add: ds'_def)
    moreover from this have "ds' \<noteq> []" using True by auto
    ultimately have ds': "ds' \<noteq> []" "set ds' = set ds" "mset ds' = mset ds" by simp_all
    then have h: "dQ (hd ds') < length cs" using c in_qs ds' hd_in_set by metis
    have qs': "length qs' = length ?qs" "fixed qs' = fixed ?qs" "sum_list (map qsCredit qs') = 0"
      "\<And>i. i < length ?qs \<Longrightarrow> qsRunning (qs' ! i) = qsRunning (?qs ! i)"
      using c h sum ok(4) by (simp_all add: qs'_def sum_add_credit)
    have cfgs: "\<And>i. i < length ?qs \<Longrightarrow> qsCfg (qs' ! i) = qsCfg (?qs ! i)"
      using fixed_nth(3) [OF qs'(2)] qs'(1) by simp
    have "demands_ok qs' ds'"
      using demands_ok_cong [OF ok(1) ds'(3) qs'(1)] qs'(4) cfgs by simp
    moreover have "\<forall>d\<in>set ds'. weight qs' (dQ d) \<le> tw"
      using w cfgs in_qs ds'(2) by simp
    ultimately show ?thesis
      unfolding a using assms(2) ok(1-3) qs' cfgs by (simp add: dispatch_ok_def)
  qed
qed

context storage
begin

lemma fetch_rows:
  assumes "inv st" "0 < fp_Limit p" "Fetch B p st = (Inr js, st')"
  shows "inv st' \<and> int (length js) \<le> fp_Limit p"
proof -
  have "length js \<le> nat (fp_Limit p)"
    using Fetch_law [OF assms(1) _ assms(3)] assms(2) by (simp add: fetched_def)
  then show ?thesis using inv_Fetch [OF assms(1), of p] assms(2,3) by simp
qed

lemma fetch_rows_ok:
  assumes "dispatch_ok inv cfg qs s" "dsPc s = Serving gf tw (d # ds)" "0 < fetch_limit cfg gf tw (dsQueues s) d"
    "Fetch B \<lparr>fp_Queue = qsName (dsQueues s ! dQ d), fp_Limit = fetch_limit cfg gf tw (dsQueues s) d,
       fp_ClientID = dcClientID cfg, fp_Now = now\<rparr> (dsStore s) = (Inr js, st)"
  shows "dispatch_ok inv cfg qs (s\<lparr>dsPc := Launching (gf - int (length js)) tw ds (dQ d) js, dsStore := st\<rparr>)"
proof -
  have "inv st \<and> int (length js) \<le> fetch_limit cfg gf tw (dsQueues s) d"
    using fetch_rows [OF _ _ assms(4)] assms(1,3) by (simp add: dispatch_ok_def)
  then have "inv st" "int (length js) \<le> dFree d" "int (length js) \<le> gf" by (simp_all add: fetch_limit_def)
  then show ?thesis using assms(1,2) by (auto simp: dispatch_ok_def demands_ok_def)
qed

end

lemma fetch_fails_ok:
  assumes "dispatch_ok good cfg qs s" "dsPc s = Serving gf tw (d # ds)" "good st"
  shows "dispatch_ok good cfg qs (s\<lparr>dsPc := Serving gf tw ds, dsStore := st\<rparr>)"
  using assms by (simp add: dispatch_ok_def demands_ok_def)

lemma pc_moves_ok:
  "dispatch_ok good cfg qs s \<Longrightarrow> dsPc s = Serving gf tw (d # ds) \<Longrightarrow> dispatch_ok good cfg qs (s\<lparr>dsPc := Serving gf tw ds\<rparr>)"
  "dispatch_ok good cfg qs s \<Longrightarrow> dispatch_ok good cfg qs (s\<lparr>dsPc := Between\<rparr>)"
  "dispatch_ok good cfg qs s \<Longrightarrow> dsPc s = Launching gf tw ds i [] \<Longrightarrow> 0 < gf \<Longrightarrow>
     dispatch_ok good cfg qs (s\<lparr>dsPc := Serving gf tw ds\<rparr>)"
  "dispatch_ok good cfg qs s \<Longrightarrow> good st \<Longrightarrow> dispatch_ok good cfg qs (s\<lparr>dsStore := st\<rparr>)"
  by (simp_all add: dispatch_ok_def demands_ok_def)

text \<open>A goroutine that starts, and the two halves of its end.\<close>

lemma demands_running:
  assumes "demands_ok qs ds" "i < length qs" "n \<le> 0 \<or> i \<notin> dQ ` set ds"
  shows "demands_ok (add_running n i qs) ds"
  using assms by (fastforce simp: demands_ok_def)

lemma launch_ok:
  assumes "dispatch_ok good cfg qs s" "dsPc s = Launching gf tw ds i (j # js)"
  shows "dispatch_ok good cfg qs
    (s\<lparr>dsPc := Launching gf tw ds i js, dsQueues := add_running 1 i (dsQueues s), dsGlobal := dsGlobal s + 1,
       executing := add_mset (i, j) (executing s)\<rparr>)"
  using assms demands_running [of "dsQueues s" ds i 1]
  by (auto simp: dispatch_ok_def)

lemma pc_ok_lower:
  assumes "pc_ok mx g qs pc" "i < length qs"
  shows "pc_ok mx g (add_running (- 1) i qs) pc"
proof -
  have "qsCfg (add_running (- 1) i qs ! k) = qsCfg (qs ! k)" for k using assms(2) by simp
  moreover have "qsRunning (add_running (- 1) i qs ! k) \<le> qsRunning (qs ! k)" for k using assms(2) by simp
  ultimately show ?thesis
    using assms(1) demands_running [OF _ assms(2), of _ "- 1"]
    by (cases pc) (auto simp del: add_running_nth intro: order_trans [OF add_right_mono])
qed

lemma pc_ok_global: "pc_ok mx g qs pc \<Longrightarrow> g' \<le> g \<Longrightarrow> pc_ok mx g' qs pc"
  by (cases pc) auto

lemma leave_ok:
  assumes "dispatch_ok good cfg qs s" "(i, j) \<in># executing s"
  shows "dispatch_ok good cfg qs
    (s\<lparr>dsGlobal := dsGlobal s - 1, executing := executing s - {#(i, j)#}, leaving := add_mset i (leaving s)\<rparr>)"
proof -
  obtain E where E: "executing s = add_mset (i, j) E" using assms(2) by (metis insert_DiffM)
  have b: "busy (s\<lparr>dsGlobal := dsGlobal s - 1, executing := E, leaving := add_mset i (leaving s)\<rparr>) = busy s"
    by (simp add: busy_def E fun_eq_iff)
  show ?thesis
    using assms E b pc_ok_global [of "dcMaxWorkers cfg" "dsGlobal s" "dsQueues s" "dsPc s" "dsGlobal s - 1"]
    by (auto simp: dispatch_ok_def)
qed

lemma left_ok:
  assumes "dispatch_ok good cfg qs s" "i \<in># leaving s"
  shows "dispatch_ok good cfg qs
    (s\<lparr>dsQueues := add_running (- 1) i (dsQueues s), leaving := leaving s - {#i#}\<rparr>)"
proof -
  obtain L where L: "leaving s = add_mset i L" using assms(2) by (metis insert_DiffM)
  then have i: "i < length (dsQueues s)" using assms(1) by (simp add: dispatch_ok_def)
  have b: "busy s k = busy (s\<lparr>dsQueues := add_running (- 1) i (dsQueues s), leaving := L\<rparr>) k + (if i = k then 1 else 0)" for k
    by (simp add: busy_def L)
  show ?thesis
    using assms L b i pc_ok_lower [of "dcMaxWorkers cfg" "dsGlobal s" "dsQueues s" "dsPc s" i]
    by (fastforce simp: dispatch_ok_def)
qed

context storage
begin

lemma dispatch_step_ok:
  assumes "dispatch_step B inv cfg s s'" "queues_ok qs" "dispatch_ok inv cfg qs s"
  shows "dispatch_ok inv cfg qs s'"
  using assms(1)
proof cases
  case (FetchFails gf tw d ds now err st)
  have "inv st" using inv_Fetch [of "dsStore s"] FetchFails(4) assms(3) unfolding dispatch_ok_def by (metis snd_conv)
  then show ?thesis using fetch_fails_ok [OF assms(3) FetchFails(2)] FetchFails(1) by simp
next
  case (Launched gf tw ds i)
  then show ?thesis using pc_moves_ok [OF assms(3)] by (cases "gf \<le> 0") auto
qed (use assms(2,3) look_ok gather_ok arrange_ok fetch_rows_ok launch_ok leave_ok left_ok pc_moves_ok in \<open>blast | metis\<close>)+

lemma dispatch_reach_ok: "dispatch_reach B inv cfg qs s \<Longrightarrow> queues_ok qs \<Longrightarrow> dispatch_ok inv cfg qs s"
  by (induction rule: dispatch_reach.induct) (auto intro: start_ok dispatch_step_ok)

end

text \<open>C13: The limits hold at every moment. However the dispatch loop, the ends of executions and other users of
  the storage interleave, no queue has more jobs in flight than its concurrency and the client no more than
  its worker limit; the shared counters say exactly how many there are; and the credits of the round-robin
  always add up to zero.\<close>

theorem in_flight_bounded:
  assumes "queues_ok qs" "dispatch_reach mem_backend ids_ok cfg qs s"
  shows "fixed (dsQueues s) = fixed (start_queues qs) \<and>
    (\<forall>i<length (dsQueues s).
       int (size (filter_mset (\<lambda>x. fst x = i) (executing s))) \<le> concurrency (dsQueues s) i \<and>
       qsRunning (dsQueues s ! i) = int (busy s i)) \<and>
    int (size (executing s)) \<le> max 0 (dcMaxWorkers cfg) \<and> dsGlobal s = int (size (executing s)) \<and>
    sum_list (map qsCredit (dsQueues s)) = 0"
proof -
  note ok = mem_store.dispatch_reach_ok [OF assms(2,1)]
  have "int (size (filter_mset (\<lambda>x. fst x = i) (executing s))) \<le> int (busy s i)" for i by (simp add: busy_def)
  with ok show ?thesis unfolding dispatch_ok_def by (metis order_trans)
qed

text \<open>Every queue with room that a round reaches is offered at least one job, and never more than its room
  or what is left of the worker limit: no weight is small enough to be rounded away.\<close>

theorem served_at_least_one:
  assumes "queues_ok qs" "dispatch_reach mem_backend ids_ok cfg qs s" "dsPc s = Serving gf tw (d # ds)"
  shows "1 \<le> fetch_limit cfg gf tw (dsQueues s) d \<and> fetch_limit cfg gf tw (dsQueues s) d \<le> gf \<and>
    fetch_limit cfg gf tw (dsQueues s) d + qsRunning (dsQueues s ! dQ d) \<le> concurrency (dsQueues s) (dQ d)"
proof -
  have ok: "0 < gf" "dQ d < length (dsQueues s)" "0 < dFree d" "weight (dsQueues s) (dQ d) \<le> tw"
    "dFree d + qsRunning (dsQueues s ! dQ d) \<le> concurrency (dsQueues s) (dQ d)"
    "fixed (dsQueues s) = fixed (start_queues qs)"
    using mem_store.dispatch_reach_ok [OF assms(2,1)] assms(3) by (auto simp: dispatch_ok_def demands_ok_def)
  let ?w = "weight (dsQueues s) (dQ d)"
  have w: "0 < ?w" using queue_positive [OF assms(1) ok(6,2)] by simp
  have "1 \<le> (gf * ?w + tw - 1) div tw"
  proof -
    have "tw \<le> gf * ?w + tw - 1" using mult_pos_pos [OF ok(1) w] by simp
    then show ?thesis using zdiv_mono1 [of tw _ tw] w ok(4) by fastforce
  qed
  then have "1 \<le> quota cfg gf tw ?w" using ok(1) by (simp add: quota_def)
  then show ?thesis using ok by (auto simp: fetch_limit_def min_def)
qed

definition sample_queues :: "(string \<times> queue_config) list" where
  "sample_queues = [(''default'', \<lparr>qcConcurrency = 2, qcWeight = 1, qcPollInterval = 0\<rparr>),
     (''mail'', \<lparr>qcConcurrency = 3, qcWeight = 6, qcPollInterval = 0\<rparr>)]"

definition sample_dispatch_cfg :: dispatch_cfg where
  "sample_dispatch_cfg = \<lparr>dcMaxWorkers = 4, dcStrict = False, dcClientID = ''w''\<rparr>"

lemma sample_queues_ok [simp]: "queues_ok sample_queues"
  by (simp add: queues_ok_def sample_queues_def)

text \<open>The first round of a client that just started, up to where it serves the queues.\<close>

lemma sample_serving:
  "\<exists>s d ds. dispatch_reach mem_backend ids_ok sample_dispatch_cfg sample_queues s \<and> dsPc s = Serving 4 7 (d # ds)"
proof -
  let ?cfg = sample_dispatch_cfg
  let ?mail = "\<lparr>dQ = 0, dFree = 3\<rparr>" and ?default = "\<lparr>dQ = 1, dFree = 2\<rparr>"
  define s0 where "s0 = start_dispatch sample_queues sample_store"
  define s1 where "s1 = look ?cfg s0"
  define s2 where "s2 = gather 4 0 [] 0 s1"
  define s3 where "s3 = gather 4 1 [?mail] 6 s2"
  define s4 where "s4 = arrange ?cfg 4 [?mail, ?default] 7 s3"
  have q: "dsQueues s3 = start_queues sample_queues" "dsPc s0 = Between" "length (start_queues sample_queues) = 2"
    "dsQueues s0 = start_queues sample_queues" "dsQueues s1 = start_queues sample_queues" "dsQueues s2 = start_queues sample_queues"
    by (simp_all add: s3_def s2_def s1_def s0_def start_dispatch_def look_def gather_def Let_def start_queues_def sample_queues_def)
  have sq: "start_queues sample_queues ! 0 = \<lparr>qsName = ''mail'', qsCfg = snd (sample_queues ! 1), qsRunning = 0, qsCredit = 0\<rparr>"
    "start_queues sample_queues ! 1 = \<lparr>qsName = ''default'', qsCfg = snd (sample_queues ! 0), qsRunning = 0, qsCredit = 0\<rparr>"
    by code_simp+
  have p1: "dsPc s1 = Gathering 4 0 [] 0"
    by (simp add: s1_def look_def s0_def start_dispatch_def sample_dispatch_cfg_def)
  have p2: "dsPc s2 = Gathering 4 1 [?mail] 6"
    using sq(1) by (simp add: s2_def gather_def q Let_def sample_queues_def)
  have p3: "dsPc s3 = Gathering 4 2 [?mail, ?default] 7"
    using sq(2) by (simp add: s3_def gather_def q Let_def sample_queues_def)
  have r0: "dispatch_reach mem_backend ids_ok ?cfg sample_queues s0" unfolding s0_def by (rule Started) simp
  have r1: "dispatch_reach mem_backend ids_ok ?cfg sample_queues s1"
    unfolding s1_def by (rule Stepped [OF r0 Look]) (rule q(2))
  have r2: "dispatch_reach mem_backend ids_ok ?cfg sample_queues s2"
    unfolding s2_def by (rule Stepped [OF r1 Gather]) (simp_all add: p1 q)
  have r3: "dispatch_reach mem_backend ids_ok ?cfg sample_queues s3"
    unfolding s3_def by (rule Stepped [OF r2 Gather]) (simp_all add: p2 q)
  have r4: "dispatch_reach mem_backend ids_ok ?cfg sample_queues s4"
    unfolding s4_def by (rule Stepped [OF r3 Arrange [OF p3]]) (simp add: q)
  have "\<exists>d ds. dsPc s4 = Serving 4 7 (d # ds)"
    using set_sort [of "credit_key (credited [?mail, ?default] (dsQueues s3))" "[?mail, ?default]"]
    by (cases "sort_key (credit_key (credited [?mail, ?default] (dsQueues s3))) [?mail, ?default]")
      (auto simp: s4_def arrange_def sample_dispatch_cfg_def credit_round_eq Let_def)
  with r4 show ?thesis by blast
qed

lemma in_flight_bounded_witness:
  "\<exists>s :: mem dispatch. int (size (executing s)) \<le> 4 \<and> length (dsQueues s) = 2 \<and> sum_list (map qsCredit (dsQueues s)) = 0"
proof -
  obtain s where s: "dispatch_reach mem_backend ids_ok sample_dispatch_cfg sample_queues s" using sample_serving by blast
  note b = in_flight_bounded [OF sample_queues_ok s]
  have "length (start_queues sample_queues) = 2" by (simp add: start_queues_def sample_queues_def)
  then have "length (dsQueues s) = 2" using fixed_nth(1) [OF conjunct1 [OF b]] by simp
  moreover have "int (size (executing s)) \<le> 4" using b by (simp add: sample_dispatch_cfg_def)
  ultimately show ?thesis using b by blast
qed

lemma served_at_least_one_witness:
  "\<exists>(s :: mem dispatch) d ds. dsPc s = Serving 4 7 (d # ds) \<and> 1 \<le> fetch_limit sample_dispatch_cfg 4 7 (dsQueues s) d"
  using sample_serving served_at_least_one [OF sample_queues_ok] by metis

subsection \<open>Fair shares\<close>

text \<open>Rounds in which every queue has room: who is first in each, and the queues after them.\<close>

definition all_demands :: "queueState list \<Rightarrow> demand list" where
  "all_demands qs = map (\<lambda>i. \<lparr>dQ = i, dFree = 1\<rparr>) [0..<length qs]"

definition total_weight :: "queueState list \<Rightarrow> int" where
  "total_weight qs = (\<Sum>d\<leftarrow>all_demands qs. weight qs (dQ d))"

fun rr_rounds :: "nat \<Rightarrow> queueState list \<Rightarrow> nat list \<times> queueState list" where
  "rr_rounds 0 qs = ([], qs)"
| "rr_rounds (Suc n) qs =
     (let (won, qs) = rr_rounds n qs; (ds, qs') = credit_round (total_weight qs) (all_demands qs) qs
      in (won @ [dQ (hd ds)], qs'))"

lemma all_demands_facts [simp]:
  "map dQ (all_demands qs) = [0..<length qs]" "d \<in> set (all_demands qs) \<Longrightarrow> dQ d < length qs"
  "dQ ` set (all_demands qs) = {0..<length qs}"
  by (auto simp: all_demands_def comp_def image_image)

lemma total_weight_eq: "total_weight qs = (\<Sum>i\<leftarrow>[0..<length qs]. weight qs i)"
  by (simp add: total_weight_def all_demands_def comp_def)

lemma total_weight_fixed:
  assumes "fixed qs = fixed qs'"
  shows "total_weight qs = total_weight qs'"
proof -
  have "map (weight qs) [0..<length qs] = map (weight qs') [0..<length qs]"
    using fixed_nth(3) [OF assms] by simp
  then show ?thesis unfolding total_weight_eq using fixed_nth(1) [OF assms] by metis
qed

lemma sort_key_hd: "x \<in> set xs \<Longrightarrow> f (hd (sort_key f xs)) \<le> f x"
proof -
  assume x: "x \<in> set xs"
  then obtain y ys where s: "sort_key f xs = y # ys" by (metis list.exhaust list.set(1) set_sort empty_iff)
  have "x \<in> set (y # ys)" using x s by (metis set_sort)
  moreover have "sorted (map f (y # ys))" using sorted_sort_key [of f xs] s by simp
  ultimately show ?thesis by (auto simp: s)
qed

text \<open>The winner of a round had a positive credit when the credits added up to zero before.\<close>

lemma sum_nonpos: "(\<And>x. x \<in> set xs \<Longrightarrow> f x \<le> (0 :: int)) \<Longrightarrow> (\<Sum>x\<leftarrow>xs. f x) \<le> 0"
  by (induction xs) fastforce+

lemma round_winner:
  assumes "qs \<noteq> []" "sum_list (map qsCredit qs) = 0" "0 < total_weight qs"
    "credit_round (total_weight qs) (all_demands qs) qs = (ds, qs')"
  shows "dQ (hd ds) < length qs \<and> fixed qs' = fixed qs \<and> sum_list (map qsCredit qs') = 0 \<and>
    0 < qsCredit (qs ! dQ (hd ds)) + weight qs (dQ (hd ds)) \<and>
    (\<forall>i<length qs. qsCredit (qs' ! i) = qsCredit (qs ! i) + weight qs i - (if i = dQ (hd ds) then total_weight qs else 0))"
proof -
  let ?cs = "credited (all_demands qs) qs"
  have c: "length ?cs = length qs" "fixed ?cs = fixed qs" "sum_list (map qsCredit ?cs) = total_weight qs"
    "\<forall>i<length qs. qsCredit (?cs ! i) = qsCredit (qs ! i) + weight qs i"
    using credited_fields [of "all_demands qs" qs] assms(2) by (simp_all add: total_weight_def)
  have ds: "ds = sort_key (credit_key ?cs) (all_demands qs)" and qs': "qs' = add_credit (- total_weight qs) (dQ (hd ds)) ?cs"
    using assms(4) by (auto simp: credit_round_eq Let_def)
  have "set ds = set (all_demands qs)" by (simp add: ds)
  moreover from this have "ds \<noteq> []" using assms(1) by (auto simp: all_demands_def)
  ultimately have w: "dQ (hd ds) < length qs" using hd_in_set by (metis all_demands_facts(2))
  have "qsCredit (?cs ! i) \<le> qsCredit (?cs ! dQ (hd ds))" if "i < length qs" for i
  proof -
    have "\<lparr>dQ = i, dFree = 1\<rparr> \<in> set (all_demands qs)" using that by (auto simp: all_demands_def)
    from sort_key_hd [OF this, of "credit_key ?cs"] show ?thesis by (auto simp: ds credit_key_def)
  qed
  then have "0 < qsCredit (?cs ! dQ (hd ds)) \<or> (\<forall>c\<in>set ?cs. qsCredit c \<le> 0)"
    using c(1) by (force simp: in_set_conv_nth)
  then have "0 < qsCredit (?cs ! dQ (hd ds))"
    using sum_nonpos [of ?cs qsCredit] c(3) assms(3) by auto
  then have pos: "0 < qsCredit (qs ! dQ (hd ds)) + weight qs (dQ (hd ds))" using c(4) w by simp
  have w': "dQ (hd ds) < length ?cs" using w c(1) by simp
  have "fixed qs' = fixed qs" "sum_list (map qsCredit qs') = 0"
    using w' c(2,3) by (simp_all add: qs' sum_add_credit)
  moreover have "qsCredit (qs' ! i) = qsCredit (qs ! i) + weight qs i - (if i = dQ (hd ds) then total_weight qs else 0)"
    if "i < length qs" for i
    using that w' c(4) by (simp add: qs')
  ultimately show ?thesis using w pos by blast
qed

text \<open>After any number of rounds the credit of a queue is exactly what it is owed.\<close>

definition credits_exact :: "nat \<Rightarrow> nat list \<Rightarrow> queueState list \<Rightarrow> bool" where
  "credits_exact n won qs \<longleftrightarrow> length won = n \<and> sum_list (map qsCredit qs) = 0 \<and>
    (\<forall>i<length qs. - total_weight qs < qsCredit (qs ! i) \<and>
       qsCredit (qs ! i) = int n * weight qs i - total_weight qs * int (count_list won i))"

lemma credits_exact_round:
  assumes "credits_exact n won qs" "qs \<noteq> []" "\<forall>i<length qs. 0 < weight qs i" "0 < total_weight qs"
    "credit_round (total_weight qs) (all_demands qs) qs = (ds, qs')"
  shows "fixed qs' = fixed qs \<and> credits_exact (Suc n) (won @ [dQ (hd ds)]) qs'"
proof -
  let ?i = "dQ (hd ds)" and ?W = "total_weight qs"
  have z: "sum_list (map qsCredit qs) = 0" using assms(1) by (simp add: credits_exact_def)
  have r: "?i < length qs" "fixed qs' = fixed qs" "sum_list (map qsCredit qs') = 0" "0 < qsCredit (qs ! ?i) + weight qs ?i"
    "\<forall>i<length qs. qsCredit (qs' ! i) = qsCredit (qs ! i) + weight qs i - (if i = ?i then ?W else 0)"
    using round_winner [OF assms(2) z assms(4,5)] by simp_all
  note f = total_weight_fixed [OF r(2)] fixed_nth(1) [OF r(2)] fixed_nth(3) [OF r(2)]
  have "- ?W < qsCredit (qs' ! i) \<and>
      qsCredit (qs' ! i) = int (Suc n) * weight qs i - ?W * int (count_list (won @ [?i]) i)" if i: "i < length qs" for i
  proof -
    have old: "- ?W < qsCredit (qs ! i)" "qsCredit (qs ! i) = int n * weight qs i - ?W * int (count_list won i)"
      using assms(1) i by (auto simp: credits_exact_def)
    have new: "qsCredit (qs' ! i) = qsCredit (qs ! i) + weight qs i - (if i = ?i then ?W else 0)" using r(5) i by simp
    have "0 < weight qs i" using assms(3) i by simp
    then have "- ?W < qsCredit (qs' ! i)" using old(1) r(4) unfolding new by (cases "i = ?i") auto
    moreover have "qsCredit (qs' ! i) = int (Suc n) * weight qs i - ?W * int (count_list (won @ [?i]) i)"
      unfolding new old(2) by (simp add: algebra_simps)
    ultimately show ?thesis by simp
  qed
  note all = this
  have "- total_weight qs' < qsCredit (qs' ! i) \<and> qsCredit (qs' ! i) =
      int (Suc n) * weight qs' i - total_weight qs' * int (count_list (won @ [?i]) i)" if "i < length qs'" for i
    using all [of i] that [unfolded f(2)] f(3) [OF that] unfolding f(1) by metis
  moreover have "length (won @ [?i]) = Suc n" using assms(1) by (simp add: credits_exact_def)
  ultimately show ?thesis using r(2,3) unfolding credits_exact_def by blast
qed

lemma start_queues_positive:
  assumes "queues_ok cfg" "cfg \<noteq> []" "fixed qs = fixed (start_queues cfg)"
  shows "qs \<noteq> []" "\<forall>i<length qs. 0 < weight qs i" "0 < total_weight qs"
proof -
  have "length (start_queues cfg) = length cfg" by (simp add: start_queues_def)
  then have "length qs = length cfg" using fixed_nth(1) [OF assms(3)] by simp
  then show ne: "qs \<noteq> []" using assms(2) by auto
  show w: "\<forall>i<length qs. 0 < weight qs i" using queue_positive [OF assms(1,3)] by blast
  have "weight qs 0 \<le> total_weight qs"
    unfolding total_weight_eq by (rule le_sum_list) (use w ne in auto)
  moreover have "0 < weight qs 0" using w ne by simp
  ultimately show "0 < total_weight qs" by simp
qed

lemma rounds_credits:
  assumes "queues_ok cfg" "cfg \<noteq> []" "rr_rounds n (start_queues cfg) = (won, qs)"
  shows "fixed qs = fixed (start_queues cfg) \<and> credits_exact n won qs"
  using assms(3)
proof (induction n arbitrary: won qs)
  case 0
  have qs: "qs = start_queues cfg" "won = []" using 0 by auto
  have z: "q \<in> set qs \<Longrightarrow> qsCredit q = 0" for q using start_queues_zero by (simp add: qs)
  have "sum_list (map qsCredit qs) = (\<Sum>q\<leftarrow>qs. 0)" using z by (intro arg_cong [of _ _ sum_list] map_cong) auto
  then show ?case
    using z start_queues_positive(3) [OF assms(1,2), of qs] by (simp add: credits_exact_def qs)
next
  case (Suc n)
  obtain won1 qs1 where r: "rr_rounds n (start_queues cfg) = (won1, qs1)" by fastforce
  obtain ds qs2 where c: "credit_round (total_weight qs1) (all_demands qs1) qs1 = (ds, qs2)" by fastforce
  have e: "won = won1 @ [dQ (hd ds)]" "qs = qs2" using Suc.prems r c by auto
  have ih: "fixed qs1 = fixed (start_queues cfg)" "credits_exact n won1 qs1" using Suc.IH [OF r] by simp_all
  show ?case
    using credits_exact_round [OF ih(2) start_queues_positive [OF assms(1,2) ih(1)] c] ih(1) by (simp add: e)
qed

text \<open>C18: The round-robin is fair. While every queue has room, after any number n of rounds a queue of weight w
  has been first n w / W times, W the sum of the weights, to within less than one turn too many and less than
  the number of the other queues too few; so weight 6 wins six times as often as weight 1 and none starves.\<close>

theorem fair_shares:
  assumes "queues_ok cfg" "cfg \<noteq> []" "rr_rounds n (start_queues cfg) = (won, qs)" "i < length qs"
  shows "total_weight qs * int (count_list won i) < int n * weight qs i + total_weight qs \<and>
    int n * weight qs i \<le> total_weight qs * int (count_list won i) + (int (length qs) - 1) * (total_weight qs - 1)"
proof -
  let ?W = "total_weight qs" and ?c = "\<lambda>k. qsCredit (qs ! k)"
  have x: "credits_exact n won qs" using rounds_credits [OF assms(1-3)] by simp
  have "?c i = - (\<Sum>k\<in>{0..<length qs} - {i}. ?c k)"
  proof -
    have "sum_list (map qsCredit qs) = 0" using x by (simp add: credits_exact_def)
    then have "(\<Sum>k\<in>{0..<length qs}. ?c k) = 0" by (simp add: sum_list_sum_nth)
    then show ?thesis using sum.remove [of "{0..<length qs}" i ?c] assms(4) by simp
  qed
  moreover have "(\<Sum>k\<in>{0..<length qs} - {i}. - (?W - 1)) \<le> (\<Sum>k\<in>{0..<length qs} - {i}. ?c k)"
    using x by (intro sum_mono) (force simp: credits_exact_def)
  moreover have "(\<Sum>k\<in>{0..<length qs} - {i}. - (?W - 1)) = - ((int (length qs) - 1) * (?W - 1))"
    using assms(4) by (simp add: of_nat_diff algebra_simps)
  ultimately have "?c i \<le> (int (length qs) - 1) * (?W - 1)" by linarith
  moreover have "- ?W < ?c i" "?c i = int n * weight qs i - ?W * int (count_list won i)"
    using x assms(4) unfolding credits_exact_def by blast+
  ultimately show ?thesis by linarith
qed

lemma fair_shares_witness:
  "7 * int (count_list (fst (rr_rounds 14 (start_queues sample_queues))) 0) < 14 * 6 + 7"
proof -
  let ?r = "rr_rounds 14 (start_queues sample_queues)"
  have r: "?r = (fst ?r, snd ?r)" by simp
  have f: "fixed (snd ?r) = fixed (start_queues sample_queues)"
    using rounds_credits [OF sample_queues_ok _ r] by (simp add: sample_queues_def)
  have "weight (start_queues sample_queues) 0 = 6" "total_weight (start_queues sample_queues) = 7"
    "length (start_queues sample_queues) = 2" by code_simp+
  then have w: "weight (snd ?r) 0 = 6" "total_weight (snd ?r) = 7" "0 < length (snd ?r)"
    using fixed_nth(1,3) [OF f] total_weight_fixed [OF f] by simp_all
  have ne: "sample_queues \<noteq> []" by (simp add: sample_queues_def)
  from fair_shares [OF sample_queues_ok ne r w(3)] show ?thesis unfolding w(1,2) by simp
qed

subsection \<open>Heartbeats\<close>

lemma cell_updates [simp]:
  "world (cancel_cell p s) = world s" "fin (cancel_cell p s) = fin s" "active (cancel_cell p s) = active s"
  "length (cells (cancel_cell p s)) = length (cells s)"
  "world (fence_cell p s) = world s" "fin (fence_cell p s) = fin s" "active (fence_cell p s) = active s"
  "length (cells (fence_cell p s)) = length (cells s)"
  by (simp_all add: cancel_cell_def fence_cell_def)

lemma cell_nth [simp]:
  "p < length (cells s) \<Longrightarrow> cells (cancel_cell p s) ! q = (if p = q then (cells s ! q)\<lparr>cancelled := True\<rparr> else cells s ! q)"
  "p < length (cells s) \<Longrightarrow> cells (fence_cell p s) ! q =
     (if p = q then (cells s ! q)\<lparr>fenced := True, cancelled := True\<rparr> else cells s ! q)"
  by (simp_all add: cancel_cell_def fence_cell_def nth_list_update)

definition pointers_ok :: "('w, 'f) run_state \<Rightarrow> bool" where
  "pointers_ok s \<longleftrightarrow> (\<forall>i p. active s i = Some p \<longrightarrow> p < length (cells s))"

lemma range_cells:
  assumes f: "\<And>p s. active (f p s) = active s \<and> length (cells (f p s)) = length (cells s) \<and> fin (f p s) = fin s \<and> world (f p s) = world s"
    and g: "\<And>p q s. p < length (cells s) \<Longrightarrow> cells (f p s) ! q = (if p = q then g (cells s ! q) else cells s ! q)"
    and idem: "\<And>c. g (g c) = g c" and ok: "pointers_ok s"
  shows "let s' = foldl (\<lambda>s i. with_active f i s) s ids in
    active s' = active s \<and> fin s' = fin s \<and> world s' = world s \<and> length (cells s') = length (cells s) \<and>
    (\<forall>p. cells s' ! p = (if \<exists>i\<in>set ids. active s i = Some p then g (cells s ! p) else cells s ! p))"
proof (induction ids rule: rev_induct)
  case (snoc i ids)
  define s1 where "s1 = foldl (\<lambda>s i. with_active f i s) s ids"
  have ih: "active s1 = active s" "fin s1 = fin s" "world s1 = world s" "length (cells s1) = length (cells s)"
    "\<And>p. cells s1 ! p = (if \<exists>i\<in>set ids. active s i = Some p then g (cells s ! p) else cells s ! p)"
    using snoc.IH by (simp_all add: s1_def Let_def)
  have e: "foldl (\<lambda>s i. with_active f i s) s (ids @ [i]) = with_active f i s1" by (simp add: s1_def)
  show ?case
  proof (cases "active s i")
    case None
    then have "with_active f i s1 = s1" by (simp add: with_active_def ih(1))
    then show ?thesis unfolding e Let_def using ih None by auto
  next
    case (Some p)
    then have w: "with_active f i s1 = f p s1" by (simp add: with_active_def ih(1))
    have "p < length (cells s1)" using ok Some ih(4) by (simp add: pointers_ok_def)
    note g1 = g [OF this]
    have "cells (f p s1) ! q = (if \<exists>i\<in>set (ids @ [i]). active s i = Some q then g (cells s ! q) else cells s ! q)" for q
      using Some by (auto simp: g1 ih(5) idem)
    then show ?thesis unfolding e w Let_def using f [of p s1] ih(1-4) by simp
  qed
qed simp

lemma fence_range:
  "pointers_ok s \<Longrightarrow> let s' = fenceActive ord s in fin s' = fin s \<and> world s' = world s \<and>
     (\<forall>p. cells s' ! p = (if \<exists>i\<in>set ord. active s i = Some p
        then (cells s ! p)\<lparr>fenced := True, cancelled := True\<rparr> else cells s ! p))"
  using range_cells [of fence_cell "\<lambda>c. c\<lparr>fenced := True, cancelled := True\<rparr>" s ord]
  by (simp add: fenceActive_def Let_def)

lemma cancel_range:
  "pointers_ok s \<Longrightarrow> let s' = foldl (\<lambda>s i. with_active cancel_cell i s) s ids in fin s' = fin s \<and> world s' = world s \<and>
     (\<forall>p. cells s' ! p = (if \<exists>i\<in>set ids. active s i = Some p
        then (cells s ! p)\<lparr>cancelled := True\<rparr> else cells s ! p))"
  using range_cells [of cancel_cell "\<lambda>c. c\<lparr>cancelled := True\<rparr>" s ids] by (simp add: Let_def)

text \<open>C14: A client that lost its heartbeat goes silent: the third failing heartbeat in a row fences and cancels
  every execution that is active, and however one of them ends after that, it hands nothing to the finalizer,
  so that it cannot overwrite what another process does with the job.\<close>

theorem lost_heartbeat_silences:
  assumes "pointers_ok s" "\<forall>i. active s i \<noteq> None \<longrightarrow> i \<in> set ord" "2 \<le> failures"
    and "heartbeat_react ord (Some (Inl err)) failures s = (n, s')" "active s i = Some p"
  shows "n = 0 \<and> fin s' = fin s \<and> world s' = world s \<and> cancelled (cells s' ! p) \<and>
    (fenced (cells t ! p) = fenced (cells s' ! p) \<longrightarrow>
       fin (snd (snd (runJob_end cfg push ctx p row e t))) = fin t)"
proof -
  have r: "n = 0" "s' = fenceActive ord s" using assms(3,4) by (simp_all add: heartbeat_react_def)
  have "\<exists>i\<in>set ord. active s i = Some p" using assms(2,5) by auto
  then have "fin s' = fin s" "world s' = world s" "cells s' ! p = (cells s ! p)\<lparr>fenced := True, cancelled := True\<rparr>"
    using fence_range [OF assms(1), of ord] by (simp_all add: r(2) Let_def)
  moreover have "fin (snd (snd (runJob_end cfg push ctx p row e t))) = fin t" if "fenced (cells t ! p)"
    using fenced_pushes_nothing [OF that, of cfg push ctx row e] by (metis prod.collapse)
  ultimately show ?thesis using r(1) by simp
qed

lemma lost_heartbeat_silences_witness:
  "cancelled (cells (snd (heartbeat_react [7] (Some (Inl (ErrorString ''down''))) 2
     ((idle_state ())\<lparr>cells := [\<lparr>cancelled = False, generation = 2, fenced = False\<rparr>], active := [7 \<mapsto> 0]\<rparr>))) ! 0)"
proof -
  let ?s = "(idle_state ())\<lparr>cells := [\<lparr>cancelled = False, generation = 2, fenced = False\<rparr>], active := [7 \<mapsto> 0]\<rparr>"
  let ?r = "heartbeat_react [7] (Some (Inl (ErrorString ''down''))) 2 ?s"
  have r: "?r = (fst ?r, snd ?r)" by simp
  have "pointers_ok ?s" "\<forall>i. active ?s i \<noteq> None \<longrightarrow> i \<in> set [7]" "2 \<le> (2 :: nat)" "active ?s 7 = Some 0"
    by (auto simp: pointers_ok_def split: if_splits)
  from lost_heartbeat_silences [OF this(1-3) r this(4)] show ?thesis by blast
qed

text \<open>An answered heartbeat cancels exactly the executions that were asked to stop and fences none.\<close>

theorem heartbeat_cancels:
  assumes "pointers_ok s" "heartbeat_react ord (Some (Inr ids)) failures s = (n, s')"
  shows "n = 0 \<and> (\<forall>p. cells s' ! p =
    (if \<exists>i\<in>set ids. active s i = Some p then (cells s ! p)\<lparr>cancelled := True\<rparr> else cells s ! p))"
  using cancel_range [OF assms(1), of ids] assms(2) by (auto simp: heartbeat_react_def Let_def)

end
