(* ===== verification/Shutdown.thy ===== *)
theory Shutdown
  imports Dispatcher_Spec
begin

text \<open>
  The life of a client: \<^verbatim>\<open>Start\<close>, \<^verbatim>\<open>Stop\<close> and the goroutines between them (\<^verbatim>\<open>dispatcher.go\<close>), as one
  transition system around the completer of \<^verbatim>\<open>completer.go\<close>. What the goroutines do is abstracted to what
  the wait groups, the two contexts and the completer's channel see of it: how many of each kind are alive,
  and what a job goroutine pushes.
\<close>

subsection \<open>State\<close>

text \<open>Where the drain goroutine of \<^verbatim>\<open>Stop\<close> is.\<close>

datatype drain =
    NoDrain | AwaitFetchers | AwaitJobs | AwaitHeartbeat | CloseCompleter | AwaitCompleter | Settle

text \<open>
  \<open>working\<close> counts the job goroutines that have not pushed yet, \<open>ending\<close> those that will push no more; the
  ones blocked in a push are the completer's \<open>waiting\<close>. Together they are \<^verbatim>\<open>jobWg\<close>. \<open>dispatching\<close> and
  \<open>maintaining\<close> are \<^verbatim>\<open>fetchWg\<close>, \<open>beating\<close> is \<^verbatim>\<open>liveWg\<close>.
\<close>

record 'x life =
  started :: bool
  stopping :: bool
  fetchDone :: bool
  liveDone :: bool
  dispatching :: bool
  maintaining :: nat
  beating :: bool
  working :: nat
  ending :: nat
  draining :: drain
  completer_of :: "'x completer"

definition new_life :: "'x \<Rightarrow> 'x life" where
  "new_life x = \<lparr>started = False, stopping = False, fetchDone = True, liveDone = True, dispatching = False,
     maintaining = 0, beating = False, working = 0, ending = 0, draining = NoDrain, completer_of = newCompleter x\<rparr>"

definition jobs_alive :: "'x life \<Rightarrow> nat" where
  "jobs_alive s = working s + ending s + length (waiting (completer_of s))"

subsection \<open>Start and Stop\<close>

text \<open>What \<^verbatim>\<open>Start\<close> looks at besides its flags: the fake, the queues and the workers.\<close>

record startable =
  isFake :: bool
  hasQueues :: bool
  hasWorkers :: bool

definition StartClient :: "startable \<Rightarrow> 'x life \<Rightarrow> go_error option \<times> 'x life" where
  "StartClient c s =
     (if started s then (Some (ErrorString ''goque: client already started''), s)
      else if stopping s then (Some (ErrorString ''goque: client is stopping; wait for Stop to finish draining''), s)
      else if isFake c then (Some (ErrorString ''goque: client is fake-driven''), s)
      else if \<not> hasQueues c then (Some (ErrorString ''goque: no queues configured; this is an enqueue-only client''), s)
      else if \<not> hasWorkers c then (Some (ErrorString ''goque: no workers registered''), s)
      else (None, s\<lparr>started := True, fetchDone := False, liveDone := False,
              completer_of := newCompleter (sink (completer_of s)),
              dispatching := True, beating := True, maintaining := 3\<rparr>))"

text \<open>The first part of \<^verbatim>\<open>Stop\<close>, up to the start of the drain goroutine.\<close>

definition StopClient :: "'x life \<Rightarrow> 'x life" where
  "StopClient s =
     (if \<not> started s then s
      else s\<lparr>started := False, stopping := True, fetchDone := True, draining := AwaitFetchers\<rparr>)"

subsection \<open>Steps\<close>

text \<open>
  A result \<open>Inl\<close> is a panic in a goroutine nobody recovers. A job that is fenced, or whose handlers are
  slow, ends without a push (\<open>Quiet\<close>); the caller may cancel the context given to \<^verbatim>\<open>Start\<close> at any time.
\<close>

inductive life_step ::
  "nat \<Rightarrow> (finalizeOp list \<Rightarrow> 'x \<Rightarrow> 'x) \<Rightarrow> startable \<Rightarrow> 'x life \<Rightarrow> go_error + 'x life \<Rightarrow> bool"
  for n fl c where
  Start: "life_step n fl c s (Inr (snd (StartClient c s)))"
| Stop: "life_step n fl c s (Inr (StopClient s))"
| CancelCaller: "life_step n fl c s (Inr (s\<lparr>fetchDone := True\<rparr>))"
| LaunchJob: "dispatching s \<Longrightarrow> life_step n fl c s (Inr (s\<lparr>working := working s + 1\<rparr>))"
| DispatchExit: "dispatching s \<Longrightarrow> fetchDone s \<Longrightarrow> life_step n fl c s (Inr (s\<lparr>dispatching := False\<rparr>))"
| MaintenanceExit: "maintaining s = Suc k \<Longrightarrow> fetchDone s \<Longrightarrow> life_step n fl c s (Inr (s\<lparr>maintaining := k\<rparr>))"
| HeartbeatExit: "beating s \<Longrightarrow> liveDone s \<Longrightarrow> life_step n fl c s (Inr (s\<lparr>beating := False\<rparr>))"
| PushPanic: "working s = Suc k \<Longrightarrow> cp_step n fl (Push fop) (completer_of s) = Some (Inl e) \<Longrightarrow>
     life_step n fl c s (Inl e)"
| PushDone: "working s = Suc k \<Longrightarrow> cp_step n fl (Push fop) (completer_of s) = Some (Inr cp) \<Longrightarrow>
     waiting cp = waiting (completer_of s) \<Longrightarrow>
     life_step n fl c s (Inr (s\<lparr>working := k, ending := ending s + 1, completer_of := cp\<rparr>))"
| PushWaits: "working s = Suc k \<Longrightarrow> cp_step n fl (Push fop) (completer_of s) = Some (Inr cp) \<Longrightarrow>
     waiting cp \<noteq> waiting (completer_of s) \<Longrightarrow>
     life_step n fl c s (Inr (s\<lparr>working := k, completer_of := cp\<rparr>))"
| Quiet: "working s = Suc k \<Longrightarrow> life_step n fl c s (Inr (s\<lparr>working := k, ending := ending s + 1\<rparr>))"
| WaitPanic: "cp_step n fl (Resume fop) (completer_of s) = Some (Inl e) \<Longrightarrow> life_step n fl c s (Inl e)"
| WaitEnds: "ev = Resume fop \<or> ev = GiveUp fop \<Longrightarrow> cp_step n fl ev (completer_of s) = Some (Inr cp) \<Longrightarrow>
     life_step n fl c s (Inr (s\<lparr>ending := ending s + 1, completer_of := cp\<rparr>))"
| JobDone: "ending s = Suc k \<Longrightarrow> life_step n fl c s (Inr (s\<lparr>ending := k\<rparr>))"
| CompleterLoop: "ev = Recv \<or> ev = Tick \<Longrightarrow> cp_step n fl ev (completer_of s) = Some (Inr cp) \<Longrightarrow>
     life_step n fl c s (Inr (s\<lparr>completer_of := cp\<rparr>))"
| FetchersGone: "draining s = AwaitFetchers \<Longrightarrow> \<not> dispatching s \<Longrightarrow> maintaining s = 0 \<Longrightarrow>
     life_step n fl c s (Inr (s\<lparr>draining := AwaitJobs\<rparr>))"
| JobsGone: "draining s = AwaitJobs \<Longrightarrow> jobs_alive s = 0 \<Longrightarrow>
     life_step n fl c s (Inr (s\<lparr>liveDone := True, draining := AwaitHeartbeat\<rparr>))"
| HeartbeatGone: "draining s = AwaitHeartbeat \<Longrightarrow> \<not> beating s \<Longrightarrow>
     life_step n fl c s (Inr (s\<lparr>draining := CloseCompleter\<rparr>))"
| Closing: "draining s = CloseCompleter \<Longrightarrow> cp_step n fl Close (completer_of s) = Some (Inr cp) \<Longrightarrow>
     life_step n fl c s (Inr (s\<lparr>completer_of := cp, draining := AwaitCompleter\<rparr>))"
| CompleterGone: "draining s = AwaitCompleter \<Longrightarrow> finished (completer_of s) \<Longrightarrow>
     life_step n fl c s (Inr (s\<lparr>draining := Settle\<rparr>))"
| Settled: "draining s = Settle \<Longrightarrow>
     life_step n fl c s (Inr (s\<lparr>stopping := False, draining := NoDrain\<rparr>))"

inductive life_reach ::
  "nat \<Rightarrow> (finalizeOp list \<Rightarrow> 'x \<Rightarrow> 'x) \<Rightarrow> startable \<Rightarrow> 'x \<Rightarrow> 'x life \<Rightarrow> bool"
  for n fl c x where
  New: "life_reach n fl c x (new_life x)"
| Step: "life_reach n fl c x s \<Longrightarrow> life_step n fl c s (Inr s') \<Longrightarrow> life_reach n fl c x s'"

inductive_cases panic_elim: "life_step n fl c s (Inl e)"

end
