(* ===== verification/Shutdown_Spec.thy ===== *)
theory Shutdown_Spec
  imports Shutdown
begin

text \<open>
  A client shuts down in order: no goroutine sends on the closed channel, heartbeats outlast every
  execution, and when the client has settled nothing runs and nothing is left in the completer.
\<close>

subsection \<open>Steps of the completer\<close>

definition comp_ok :: "'x completer \<Rightarrow> bool" where
  "comp_ok c \<longleftrightarrow> (finished c \<longrightarrow> closed c \<and> ch c = [] \<and> buf c = [])"

lemma flush_buf_keeps [simp]:
  "closed (flush_buf fl ops c) = closed c" "waiting (flush_buf fl ops c) = waiting c" "ch (flush_buf fl ops c) = ch c"
  "finished (flush_buf fl ops c) = finished c" "buf (flush_buf fl ops c) = []"
  by (simp_all add: flush_buf_def)

lemma push_step:
  "cp_step n fl (Push fop) c = Some r \<Longrightarrow>
     (case r of Inl e \<Rightarrow> closed c
      | Inr c' \<Rightarrow> \<not> closed c \<and> closed c' = closed c \<and> finished c' = finished c \<and>
          (waiting c' = waiting c \<or> length (waiting c') = length (waiting c) + 1))"
  by (auto split: if_splits)

lemma wait_step:
  "ev = Resume fop \<or> ev = GiveUp fop \<Longrightarrow> cp_step n fl ev c = Some r \<Longrightarrow>
     (case r of Inl e \<Rightarrow> closed c
      | Inr c' \<Rightarrow> closed c' = closed c \<and> finished c' = finished c \<and> length (waiting c) = length (waiting c') + 1 \<and>
          (closed c \<longrightarrow> ch c' = ch c) \<and> buf c' = buf c)"
  by (auto split: if_splits simp: length_remove1) (metis Suc_pred length_pos_if_in_set)+

lemma loop_step:
  "ev = Recv \<or> ev = Tick \<Longrightarrow> comp_ok c \<Longrightarrow> cp_step n fl ev c = Some (Inr c') \<Longrightarrow>
     comp_ok c' \<and> closed c' = closed c \<and> waiting c' = waiting c \<and> \<not> finished c"
  by (auto simp: comp_ok_def Let_def split: if_splits list.splits)

lemma close_step: "cp_step n fl Close c = Some (Inr c') \<Longrightarrow> closed c' \<and> c' = c\<lparr>closed := True\<rparr>"
  by (auto split: if_splits)

subsection \<open>The invariant\<close>

fun quiet_from :: "drain \<Rightarrow> nat" where
  "quiet_from NoDrain = 0"
| "quiet_from AwaitFetchers = 1"
| "quiet_from AwaitJobs = 2"
| "quiet_from AwaitHeartbeat = 3"
| "quiet_from CloseCompleter = 4"
| "quiet_from AwaitCompleter = 5"
| "quiet_from Settle = 6"

text \<open>How far the client is on its way down: 0 while it works, 7 once it has settled.\<close>

definition depth :: "'x life \<Rightarrow> nat" where
  "depth s = (if draining s = NoDrain \<and> \<not> started s then 7 else quiet_from (draining s))"

definition life_ok :: "'x life \<Rightarrow> bool" where
  "life_ok s \<longleftrightarrow>
     (stopping s \<longleftrightarrow> draining s \<noteq> NoDrain) \<and> \<not> (started s \<and> stopping s) \<and>
     comp_ok (completer_of s) \<and>
     (1 \<le> depth s \<longrightarrow> fetchDone s) \<and>
     (2 \<le> depth s \<longrightarrow> \<not> dispatching s \<and> maintaining s = 0) \<and>
     (depth s < 3 \<longrightarrow> beating s \<and> \<not> liveDone s) \<and>
     (3 \<le> depth s \<longrightarrow> jobs_alive s = 0) \<and>
     (4 \<le> depth s \<longrightarrow> \<not> beating s) \<and>
     (closed (completer_of s) \<longrightarrow> 5 \<le> depth s) \<and>
     (depth s \<in> {5, 6} \<longrightarrow> closed (completer_of s)) \<and>
     (6 \<le> depth s \<and> closed (completer_of s) \<longrightarrow> finished (completer_of s))"

lemma new_life_ok: "life_ok (new_life x)"
  by (simp add: life_ok_def new_life_def depth_def comp_ok_def newCompleter_def jobs_alive_def)

lemma depth_simps [simp]:
  "depth (s\<lparr>working := k\<rparr>) = depth s" "depth (s\<lparr>ending := k\<rparr>) = depth s" "depth (s\<lparr>completer_of := cp\<rparr>) = depth s"
  "depth (s\<lparr>dispatching := b\<rparr>) = depth s" "depth (s\<lparr>maintaining := k\<rparr>) = depth s" "depth (s\<lparr>beating := b\<rparr>) = depth s"
  "depth (s\<lparr>liveDone := b\<rparr>) = depth s" "depth (s\<lparr>fetchDone := b\<rparr>) = depth s"
  by (simp_all add: depth_def)

lemma start_stop_ok:
  assumes "life_ok s"
  shows "life_ok (snd (StartClient c s))" "life_ok (StopClient s)"
proof -
  have "life_ok (s\<lparr>started := True, fetchDone := False, liveDone := False,
      completer_of := newCompleter (sink (completer_of s)), dispatching := True, beating := True, maintaining := 3\<rparr>)"
    if "\<not> started s" "\<not> stopping s"
    using that assms by (simp add: life_ok_def depth_def comp_ok_def newCompleter_def)
  then show "life_ok (snd (StartClient c s))" using assms by (simp add: StartClient_def)
  show "life_ok (StopClient s)"
    using assms by (auto simp: life_ok_def depth_def StopClient_def jobs_alive_def)
qed

text \<open>While executions are alive the client is not deep in its way down, and the channel is open.\<close>

lemma alive_shallow: "life_ok s \<Longrightarrow> 0 < jobs_alive s \<Longrightarrow> depth s < 3 \<and> \<not> closed (completer_of s)"
  by (auto simp: life_ok_def)

lemma jobs_moves [simp]:
  "jobs_alive (s\<lparr>working := k\<rparr>) = k + ending s + length (waiting (completer_of s))"
  "jobs_alive (s\<lparr>ending := k\<rparr>) = working s + k + length (waiting (completer_of s))"
  "jobs_alive (s\<lparr>completer_of := cp\<rparr>) = working s + ending s + length (waiting cp)"
  by (simp_all add: jobs_alive_def)

lemma job_step_ok:
  assumes "life_ok s" "0 < jobs_alive s" "comp_ok cp" "closed cp = closed (completer_of s)"
  shows "life_ok (s\<lparr>working := k, ending := e, completer_of := cp\<rparr>)"
  using assms alive_shallow [OF assms(1,2)] by (auto simp: life_ok_def)

lemma life_step_ok:
  assumes "life_step n fl c s r" "life_ok s"
  shows "case r of Inl e \<Rightarrow> False | Inr s' \<Rightarrow> life_ok s'"
  using assms(1)
proof cases
  case (PushPanic k fop e)
  then show ?thesis using push_step [OF PushPanic(3)] alive_shallow [OF assms(2)] by (simp add: jobs_alive_def)
next
  case (PushDone k fop cp)
  note p = push_step [OF PushDone(3)]
  have "comp_ok cp" using p assms(2) by (auto simp: life_ok_def comp_ok_def)
  then show ?thesis
    using job_step_ok [OF assms(2), where cp = cp and k = k and e = "ending s + 1"] p PushDone by (simp add: jobs_alive_def)
next
  case (PushWaits k fop cp)
  note p = push_step [OF PushWaits(3)]
  have "comp_ok cp" using p assms(2) by (auto simp: life_ok_def comp_ok_def)
  then show ?thesis
    using job_step_ok [OF assms(2), where cp = cp and k = k and e = "ending s"] p PushWaits by (simp add: jobs_alive_def)
next
  case (WaitPanic fop e)
  have "0 < jobs_alive s" using WaitPanic by (auto simp: jobs_alive_def split: if_splits)
  then show ?thesis using wait_step [OF _ WaitPanic(2)] alive_shallow [OF assms(2)] WaitPanic by simp
next
  case (WaitEnds ev fop cp)
  note p = wait_step [OF WaitEnds(2,3)]
  have a: "0 < jobs_alive s" using p by (simp add: jobs_alive_def)
  have "comp_ok cp" using p assms(2) by (auto simp: life_ok_def comp_ok_def)
  then show ?thesis
    using job_step_ok [OF assms(2) a, where cp = cp and k = "working s" and e = "ending s + 1"] p WaitEnds by simp
next
  case (CompleterLoop ev cp)
  note p = loop_step [OF CompleterLoop(2) _ CompleterLoop(3)]
  show ?thesis using p assms(2) CompleterLoop by (auto simp: life_ok_def jobs_alive_def)
next
  case (Closing cp)
  then have "depth s = 4" "depth (s\<lparr>completer_of := cp, draining := AwaitCompleter\<rparr>) = 5" by (simp_all add: depth_def)
  then show ?thesis using close_step [OF Closing(3)] assms(2) Closing
    by (auto simp: life_ok_def comp_ok_def jobs_alive_def)
next
  case Settled
  have "depth (s\<lparr>stopping := False, draining := NoDrain\<rparr>) = 7" "depth s = 6"
    using assms(2) Settled by (auto simp: depth_def life_ok_def)
  then show ?thesis using assms(2) Settled by (auto simp: life_ok_def jobs_alive_def)
next
  case FetchersGone
  then have "depth s = 1" "depth (s\<lparr>draining := AwaitJobs\<rparr>) = 2" by (simp_all add: depth_def)
  then show ?thesis using assms(2) FetchersGone by (auto simp: life_ok_def jobs_alive_def)
next
  case JobsGone
  then have "depth s = 2" "depth (s\<lparr>liveDone := True, draining := AwaitHeartbeat\<rparr>) = 3" by (simp_all add: depth_def)
  then show ?thesis using assms(2) JobsGone by (auto simp: life_ok_def jobs_alive_def)
next
  case HeartbeatGone
  then have "depth s = 3" "depth (s\<lparr>draining := CloseCompleter\<rparr>) = 4" by (simp_all add: depth_def)
  then show ?thesis using assms(2) HeartbeatGone by (auto simp: life_ok_def jobs_alive_def)
next
  case CompleterGone
  then have "depth s = 5" "depth (s\<lparr>draining := Settle\<rparr>) = 6" by (simp_all add: depth_def)
  then show ?thesis using assms(2) CompleterGone by (auto simp: life_ok_def jobs_alive_def)
next
  case LaunchJob
  then show ?thesis using assms(2) by (auto simp: life_ok_def)
next
  case (MaintenanceExit k)
  then show ?thesis using assms(2) by (auto simp: life_ok_def jobs_alive_def)
next
  case (Quiet k)
  then show ?thesis using assms(2) by (auto simp: life_ok_def jobs_alive_def)
next
  case (JobDone k)
  then show ?thesis using assms(2) by (auto simp: life_ok_def jobs_alive_def)
next
  case Start
  then show ?thesis using start_stop_ok [OF assms(2)] by simp
next
  case Stop
  then show ?thesis using start_stop_ok [OF assms(2)] by simp
qed (use assms(2) in \<open>auto simp: life_ok_def jobs_alive_def\<close>)

lemma life_reach_ok: "life_reach n fl c x s \<Longrightarrow> life_ok s"
  by (induction rule: life_reach.induct) (use new_life_ok life_step_ok in fastforce)+

subsection \<open>What holds of every run\<close>

text \<open>C6: Shutting down is safe: in no reachable state of the client can a goroutine send on the completer's
  closed channel (which would crash the process), and while any execution is alive, a drain included, the
  heartbeat loop is running and has not been told to stop.\<close>

theorem shutdown_safe:
  assumes "life_reach n fl c x s"
  shows "\<not> life_step n fl c s (Inl e) \<and> (0 < jobs_alive s \<longrightarrow> beating s \<and> \<not> liveDone s)"
proof
  note ok = life_reach_ok [OF assms]
  show "\<not> life_step n fl c s (Inl e)" using life_step_ok [of n fl c s "Inl e"] ok by auto
  show "0 < jobs_alive s \<longrightarrow> beating s \<and> \<not> liveDone s"
    using alive_shallow [OF ok] ok unfolding life_ok_def by blast
qed


text \<open>A client that was started, launched a job and was told to stop.\<close>

definition sample_startable :: startable where
  "sample_startable = \<lparr>isFake = False, hasQueues = True, hasWorkers = True\<rparr>"

lemma sample_life:
  "\<exists>s :: finalizeOp list list life. life_reach n fl sample_startable x s \<and> jobs_alive s = 1 \<and> stopping s"
proof -
  let ?s0 = "new_life x :: finalizeOp list list life"
  let ?s1 = "snd (StartClient sample_startable ?s0)"
  let ?s2 = "?s1\<lparr>working := working ?s1 + 1\<rparr>"
  have d: "dispatching ?s1" "started ?s1" "jobs_alive ?s1 = 0"
    by (simp_all add: StartClient_def new_life_def sample_startable_def jobs_alive_def newCompleter_def)
  have "life_reach n fl sample_startable x ?s1" by (rule life_reach.Step [OF New life_step.Start])
  then have "life_reach n fl sample_startable x ?s2" by (rule life_reach.Step) (rule LaunchJob [OF d(1)])
  then have "life_reach n fl sample_startable x (StopClient ?s2)" by (rule life_reach.Step) (rule life_step.Stop)
  moreover have "jobs_alive (StopClient ?s2) = 1" "stopping (StopClient ?s2)"
    using d(2,3) by (simp_all add: StopClient_def jobs_alive_def)
  ultimately show ?thesis by blast
qed

lemma shutdown_safe_witness: "\<exists>s :: finalizeOp list list life. stopping s \<and> beating s \<and> \<not> liveDone s"
proof -
  obtain s where s: "life_reach 2 record_flush sample_startable [] s" "jobs_alive s = 1" "stopping s"
    using sample_life by blast
  then show ?thesis using shutdown_safe [OF s(1)] by (intro exI [of _ s]) simp
qed


end
