(* ===== verification/Fake.thy ===== *)
theory Fake
  imports Shutdown_Spec
begin

text \<open>
  \<^verbatim>\<open>fake.go\<close>: the handle that drives a client in tests. The state behind the fake is shared by the client
  and the handle, so it is part of the world they run in, next to the memory backend. A call of
  \<^verbatim>\<open>Fatalf\<close> ends the test, as does a panic; what the call did before stays done.
\<close>

subsection \<open>The fake's state\<close>

record fakeState =
  fsNow :: instant
  fsQueues :: "string set"

record 'e fake_env =
  feFake :: "fakeState option"
  feRest :: 'e

type_synonym 'e fake_world = "mem \<times> 'e fake_env"

datatype 'a test = Passes 'a | Fatal string | Crash go_error

definition fake_of :: "'e fake_world \<Rightarrow> fakeState" where
  "fake_of w = the (feFake (snd w))"

definition upd_fake :: "(fakeState \<Rightarrow> fakeState) \<Rightarrow> 'e fake_world \<Rightarrow> 'e fake_world" where
  "upd_fake f w = (fst w, (snd w)\<lparr>feFake := Some (f (fake_of w))\<rparr>)"

definition fake_now :: "'e fake_world \<Rightarrow> instant \<times> 'e fake_world" where
  "fake_now w = (fsNow (fake_of w), w)"

definition track :: "string list \<Rightarrow> 'e fake_world \<Rightarrow> 'e fake_world" where
  "track qs = upd_fake (\<lambda>st. st\<lparr>fsQueues := fsQueues st \<union> set qs\<rparr>)"

definition fake_enqueue ::
  "(('e fake_world \<Rightarrow> instant \<times> 'e fake_world) \<Rightarrow> 'e fake_world enqueue_fn)
   \<Rightarrow> ('e fake_world \<Rightarrow> instant \<times> 'e fake_world) \<Rightarrow> 'e fake_world enqueue_fn" where
  "fake_enqueue prev now js w =
     (case prev now js w of
        (Inl err, w) \<Rightarrow> (Inl err, w)
      | (Inr js, w) \<Rightarrow> (Inr js, track (map Queue js) w))"

text \<open>
  \<^verbatim>\<open>Client.Fake\<close>. \<open>running\<close> says whether the client is started or stopping, \<open>is_mem\<close> whether its backend is the
  memory backend, \<open>ord\<close> is the order of its snapshot.
\<close>

definition FakeClient ::
  "bool \<Rightarrow> bool \<Rightarrow> int list \<Rightarrow> (mem, 'e fake_env) client \<Rightarrow> 'e fake_world
   \<Rightarrow> (mem, 'e fake_env) client test \<times> 'e fake_world" where
  "FakeClient running is_mem ord c w =
     (if running then (Fatal ''goque: Fake requires a client that is not started and not stopping'', w)
      else case feFake (snd w) of
        Some st \<Rightarrow> (Passes c, w)
      | None \<Rightarrow>
          if \<not> is_mem then (Fatal ''goque: Fake requires the memory backend'', w)
          else
            (let (t, w) = clNow c w;
                 st = \<lparr>fsNow = t, fsQueues = set (map fst (cfQueues (clCfg c))) \<union> set (map Queue (SnapshotAll ord (fst w)))\<rparr>
             in (Passes (c\<lparr>clNow := fake_now, clEnqueue := fake_enqueue (clEnqueue c)\<rparr>),
                 (fst w, (snd w)\<lparr>feFake := Some st\<rparr>))))"

subsection \<open>The clock and the queues\<close>

definition Now :: "'e fake_world \<Rightarrow> instant" where
  "Now w = fsNow (fake_of w)"

definition Advance :: "duration \<Rightarrow> 'e fake_world \<Rightarrow> unit test \<times> 'e fake_world" where
  "Advance d w =
     (if sint d < 0 then (Fatal ''goque: Advance requires a non-negative duration'', w)
      else (Passes (), upd_fake (\<lambda>st. st\<lparr>fsNow := time_Add (fsNow st) d\<rparr>) w))"

definition SetNow :: "instant \<Rightarrow> 'e fake_world \<Rightarrow> unit test \<times> 'e fake_world" where
  "SetNow t w =
     (if t < fsNow (fake_of w) then (Fatal ''goque: the fake clock is monotonic'', w)
      else (Passes (), upd_fake (\<lambda>st. st\<lparr>fsNow := t\<rparr>) w))"

definition TrackQueue :: "string \<Rightarrow> 'e fake_world \<Rightarrow> 'e fake_world" where
  "TrackQueue name = track [name]"

definition trackedQueues :: "'e fake_world \<Rightarrow> string list" where
  "trackedQueues w = sorted_list_of_set (fsQueues (fake_of w))"

definition ResetFake :: "(mem, 'e fake_env) client \<Rightarrow> 'e fake_world \<Rightarrow> 'e fake_world" where
  "ResetFake c w =
     upd_fake (\<lambda>st. st\<lparr>fsQueues := set (map fst (cfQueues (clCfg c)))\<rparr>) (Reset (fst w), snd w)"

subsection \<open>Runs\<close>

text \<open>What a pass of a client runs with; the retry environment and the formatting are parameters.\<close>

definition client_run_cfg :: "fmt \<Rightarrow> retry_env \<Rightarrow> ('s, 'e) client \<Rightarrow> ('s \<times> 'e) run_cfg" where
  "client_run_cfg F E c =
     \<lparr>rcWorkers = (case clWorkers c of None \<Rightarrow> NewWorkers | Some ws \<Rightarrow> ws), rcMiddleware = cfWorkerMiddleware (clCfg c),
      rcDefaultPolicy = oRetryPolicy (cfDefaults (clCfg c)), rcErrorHandler = cfErrorHandler (clCfg c),
      rcPanicHandler = cfPanicHandler (clCfg c), rcNow = clNow c, rcFmt = F, rcRetry = E\<rparr>"

definition client_pass ::
  "fmt \<Rightarrow> retry_env \<Rightarrow> ('s \<times> 'e \<Rightarrow> go_error option) \<Rightarrow> ctx \<Rightarrow> ('s, 'e) client \<Rightarrow> ('s, 'e) proc_cfg" where
  "client_pass F E ctxErr ctx c =
     \<lparr>pcBackend = clBackend c, pcRun = client_run_cfg F E c, pcClientID = clID c, pcCtxErr = ctxErr, pcCtx = ctx\<rparr>"

record ran_job = job_result +
  raRound :: nat

text \<open>
  A handle is the client with the pass it runs; \<open>fk_workers\<close> says whether the client has a registry.
\<close>

record 'e fake =
  fkPass :: "(mem, 'e fake_env) proc_cfg"
  fkWorkers :: bool
  fkBudgets :: budgets

definition tag_round :: "nat \<Rightarrow> job_result \<Rightarrow> ran_job" where
  "tag_round k jr = job_result.extend jr \<lparr>raRound = k\<rparr>"

definition runRound ::
  "'e fake \<Rightarrow> ran_job list \<Rightarrow> nat \<Rightarrow> (mem, 'e fake_env) proc_state \<Rightarrow> (ran_job list \<times> nat) test \<times> (mem, 'e fake_env) proc_state" where
  "runRound f res k st =
     (case ProcessReady (fkBudgets f) (fkWorkers f) (fkPass f) (trackedQueues (world st)) st of
        (Panicking e, jrs, st) \<Rightarrow> (Crash e, st)
      | (Failed err, jrs, st) \<Rightarrow> (Fatal ''goque: ProcessReady failed'', st)
      | (Passed, jrs, st) \<Rightarrow> (Passes (res @ map (tag_round k) jrs, length jrs), st))"

definition RunReady :: "'e fake \<Rightarrow> (mem, 'e fake_env) proc_state \<Rightarrow> ran_job list test \<times> (mem, 'e fake_env) proc_state" where
  "RunReady f st =
     (case runRound f [] 1 st of
        (Passes (res, n), st) \<Rightarrow> (Passes res, st)
      | (Fatal m, st) \<Rightarrow> (Fatal m, st)
      | (Crash e, st) \<Rightarrow> (Crash e, st))"

text \<open>The first argument counts the rounds left of \<^verbatim>\<open>maxRounds\<close>.\<close>

fun run_rounds ::
  "nat \<Rightarrow> 'e fake \<Rightarrow> ran_job list \<Rightarrow> nat \<Rightarrow> (mem, 'e fake_env) proc_state
   \<Rightarrow> ran_job list test \<times> (mem, 'e fake_env) proc_state" where
  "run_rounds 0 f res k st = (Fatal ''goque: RunUntilIdle exceeded maxRounds'', st)"
| "run_rounds (Suc left) f res k st =
     (case runRound f res k st of
        (Passes (res, n), st) \<Rightarrow> if n = 0 then (Passes res, st) else run_rounds left f res (k + 1) st
      | (Fatal m, st) \<Rightarrow> (Fatal m, st)
      | (Crash e, st) \<Rightarrow> (Crash e, st))"

definition RunUntilIdle ::
  "'e fake \<Rightarrow> int \<Rightarrow> (mem, 'e fake_env) proc_state \<Rightarrow> ran_job list test \<times> (mem, 'e fake_env) proc_state" where
  "RunUntilIdle f maxRounds st = run_rounds (nat maxRounds) f [] 1 st"

subsection \<open>Assertions\<close>

definition Ran :: "string \<Rightarrow> ran_job list \<Rightarrow> bool" where
  "Ran kind res \<longleftrightarrow> (\<exists>j\<in>set res. Kind (jrJob j) = kind)"

definition Of :: "string \<Rightarrow> ran_job list \<Rightarrow> ran_job list" where
  "Of kind res = filter (\<lambda>j. Kind (jrJob j) = kind) res"

definition assert_that :: "string \<Rightarrow> bool \<Rightarrow> unit test" where
  "assert_that msg ok = (if ok then Passes () else Fatal msg)"

definition AssertRan :: "string \<Rightarrow> ran_job list \<Rightarrow> unit test" where
  "AssertRan kind res = assert_that ''goque: expected a job to run'' (Ran kind res)"

definition AssertNoneRan :: "ran_job list \<Rightarrow> unit test" where
  "AssertNoneRan res = assert_that ''goque: expected no jobs to run'' (length res = 0)"

definition countOutcome :: "outcome \<Rightarrow> ran_job list \<Rightarrow> nat" where
  "countOutcome out res = foldl (\<lambda>n j. if jrOutcome j = out then n + 1 else n) 0 res"

definition assertOutcome :: "outcome \<Rightarrow> int \<Rightarrow> ran_job list \<Rightarrow> unit test" where
  "assertOutcome out want res = assert_that ''goque: unexpected number of jobs'' (int (countOutcome out res) = want)"

definition AssertState :: "int \<Rightarrow> job_state \<Rightarrow> mem \<Rightarrow> unit test" where
  "AssertState i s b =
     (case Snapshot i b of
        None \<Rightarrow> Fatal ''goque: no job with id''
      | Some j \<Rightarrow> assert_that ''goque: job state'' (State j = s))"

definition AssertPending :: "int list \<Rightarrow> int \<Rightarrow> mem \<Rightarrow> unit test" where
  "AssertPending ord n b =
     assert_that ''goque: expected pending jobs''
       (int (foldl (\<lambda>got row. if \<not> Terminal (State row) then got + 1 else got) (0 :: nat) (SnapshotAll ord b)) = n)"

subsection \<open>Running a worker alone\<close>

definition RunWorker ::
  "fmt \<Rightarrow> string \<Rightarrow> go_error + raw \<Rightarrow> (raw \<Rightarrow> go_error + 'a) \<Rightarrow> (ctx \<Rightarrow> 'a \<Rightarrow> job_row \<Rightarrow> 'w \<Rightarrow> returned \<times> job_row \<times> 'w)
   \<Rightarrow> ctx \<Rightarrow> 'w \<Rightarrow> returned \<times> 'w" where
  "RunWorker F kind marshalled unmarshal work ctx w =
     (case marshalled of
        Inl err \<Rightarrow> (Returned (Some err), w)
      | Inr payload \<Rightarrow>
          (case unmarshal payload of
             Inl err \<Rightarrow> (Returned (Some (Wrapped (''goque: decode '' @ kind @ '' payload: '' @ Error F err) err)), w)
           | Inr decoded \<Rightarrow>
               (let row = zero_row\<lparr>Kind := kind, Payload := payload, Attempt := 1, Generation := 1, MaxAttempts := 1\<rparr>;
                    (r, row, w) = work ctx decoded row w
                in (r, w))))"

end
