(* ===== verification/Fake_Spec.thy ===== *)
theory Fake_Spec
  imports Fake
begin

text \<open>
  What a test may rely on: a run that ends has left nothing that is due, its rounds are numbered without
  gaps and bounded, and running a worker alone shows it what a client would show it.
\<close>

subsection \<open>Rounds\<close>

lemma rounds_extend:
  assumes "sorted (map raRound res)" "raRound ` set res = {1..<k}" "jrs \<noteq> []" "1 \<le> k"
  shows "sorted (map raRound (res @ map (tag_round k) jrs))"
    "raRound ` set (res @ map (tag_round k) jrs) = {1..<k + 1}"
proof -
  have t: "raRound (tag_round k j) = k" for j by (simp add: tag_round_def job_result.defs)
  have b: "\<forall>r\<in>set res. raRound r < k" using assms(2) by force
  show "sorted (map raRound (res @ map (tag_round k) jrs))"
    using assms(1) b by (auto simp: sorted_append t o_def map_replicate_const less_imp_le)
  have "raRound ` set (map (tag_round k) jrs) = {k}" using assms(3) by (auto simp: t image_iff neq_Nil_conv)
  then show "raRound ` set (res @ map (tag_round k) jrs) = {1..<k + 1}"
    using assms(2,4) by (auto simp: image_Un)
qed

lemma runRound_Passes:
  "runRound f res k st = (Passes (res', n), st') \<longleftrightarrow>
     (\<exists>jrs. ProcessReady (fkBudgets f) (fkWorkers f) (fkPass f) (trackedQueues (world st)) st = (Passed, jrs, st') \<and>
        res' = res @ map (tag_round k) jrs \<and> n = length jrs)"
  by (auto simp: runRound_def split: prod.splits pass_end.splits)

text \<open>What a run that passes did last: a pass that ran nothing.\<close>

lemma run_rounds_rounds:
  "run_rounds left f res k st = (Passes res', st') \<Longrightarrow> sorted (map raRound res) \<Longrightarrow> raRound ` set res = {1..<k} \<Longrightarrow>
     1 \<le> k \<Longrightarrow> \<exists>k'. sorted (map raRound res') \<and> raRound ` set res' = {1..<k'} \<and> k \<le> k' \<and> k' < k + left"
proof (induction left f res k st rule: run_rounds.induct)
  case (2 left f res k st)
  obtain r st1 where r: "runRound f res k st = (r, st1)" by fastforce
  then obtain res1 n where p: "r = Passes (res1, n)"
    using "2.prems"(1) by (cases r) auto
  obtain jrs where j: "res1 = res @ map (tag_round k) jrs" "n = length jrs"
    using r p runRound_Passes by metis
  show ?case
  proof (cases "n = 0")
    case True
    then have "res' = res" using "2.prems"(1) r p j by simp
    then show ?thesis using "2.prems"(2-4) by (intro exI [of _ k]) simp
  next
    case False
    then have n: "jrs \<noteq> []" using j by simp
    note e = rounds_extend [OF "2.prems"(2,3) n "2.prems"(4)]
    have "run_rounds left f res1 (k + 1) st1 = (Passes res', st')" using "2.prems"(1) r p False by simp
    from "2.IH" [OF r [symmetric] p refl False this] e j show ?thesis by fastforce
  qed
qed simp

lemma run_rounds_last:
  "run_rounds left f res k st = (Passes res', st') \<Longrightarrow> pcBackend (fkPass f) = mem_backend \<Longrightarrow>
     keeps (\<lambda>w. ids_ok (fst w)) (pcRun (fkPass f)) \<Longrightarrow> ids_ok (fst (world st)) \<Longrightarrow>
     \<exists>st0. ids_ok (fst (world st0)) \<and>
       ProcessReady (fkBudgets f) (fkWorkers f) (fkPass f) (trackedQueues (world st0)) st0 = (Passed, [], st')"
proof (induction left f res k st rule: run_rounds.induct)
  case (2 left f res k st)
  obtain r st1 where r: "runRound f res k st = (r, st1)" by fastforce
  then obtain res1 n where p: "r = Passes (res1, n)"
    using "2.prems"(1) by (cases r) auto
  obtain jrs where j: "ProcessReady (fkBudgets f) (fkWorkers f) (fkPass f) (trackedQueues (world st)) st = (Passed, jrs, st1)"
    "n = length jrs" using r p runRound_Passes by metis
  show ?case
  proof (cases "n = 0")
    case True
    then show ?thesis using "2.prems"(1,4) r p j by auto
  next
    case False
    have "ids_ok (fst (world st1))" using mem_store.process_ready_bound [OF "2.prems"(2-4) j(1)] by blast
    moreover have "run_rounds left f res1 (k + 1) st1 = (Passes res', st')" using "2.prems"(1) r p False by simp
    ultimately show ?thesis using "2.IH" [OF r [symmetric] p refl False] "2.prems"(2,3) by blast
  qed
qed simp

subsection \<open>A pass that ran nothing\<close>

text \<open>The fake clock reads the same world again and again.\<close>

abbreviation on_fake_clock :: "(mem, 'e fake_env) proc_cfg \<Rightarrow> bool" where
  "on_fake_clock cfg \<equiv> rcNow (pcRun cfg) = fake_now"

lemma read_fake_clock [simp]: "on_fake_clock cfg \<Longrightarrow> read_clock cfg st = (fsNow (fake_of (world st)), st)"
  by (simp add: read_clock_def fake_now_def)

lemma fake_of_store [simp]: "fake_of (s, snd w) = fake_of w"
  by (simp add: fake_of_def)

abbreviation movables :: "instant \<Rightarrow> mem \<Rightarrow> int set" where
  "movables now s \<equiv> {i. hit (movable now) (jobs s) i}"

lemma hit_dom: "{i. hit P m i} \<subseteq> dom m"
  by (auto simp: hit_iff)

lemma ids_ok_finite: "ids_ok b \<Longrightarrow> finite (dom (jobs b))"
  by (rule finite_subset [of _ "set (id_order b)"]) (auto dest: ids_ok_row id_order_ranges [unfolded ranges_def])

text \<open>One batch of promotions: it clears what is movable, or uses up its limit.\<close>

lemma move_batch:
  assumes "ids_ok s" "mem_MoveDue (id_order s) \<lparr>mp_Now = now, mp_Limit = l\<rparr> s = (Inr n, s')"
  shows "dom (jobs s') = dom (jobs s)" "int (card (movables now s')) = int (card (movables now s)) - n"
    "n < l \<Longrightarrow> movables now s' = {}"
proof -
  obtain S where S: "finite S" "int (card S) = n" "S \<subseteq> movables now s"
    and m: "\<And>i. jobs s' i = (if i \<in> S then Option.bind (jobs s i) (\<lambda>j. Some (j\<lparr>State := StateAvailable\<rparr>)) else jobs s i)"
    and n: "n = min (max 0 l) (int (card (movables now s)))"
    using mem_MoveDue_swept [OF assms(1), of "\<lparr>mp_Now = now, mp_Limit = l\<rparr>"] assms(2) by (auto simp: swept_def)
  have fin: "finite (movables now s)" using finite_subset [OF hit_dom ids_ok_finite [OF assms(1)]] .
  show "dom (jobs s') = dom (jobs s)"
    using m S(3) by (auto simp: dom_def hit_iff bind_map_option split: if_splits)
  have eq: "movables now s' = movables now s - S"
    using m by (auto simp: hit_iff movable_def bind_map_option split: if_splits)
  then show "int (card (movables now s')) = int (card (movables now s)) - n"
    using card_Diff_subset [OF S(1,3)] S(2) card_mono [OF fin S(3)] by simp
  show "movables now s' = {}" if "n < l"
    using eq that n S card_subset_eq [OF fin S(3)] by (auto simp: max_def min_def split: if_splits)
qed

lemma move_due_loop_clears:
  "move_due_loop k bud cfg st = (None, st') \<Longrightarrow> pcBackend cfg = mem_backend \<Longrightarrow> on_fake_clock cfg \<Longrightarrow>
     ids_ok (fst (world st)) \<Longrightarrow>
     snd (world st') = snd (world st) \<and> ids_ok (fst (world st')) \<and> dom (jobs (fst (world st'))) = dom (jobs (fst (world st))) \<and>
     (movables (fsNow (fake_of (world st))) (fst (world st')) = {} \<or>
      int k * moveDueBatch bud \<le> int (card (movables (fsNow (fake_of (world st))) (fst (world st)))))"
proof (induction k bud cfg st rule: move_due_loop.induct)
  case (2 k bud cfg st)
  let ?now = "fsNow (fake_of (world st))" and ?s = "fst (world st)"
  let ?p = "\<lparr>mp_Now = ?now, mp_Limit = moveDueBatch bud\<rparr>"
  obtain r s' where f: "mem_MoveDue (id_order ?s) ?p ?s = (r, s')" by fastforce
  let ?st1 = "st\<lparr>world := (s', snd (world st))\<rparr>"
  have o: "on_store (MoveDue (pcBackend cfg) ?p) st = (r, ?st1)"
    by (simp add: on_store_def "2.prems"(2) mem_backend_def f)
  have ids: "ids_ok s'" using sweep_ids_ok(2) [OF id_order_distinct "2.prems"(4)] f by (metis snd_conv)
  note unf = "2.prems"(1) [unfolded move_due_loop.simps read_fake_clock [OF "2.prems"(3)] o Let_def prod.case]
  obtain n where n: "r = Inr n" using unf by (cases r) auto
  note b = move_batch [OF "2.prems"(4) f [unfolded n]]
  show ?case
  proof (cases "n < moveDueBatch bud")
    case True
    then have "st' = ?st1" using unf n by simp
    with b True ids show ?thesis by simp
  next
    case False
    then have m: "move_due_loop k bud cfg ?st1 = (None, st')" using unf n by simp
    have "rcNow (pcRun cfg) = fake_now" using "2.prems"(3) .
    from "2.IH" [OF read_fake_clock [OF "2.prems"(3), symmetric] refl o [symmetric] refl n False m "2.prems"(2,3)] ids b False
    show ?thesis by (auto simp: algebra_simps)
  qed
qed simp

lemma drain_queue_grows:
  "drain_queue bud cfg q n results st = (e, results', st') \<Longrightarrow> length results \<le> length results'"
proof (induction bud cfg q n results st rule: drain_queue.induct)
  case (1 bud cfg q n results st)
  obtain now st1 where c: "read_clock cfg st = (now, st1)" by fastforce
  obtain r st2 where f: "on_store (Fetch (pcBackend cfg) \<lparr>fp_Queue = q, fp_Limit = 100, fp_ClientID = pcClientID cfg, fp_Now = now\<rparr>) st1 = (r, st2)"
    by fastforce
  note unf = "1.prems" [unfolded drain_queue.simps [of bud cfg q n results st] c f Let_def prod.case]
  show ?case
  proof (cases "pcCtxErr cfg (world st) = None \<and> (\<exists>js. r = Inr js \<and> js \<noteq> [])")
    case False
    then show ?thesis using unf by (auto split: option.splits sum.splits if_splits)
  next
    case True
    then obtain js where ctx: "pcCtxErr cfg (world st) = None" and js: "r = Inr js" "js \<noteq> []" by blast
    obtain p r1 st3 where rr: "run_rows cfg js results st2 = (p, r1, st3)" by (metis prod_cases3)
    have g: "length results \<le> length r1" using run_rows_results [OF rr] by auto
    show ?thesis
    proof (cases "p = None \<and> n + length js \<le> perQueueJobBudget bud")
      case False
      then show ?thesis using unf ctx js rr g by (auto split: option.splits if_splits)
    next
      case True
      then have d: "drain_queue bud cfg q (n + length js) r1 st3 = (e, results', st')"
        using unf ctx js rr by simp
      have "\<not> perQueueJobBudget bud < n + length js" using True by simp
      from "1.IH" [OF ctx c [symmetric] refl f [symmetric] refl js(1,2) rr [symmetric] refl refl _ this d] True g
      show ?thesis by simp
    qed
  qed
qed

lemma drain_queues_grows:
  "drain_queues bud cfg qs results st = (e, results', st') \<Longrightarrow> length results \<le> length results'"
proof (induction bud cfg qs results st rule: drain_queues.induct)
  case (2 bud cfg q qs results st)
  obtain e1 r1 st1 where d: "drain_queue bud cfg q 0 results st = (e1, r1, st1)" by (metis prod_cases3)
  note g = drain_queue_grows [OF d]
  show ?case
  proof (cases "e1 = Passed")
    case True
    then show ?thesis using "2.IH" [OF d [unfolded True, symmetric] refl refl] "2.prems" d g by fastforce
  next
    case False
    then show ?thesis using "2.prems" d g by (cases e1) simp_all
  qed
qed simp

text \<open>The loop over a queue that runs nothing leaves the rows as they are and finds nothing due.\<close>

abbreviation due_in :: "string \<Rightarrow> instant \<Rightarrow> job_row \<Rightarrow> bool" where
  "due_in q now j \<equiv> State j = StateAvailable \<and> Queue j = q \<and> ScheduledAt j \<le> now"

lemma drain_queue_idle:
  assumes "drain_queue bud cfg q 0 results st = (Passed, results', st')" "length results' = length results"
    "pcBackend cfg = mem_backend" "on_fake_clock cfg" "ids_ok (fst (world st))"
  shows "results' = results \<and> snd (world st') = snd (world st) \<and> ids_ok (fst (world st')) \<and>
    jobs (fst (world st')) = jobs (fst (world st)) \<and>
    (\<forall>j\<in>ran (jobs (fst (world st))). \<not> due_in q (fsNow (fake_of (world st))) j)"
proof -
  let ?now = "fsNow (fake_of (world st))" and ?s = "fst (world st)"
  let ?p = "\<lparr>fp_Queue = q, fp_Limit = 100, fp_ClientID = pcClientID cfg, fp_Now = ?now\<rparr>"
  obtain js where js: "fst (mem_Fetch (id_order ?s) ?p ?s) = Inr js"
    and fe: "fetched ?p (jobs ?s) js (jobs (snd (mem_Fetch (id_order ?s) ?p ?s)))"
    using mem_Fetch_fetched [OF assms(5), of ?p] by auto
  then obtain s' where f: "mem_Fetch (id_order ?s) ?p ?s = (Inr js, s')" and fetched: "fetched ?p (jobs ?s) js (jobs s')"
    by (metis prod.collapse snd_conv)
  let ?st1 = "st\<lparr>world := (s', snd (world st))\<rparr>"
  have o: "on_store (Fetch (pcBackend cfg) ?p) st = (Inr js, ?st1)"
    by (simp add: on_store_def assms(3) mem_backend_def f)
  have ids: "ids_ok s'" using sweep_ids_ok(1) [OF id_order_distinct assms(5), of ?s ?p] f by (metis snd_conv)
  have unf: "pcCtxErr cfg (world st) = None \<and> (if js = [] then (Passed, results, ?st1) else
      (let (panic, results, st) = run_rows cfg js results ?st1
       in case panic of Some e \<Rightarrow> (Panicking e, results, st)
          | None \<Rightarrow> if perQueueJobBudget bud < 0 + length js
              then (Failed (ErrorString (''goque: ProcessReady exceeded the job budget in queue '' @ q)), results, st)
              else drain_queue bud cfg q (0 + length js) results st)) = (Passed, results', st')"
    using assms(1) [unfolded drain_queue.simps [of bud cfg q 0 results st] read_fake_clock [OF assms(4)] Let_def prod.case o sum.case]
    by (auto split: option.splits)
  have "js = []"
  proof (rule ccontr)
    assume ne: "js \<noteq> []"
    obtain p r1 st2 where rr: "run_rows cfg js results ?st1 = (p, r1, st2)" by (metis prod_cases3)
    then have p: "p = None" using unf ne by (cases p) auto
    then have d: "drain_queue bud cfg q (length js) r1 st2 = (Passed, results', st')"
      using unf ne rr by (auto split: if_splits)
    have "length r1 = length results + length js" using run_rows_results [OF rr] p by auto
    with drain_queue_grows [OF d] assms(2) ne show False by simp
  qed
  with unf have st': "results' = results" "st' = ?st1" by auto
  have "jobs s' = jobs ?s" using fetched \<open>js = []\<close> unfolding fetched_def by auto
  moreover have "{i. hit (due ?p) (jobs ?s) i} = {}"
    using fetched \<open>js = []\<close> finite_subset [OF hit_dom ids_ok_finite [OF assms(5)]]
    by (fastforce simp: fetched_def min_def split: if_splits)
  ultimately show ?thesis using st' ids by (force simp: hit_iff due_def ran_def)
qed

lemma drain_queues_idle:
  "drain_queues bud cfg qs results st = (Passed, results', st') \<Longrightarrow> length results' = length results \<Longrightarrow>
     pcBackend cfg = mem_backend \<Longrightarrow> on_fake_clock cfg \<Longrightarrow> ids_ok (fst (world st)) \<Longrightarrow>
     snd (world st') = snd (world st) \<and> ids_ok (fst (world st')) \<and> jobs (fst (world st')) = jobs (fst (world st)) \<and>
     (\<forall>j\<in>ran (jobs (fst (world st'))). \<forall>q\<in>set qs. \<not> due_in q (fsNow (fake_of (world st))) j)"
proof (induction bud cfg qs results st rule: drain_queues.induct)
  case (2 bud cfg q qs results st)
  obtain e r1 st1 where d: "drain_queue bud cfg q 0 results st = (e, r1, st1)" by (metis prod_cases3)
  then have e: "e = Passed" using "2.prems"(1) by (cases e) simp_all
  have ds: "drain_queues bud cfg qs r1 st1 = (Passed, results', st')" using "2.prems"(1) d e by simp
  have "length results \<le> length r1" "length r1 \<le> length results'"
    using drain_queue_grows [OF d] drain_queues_grows [OF ds] by simp_all
  then have len: "length r1 = length results" "length results' = length r1" using "2.prems"(2) by simp_all
  note one = drain_queue_idle [OF d [unfolded e] len(1) "2.prems"(3-5)]
  have "fake_of (world st1) = fake_of (world st)" using one by (simp add: fake_of_def)
  with "2.IH" [OF d [unfolded e, symmetric] refl refl ds len(2) "2.prems"(3,4)] one show ?case by auto
qed simp

text \<open>A pass that ran nothing leaves nothing due, if it did not run out of promotion batches.\<close>

lemma process_idle:
  assumes "ProcessReady bud has_workers cfg qs st = (Passed, [], st')" "pcBackend cfg = mem_backend" "on_fake_clock cfg"
    "ids_ok (fst (world st))" "int (card (dom (jobs (fst (world st'))))) < int moveDueMaxBatches * moveDueBatch bud"
  shows "snd (world st') = snd (world st) \<and>
    (\<forall>j\<in>ran (jobs (fst (world st'))). \<forall>q\<in>set qs. \<not> due_in q (fsNow (fake_of (world st))) j) \<and>
    movables (fsNow (fake_of (world st))) (fst (world st')) = {}"
proof -
  obtain m st1 where m: "move_due_loop moveDueMaxBatches bud cfg st = (m, st1)" by fastforce
  let ?st2 = "st1\<lparr>fin := \<lparr>sfDropped = 0, sfLast = None\<rparr>\<rparr>" and ?now = "fsNow (fake_of (world st))"
  have "m = None" and d: "drain_queues bud cfg qs [] ?st2 = (Passed, [], st')"
    using assms(1) m by (auto simp: ProcessReady_def split: if_splits option.splits)
  note mv = move_due_loop_clears [OF m [unfolded \<open>m = None\<close>] assms(2-4)]
  have w: "world ?st2 = world st1" by simp
  have idle: "snd (world st') = snd (world st1) \<and> jobs (fst (world st')) = jobs (fst (world st1)) \<and>
     (\<forall>j\<in>ran (jobs (fst (world st'))). \<forall>q\<in>set qs. \<not> due_in q (fsNow (fake_of (world st1))) j)"
    using drain_queues_idle [OF d refl assms(2,3)] mv unfolding w by blast
  have now: "fake_of (world st1) = fake_of (world st)" using mv by (simp add: fake_of_def)
  have "card (movables ?now (fst (world st))) \<le> card (dom (jobs (fst (world st))))"
    by (rule card_mono [OF ids_ok_finite [OF assms(4)] hit_dom])
  then have "movables ?now (fst (world st1)) = {}"
    using mv assms(5) idle by auto
  then show ?thesis using idle now mv by simp
qed

text \<open>C16: Idle means that nothing is due. When \<^verbatim>\<open>RunUntilIdle\<close> comes back without failing the test, no scheduled,
  retryable or available job in a tracked queue is due by the fake clock, whatever the workers enqueued on
  the way; the store only has to hold fewer jobs than one pass can promote (a million by default).\<close>

theorem idle_means_nothing_due:
  assumes "RunUntilIdle f maxRounds st = (Passes res, st')"
    "pcBackend (fkPass f) = mem_backend" "rcNow (pcRun (fkPass f)) = fake_now"
    "keeps (\<lambda>w. ids_ok (fst w)) (pcRun (fkPass f))" "ids_ok (fst (world st))" "finite (fsQueues (fake_of (world st')))"
    "int (card (dom (jobs (fst (world st'))))) < int moveDueMaxBatches * moveDueBatch (fkBudgets f)"
    "jobs (fst (world st')) i = Some j" "Queue j \<in> fsQueues (fake_of (world st'))"
    "State j \<in> {StateScheduled, StateRetryable, StateAvailable}"
  shows "Now (world st') < ScheduledAt j"
proof -
  obtain st0 where ids: "ids_ok (fst (world st0))"
    and p: "ProcessReady (fkBudgets f) (fkWorkers f) (fkPass f) (trackedQueues (world st0)) st0 = (Passed, [], st')"
    using run_rounds_last [OF assms(1) [unfolded RunUntilIdle_def] assms(2,4,5)] by blast
  note idle = process_idle [OF p assms(2,3) ids assms(7)]
  have fk: "fake_of (world st0) = fake_of (world st')" using idle by (simp add: fake_of_def)
  have "Queue j \<in> set (trackedQueues (world st0))"
    using assms(6,9) by (simp add: trackedQueues_def fk)
  moreover have "j \<in> ran (jobs (fst (world st')))" using assms(8) by (auto simp: ran_def)
  ultimately have "\<not> due_in (Queue j) (fsNow (fake_of (world st'))) j" using idle fk by auto
  moreover have "\<not> movable (fsNow (fake_of (world st'))) j" using idle fk assms(8) by (auto simp: hit_iff)
  ultimately show ?thesis using assms(10) by (auto simp: Now_def movable_def)
qed

definition sample_fake :: "unit fake" where
  "sample_fake = \<lparr>fkPass = \<lparr>pcBackend = mem_backend,
       pcRun = sample_cfg [] (\<lambda>w. fsNow (fake_of w)) (Returned (Some (ErrorString ''x''))),
       pcClientID = ''w'', pcCtxErr = (\<lambda>_. None), pcCtx = Background\<rparr>,
     fkWorkers = True, fkBudgets = \<lparr>moveDueBatch = 10, perQueueJobBudget = 5\<rparr>\<rparr>"

definition sample_test :: "(mem, unit fake_env) proc_state" where
  "sample_test = \<lparr>world = (sample_store, \<lparr>feFake = Some \<lparr>fsNow = 300, fsQueues = {''default''}\<rparr>, feRest = ()\<rparr>),
     fin = \<lparr>sfDropped = 0, sfLast = None\<rparr>, active = Map.empty, cells = [], wake = False\<rparr>"

text \<open>The run of the sample: both jobs run in the first round, fail, and wait for their backoff.\<close>

definition sample_results :: "ran_job list" where
  "sample_results = (case fst (RunUntilIdle sample_fake 3 sample_test) of Passes res \<Rightarrow> res | _ \<Rightarrow> [])"

definition sample_end :: "(mem, unit fake_env) proc_state" where
  "sample_end = snd (RunUntilIdle sample_fake 3 sample_test)"

lemma sample_run: "RunUntilIdle sample_fake 3 sample_test = (Passes sample_results, sample_end)"
proof -
  have "case fst (RunUntilIdle sample_fake 3 sample_test) of Passes res \<Rightarrow> True | _ \<Rightarrow> False" by code_simp
  then have "fst (RunUntilIdle sample_fake 3 sample_test) = Passes sample_results"
    unfolding sample_results_def by (simp split: test.splits)
  then show ?thesis unfolding sample_end_def by (metis prod.collapse)
qed

lemma sample_end:
  "fsQueues (fake_of (world sample_end)) = {''default''}" "Now (world sample_end) = 300" "nextID (fst (world sample_end)) = 2"
  by code_simp+

lemma sample_end_job:
  "\<exists>j. jobs (fst (world sample_end)) 1 = Some j \<and> Queue j = ''default'' \<and> State j = StateRetryable"
proof -
  have "case jobs (fst (world sample_end)) 1 of Some j \<Rightarrow> Queue j = ''default'' \<and> State j = StateRetryable | None \<Rightarrow> False"
    by code_simp
  then show ?thesis by (simp split: option.splits)
qed

lemma sample_fake_ok:
  "pcBackend (fkPass sample_fake) = mem_backend" "rcNow (pcRun (fkPass sample_fake)) = fake_now"
  "keeps (\<lambda>w. ids_ok (fst w)) (pcRun (fkPass sample_fake))" "ids_ok (fst (world sample_test))"
proof -
  show "rcNow (pcRun (fkPass sample_fake)) = fake_now" by (simp add: sample_fake_def sample_cfg_def fake_now_def fun_eq_iff)
  show "keeps (\<lambda>w. ids_ok (fst w)) (pcRun (fkPass sample_fake))"
    by (simp add: keeps_def sample_fake_def sample_cfg_def workOnce_def dispatch_def chainWork_def call_handler_def split: handler_call.split)
qed (simp_all add: sample_fake_def sample_test_def)

lemma sample_end_small: "card (dom (jobs (fst (world sample_end)))) \<le> 2"
proof -
  obtain st0 where "ids_ok (fst (world st0))"
    and "ProcessReady (fkBudgets sample_fake) (fkWorkers sample_fake) (fkPass sample_fake) (trackedQueues (world st0)) st0 = (Passed, [], sample_end)"
    using run_rounds_last [OF sample_run [unfolded RunUntilIdle_def] sample_fake_ok(1,3,4)] by (elim exE conjE)
  then have "ids_ok (fst (world sample_end))" using mem_store.process_ready_bound [OF sample_fake_ok(1,3)] by simp
  then have "dom (jobs (fst (world sample_end))) \<subseteq> {1..2}"
    by (auto dest: ids_ok_row simp: sample_end(3))
  then show ?thesis using card_mono [of "{1..2::int}"] by fastforce
qed

lemma idle_means_nothing_due_witness: "300 < ScheduledAt (the (jobs (fst (world sample_end)) 1))"
proof -
  obtain j where j: "jobs (fst (world sample_end)) 1 = Some j" "Queue j = ''default''" "State j = StateRetryable"
    using sample_end_job by (elim exE conjE)
  have "int (card (dom (jobs (fst (world sample_end))))) < int moveDueMaxBatches * moveDueBatch (fkBudgets sample_fake)"
    using sample_end_small by (simp add: moveDueMaxBatches_def sample_fake_def)
  from idle_means_nothing_due [OF sample_run sample_fake_ok _ this j(1)] show ?thesis by (simp add: j sample_end)
qed

text \<open>The rounds of \<^verbatim>\<open>RunUntilIdle\<close> are numbered from one without a gap, in the order of the results, and there
  are fewer of them than allowed: the last round is the one that ran nothing.\<close>

theorem rounds_numbered:
  assumes "RunUntilIdle f maxRounds st = (Passes res, st')"
  shows "sorted (map raRound res) \<and>
    (\<exists>k < nat maxRounds. raRound ` set res = {1..k})"
proof -
  have "\<exists>k'. sorted (map raRound res) \<and> raRound ` set res = {1..<k'} \<and> 1 \<le> k' \<and> k' < 1 + nat maxRounds"
    by (rule run_rounds_rounds [OF assms [unfolded RunUntilIdle_def]]) simp_all
  then obtain k' where k: "sorted (map raRound res)" "raRound ` set res = {1..<k'}" "1 \<le> k'" "k' < 1 + nat maxRounds"
    by blast
  moreover from this have "{1..<k'} = {1..k' - 1}" by auto
  ultimately show ?thesis by (intro conjI exI [of _ "k' - 1"]) auto
qed


lemma rounds_numbered_witness: "sorted (map raRound sample_results)"
  using rounds_numbered [OF sample_run] by (rule conjunct1)

subsection \<open>A worker alone\<close>

text \<open>\<^verbatim>\<open>RunWorker\<close> is what the registry's dispatch does with the worker, on a row that is not stored.\<close>

lemma RunWorker_dispatches:
  "RunWorker F kind (Inr payload) unmarshal work ctx w =
     (case dispatch_binding F kind unmarshal work ctx
        (zero_row\<lparr>Kind := kind, Payload := payload, Attempt := 1, Generation := 1, MaxAttempts := 1\<rparr>) w of
        (r, row, w) \<Rightarrow> (r, w))"
  by (simp add: RunWorker_def dispatch_binding_def split: sum.split)

subsection \<open>Assertions\<close>

text \<open>The count of pending jobs does not depend on the order of the snapshot.\<close>

lemma AssertPending_counts:
  assumes "ranges ord b"
  shows "AssertPending ord n b = Passes () \<longleftrightarrow> n = int (card {i. hit (\<lambda>j. \<not> Terminal (State j)) (jobs b) i})"
proof -
  let ?P = "\<lambda>j. \<not> Terminal (State j)"
  have fold: "foldl (\<lambda>got row. if ?P row then got + 1 else got) (k :: nat) js = k + length (filter ?P js)" for k js
    by (induction js arbitrary: k) auto
  have ord: "distinct ord" "\<And>i. jobs b i \<noteq> None \<longleftrightarrow> i \<in> set ord"
    using assms by (auto simp: ranges_def)
  have set: "{i. hit ?P (jobs b) i} = set (filter (hit ?P (jobs b)) ord)" using ord(2) by (fastforce simp: hit_iff)
  have "length (filter ?P (SnapshotAll ord b)) = length (filter ?P (List.map_filter (jobs b) ord))"
    unfolding SnapshotAll_def by (metis mset_filter mset_sort size_mset)
  also have "\<dots> = length (filter (hit ?P (jobs b)) ord)"
    by (induction ord) (auto simp: List.map_filter_def hit_def split: option.splits)
  also have "\<dots> = card {i. hit ?P (jobs b) i}"
    using distinct_card [of "filter (hit ?P (jobs b)) ord"] set by (simp add: ord(1))
  finally show ?thesis by (auto simp: AssertPending_def assert_that_def fold)
qed

end
