(* ===== verification/Wire.thy ===== *)
theory Wire
  imports Completer
begin

text \<open>
  \<^verbatim>\<open>backend/postgres/wire.go\<close>, \<^verbatim>\<open>scan.go\<close> and \<^verbatim>\<open>migrations/001_initial.sql\<close>: the rows of the table, the
  documents a batch travels in, and how a stored row is read back.

  What the server does with a value is a parameter: \<open>pgTime\<close> is the instant a \<^verbatim>\<open>timestamptz\<close> keeps of a bound
  parameter and \<open>pgTimeText\<close> of a text (microseconds), \<open>pgJsonb\<close> the document a \<^verbatim>\<open>jsonb\<close> keeps, \<open>pgScan\<close> the
  order in which an unordered scan meets the rows.
\<close>

subsection \<open>The table\<close>

text \<open>The text columns that hold the states of Go keep the states of the model; a NULL is \<open>None\<close>.\<close>

record db_row =
  dbId :: int
  dbKind :: string
  dbQueue :: string
  dbPayload :: json
  dbState :: job_state
  dbBoost :: i64
  dbScheduled :: i64
  dbPriority :: i64
  dbAttempt :: int
  dbGeneration :: int
  dbMaxAttempts :: int
  dbCreated :: instant
  dbAttempted :: "instant option"
  dbFinalized :: "instant option"
  dbHeartbeat :: "instant option"
  dbAttemptedBy :: "string list"
  dbCancel :: bool
  dbConcurrencyKey :: "string option"
  dbThrottleKey :: "string option"
  dbDebounceKey :: "string option"
  dbDeadline :: "instant option"
  dbRetryPolicy :: "json option"
  dbMetadata :: json
  dbOutput :: "json option"
  dbVersion :: int
  dbErrors :: "attempt_error list"

text \<open>\<open>tbLocked\<close> are the rows that transactions of other sessions hold a lock on.\<close>

record table =
  tbSeq :: int
  tbRows :: "int \<rightharpoonup> db_row"
  tbLocked :: "int set"

record pg_env =
  pgTime :: "instant \<Rightarrow> instant"
  pgTimeText :: "instant \<Rightarrow> instant"
  pgJsonb :: "json \<Rightarrow> json"
  pgScan :: "table \<Rightarrow> int list"

subsection \<open>Documents\<close>

record enqueueRow =
  erKind :: string
  erQueue :: string
  erPayload :: raw
  erState :: job_state
  erPriorityBoostNS :: i64
  erScheduledAtNS :: i64
  erPriorityAtNS :: i64
  erMaxAttempts :: int
  erCreatedAt :: instant
  erConcurrencyKey :: string
  erThrottleKey :: string
  erDebounceKey :: string
  erDebounceDeadline :: "instant option"
  erRetryPolicy :: raw
  erMetadata :: raw
  erOutput :: raw
  erVersion :: int

text \<open>\<^verbatim>\<open>Err\<close> is always a JSON array with one attempt error, kept as that list.\<close>

record finalizeRow =
  frID :: int
  frGeneration :: int
  frMetadata :: raw
  frAtNS :: "i64 option"
  frErr :: "attempt_error list option"

record heartbeatRow =
  hrID :: int
  hrGeneration :: int

definition nanos :: "instant \<Rightarrow> go_error + i64" where
  "nanos t = (case ValidateInstant t of Inl err \<Rightarrow> Inl err | Inr _ \<Rightarrow> Inr (UnixNano t))"

definition fromNanos :: "i64 \<Rightarrow> instant" where
  "fromNanos ns = Unix0 ns"

text \<open>
  A text of white space only counts as no document; such a text does not parse, so \<open>blank\<close> tells it from the
  other ones that do not.
\<close>

definition blank :: "string \<Rightarrow> bool" where
  "blank s \<longleftrightarrow> (\<forall>c\<in>set s. c \<in> {CHR '' '', CHR 0x09, CHR 0x0A, CHR 0x0B, CHR 0x0C, CHR 0x0D})"

fun nonNullJSON :: "raw \<Rightarrow> raw" where
  "nonNullJSON RawNil = RawJson (JObj [])"
| "nonNullJSON RawEmpty = RawJson (JObj [])"
| "nonNullJSON (RawJson JNull) = RawJson (JObj [])"
| "nonNullJSON (RawBad s) = (if blank s then RawJson (JObj []) else RawBad s)"
| "nonNullJSON b = b"

definition rawOrNull :: "raw \<Rightarrow> raw" where
  "rawOrNull b = (if has_bytes b then b else RawNil)"

fun newEnqueueRows :: "job_row list \<Rightarrow> instant \<Rightarrow> go_error + enqueueRow list" where
  "newEnqueueRows [] now = Inr []"
| "newEnqueueRows (j # js) now =
     (let t = (if IsZero (ScheduledAt j) then now else ScheduledAt j) in
      case SubDuration t (PriorityBoost j) of
        Inl err \<Rightarrow> Inl err
      | Inr priority \<Rightarrow>
      case nanos t of
        Inl err \<Rightarrow> Inl err
      | Inr atNS \<Rightarrow>
      case nanos priority of
        Inl err \<Rightarrow> Inl err
      | Inr priorityNS \<Rightarrow>
      let st = (if now < t then StateScheduled else StateAvailable);
          version = (if Version j = 0 then 1 else Version j) in
      case (if \<not> IsZero (DebounceDeadline j) then map_sum id (\<lambda>_. Some (DebounceDeadline j)) (ValidateInstant (DebounceDeadline j))
            else Inr None) of
        Inl err \<Rightarrow> Inl err
      | Inr deadline \<Rightarrow>
      case newEnqueueRows js now of
        Inl err \<Rightarrow> Inl err
      | Inr rest \<Rightarrow>
          Inr (\<lparr>erKind = Kind j, erQueue = Queue j, erPayload = nonNullJSON (Payload j), erState = st,
            erPriorityBoostNS = PriorityBoost j, erScheduledAtNS = atNS, erPriorityAtNS = priorityNS,
            erMaxAttempts = MaxAttempts j, erCreatedAt = now, erConcurrencyKey = ConcurrencyKey j,
            erThrottleKey = ThrottleKey j, erDebounceKey = DebounceKey j, erDebounceDeadline = deadline,
            erRetryPolicy = rawOrNull (RetryPolicyBytes j), erMetadata = nonNullJSON (Metadata j),
            erOutput = rawOrNull (Output j), erVersion = version\<rparr> # rest))"

text \<open>
  \<^verbatim>\<open>json.Marshal\<close> of a batch fails on a \<^verbatim>\<open>json.RawMessage\<close> that is not a document; a nil one is written as null. The
  instant of an attempt error must lie in the years 0 to 9999.
\<close>

definition bad_raw :: "raw \<Rightarrow> bool" where
  "bad_raw b = (case b of RawEmpty \<Rightarrow> True | RawBad s \<Rightarrow> True | _ \<Rightarrow> False)"

definition raw_json :: "raw \<Rightarrow> json" where
  "raw_json b = (case b of RawJson j \<Rightarrow> j | _ \<Rightarrow> JNull)"

definition marshal_error :: go_error where
  "marshal_error = ErrorString ''json: error calling MarshalJSON''"

definition encodeBatch :: "('r \<Rightarrow> raw list) \<Rightarrow> 'r list \<Rightarrow> go_error + 'r list" where
  "encodeBatch raws rs = (if \<exists>r\<in>set rs. \<exists>b\<in>set (raws r). bad_raw b then Inl marshal_error else Inr rs)"

definition marshal_attempt_error :: "attempt_error \<Rightarrow> go_error + attempt_error list" where
  "marshal_attempt_error e =
     (if - 62167219200000000000 \<le> ae_at e \<and> ae_at e < 253402300800000000000 then Inr [e]
      else Inl (ErrorString ''Time.MarshalJSON: year outside of range [0,9999]''))"

subsection \<open>Reading a row back\<close>

definition null_time :: "instant option \<Rightarrow> instant" where
  "null_time t = (case t of None \<Rightarrow> zero_time | Some x \<Rightarrow> x)"

definition null_string :: "string option \<Rightarrow> string" where
  "null_string s = (case s of None \<Rightarrow> [] | Some x \<Rightarrow> x)"

definition null_json :: "json option \<Rightarrow> raw" where
  "null_json j = (case j of None \<Rightarrow> RawNil | Some x \<Rightarrow> RawJson x)"

definition scanJobRow :: "db_row \<Rightarrow> job_row" where
  "scanJobRow r =
    \<lparr>ID = dbId r, Kind = dbKind r, Queue = dbQueue r, Payload = RawJson (dbPayload r), State = dbState r,
     PriorityBoost = dbBoost r, PriorityAt = fromNanos (dbPriority r), Attempt = dbAttempt r, Generation = dbGeneration r,
     MaxAttempts = dbMaxAttempts r, CreatedAt = dbCreated r, ScheduledAt = fromNanos (dbScheduled r),
     AttemptedAt = null_time (dbAttempted r), FinalizedAt = null_time (dbFinalized r),
     HeartbeatAt = null_time (dbHeartbeat r), AttemptedBy = dbAttemptedBy r, CancelRequested = dbCancel r,
     ConcurrencyKey = null_string (dbConcurrencyKey r), ThrottleKey = null_string (dbThrottleKey r),
     DebounceKey = null_string (dbDebounceKey r), DebounceDeadline = null_time (dbDeadline r),
     RetryPolicyBytes = null_json (dbRetryPolicy r), Metadata = RawJson (dbMetadata r), Output = null_json (dbOutput r),
     Version = dbVersion r, Errors = dbErrors r\<rparr>"

end
