(* ===== verification/Queries.thy ===== *)
theory Queries
  imports Wire
begin

text \<open>
  The SQL statements of \<^verbatim>\<open>backend/postgres\<close>, each as one atomic operation on the table. A statement that fails
  leaves the table as it was. \<open>Ids\<close>, \<open>Ords\<close>, \<open>Rows\<close> and \<open>Count\<close> are the result sets.
\<close>

datatype set_clause = completeSet | retrySet | snoozeSet | killSet | cancelSet

datatype stmt =
    EnqueueSQL "enqueueRow list"
  | FetchSQL string i64 int instant string
  | FinalizeSQL set_clause "finalizeRow list" instant
  | HeartbeatSQL "heartbeatRow list" instant
  | MoveDueSQL i64 int
  | RescueSQL instant int i64
  | CleanSQL instant instant instant int

datatype result = Ids "int list" | Ords "nat list" | JobRows "db_row list" | Count int

subsection \<open>Enqueue\<close>

text \<open>\<^verbatim>\<open>jsonb_to_recordset\<close> reads a JSON null as NULL, in columns of type \<^verbatim>\<open>jsonb\<close> too.\<close>

definition jsonb_column :: "pg_env \<Rightarrow> raw \<Rightarrow> json option" where
  "jsonb_column E b = (if raw_json b = JNull then None else Some (pgJsonb E (raw_json b)))"

definition insert_row :: "pg_env \<Rightarrow> int \<Rightarrow> enqueueRow \<Rightarrow> db_row" where
  "insert_row E i r =
    \<lparr>dbId = i, dbKind = erKind r, dbQueue = erQueue r, dbPayload = the (jsonb_column E (erPayload r)), dbState = erState r,
     dbBoost = erPriorityBoostNS r, dbScheduled = erScheduledAtNS r, dbPriority = erPriorityAtNS r, dbAttempt = 0,
     dbGeneration = 0, dbMaxAttempts = erMaxAttempts r, dbCreated = pgTimeText E (erCreatedAt r), dbAttempted = None,
     dbFinalized = None, dbHeartbeat = None, dbAttemptedBy = [], dbCancel = False,
     dbConcurrencyKey = Some (erConcurrencyKey r), dbThrottleKey = Some (erThrottleKey r),
     dbDebounceKey = Some (erDebounceKey r), dbDeadline = map_option (pgTimeText E) (erDebounceDeadline r),
     dbRetryPolicy = jsonb_column E (erRetryPolicy r), dbMetadata = the (jsonb_column E (erMetadata r)),
     dbOutput = jsonb_column E (erOutput r), dbVersion = erVersion r, dbErrors = []\<rparr>"

fun insert_rows :: "pg_env \<Rightarrow> enqueueRow list \<Rightarrow> table \<Rightarrow> int list \<times> table" where
  "insert_rows E [] t = ([], t)"
| "insert_rows E (r # rs) t =
     (let i = tbSeq t + 1;
          (ids, t') = insert_rows E rs (t\<lparr>tbSeq := i, tbRows := (tbRows t)(i \<mapsto> insert_row E i r)\<rparr>)
      in (i # ids, t'))"

definition not_null_violation :: go_error where
  "not_null_violation = ErrorString ''null value in column violates not-null constraint''"

definition enqueueSQL :: "pg_env \<Rightarrow> enqueueRow list \<Rightarrow> table \<Rightarrow> (go_error + result) \<times> table" where
  "enqueueSQL E rs t =
     (if \<exists>r\<in>set rs. jsonb_column E (erPayload r) = None \<or> jsonb_column E (erMetadata r) = None
      then (Inl not_null_violation, t)
      else (let (ids, t') = insert_rows E rs t in (Inr (Ids ids), t')))"

subsection \<open>Fetch\<close>

text \<open>
  \<^verbatim>\<open>FOR UPDATE SKIP LOCKED\<close>: a row that another transaction holds is not a candidate.
\<close>

definition free_rows :: "pg_env \<Rightarrow> (db_row \<Rightarrow> bool) \<Rightarrow> table \<Rightarrow> int list" where
  "free_rows E P t = filter (\<lambda>i. i \<notin> tbLocked t \<and> hit P (tbRows t) i) (pgScan E t)"

definition fetch_candidates :: "pg_env \<Rightarrow> string \<Rightarrow> i64 \<Rightarrow> int \<Rightarrow> table \<Rightarrow> int list" where
  "fetch_candidates E queue nowNS limit t =
     take (nat limit) (sort_key (\<lambda>i. (sint (dbPriority (the (tbRows t i))), i))
       (free_rows E (\<lambda>r. dbState r = StateAvailable \<and> dbQueue r = queue \<and> sint (dbScheduled r) \<le> sint nowNS) t))"

definition claim_row :: "pg_env \<Rightarrow> instant \<Rightarrow> string \<Rightarrow> db_row \<Rightarrow> db_row" where
  "claim_row E now client r =
     r\<lparr>dbState := StateRunning, dbAttempt := dbAttempt r + 1, dbGeneration := dbGeneration r + 1,
       dbAttempted := Some (pgTime E now), dbHeartbeat := Some (pgTime E now), dbAttemptedBy := dbAttemptedBy r @ [client]\<rparr>"

definition update_rows :: "int list \<Rightarrow> (db_row \<Rightarrow> db_row) \<Rightarrow> table \<Rightarrow> table" where
  "update_rows ids f t = t\<lparr>tbRows := (\<lambda>i. if i \<in> set ids then map_option f (tbRows t i) else tbRows t i)\<rparr>"

definition fetchSQL ::
  "pg_env \<Rightarrow> string \<Rightarrow> i64 \<Rightarrow> int \<Rightarrow> instant \<Rightarrow> string \<Rightarrow> table \<Rightarrow> (go_error + result) \<times> table" where
  "fetchSQL E queue nowNS limit now client t =
     (let candidate = fetch_candidates E queue nowNS limit t;
          t' = update_rows candidate (claim_row E now client) t;
          claimed = map (\<lambda>i. the (tbRows t' i)) candidate
      in (Inr (JobRows (sort_key (\<lambda>r. (sint (dbPriority r), dbId r)) claimed)), t'))"

subsection \<open>Finalization\<close>

text \<open>The entries with their ordinals, and the first one of each pair of ID and generation.\<close>

fun distinct_on :: "(nat \<times> finalizeRow) list \<Rightarrow> (int \<times> int) set \<Rightarrow> (nat \<times> finalizeRow) list" where
  "distinct_on [] seen = []"
| "distinct_on ((ord, w) # ws) seen =
     (if (frID w, frGeneration w) \<in> seen then distinct_on ws seen
      else (ord, w) # distinct_on ws (insert (frID w, frGeneration w) seen))"

definition db_running :: "int \<Rightarrow> db_row \<Rightarrow> bool" where
  "db_running gen r \<longleftrightarrow> dbState r = StateRunning \<and> dbGeneration r = gen"

text \<open>\<^verbatim>\<open>COALESCE(w.metadata, j.metadata)\<close>, and the subtraction in \<^verbatim>\<open>numeric\<close> cut to the range of \<^verbatim>\<open>bigint\<close>.\<close>

definition coalesce_meta :: "pg_env \<Rightarrow> finalizeRow \<Rightarrow> db_row \<Rightarrow> json" where
  "coalesce_meta E w r = (case jsonb_column E (frMetadata w) of None \<Rightarrow> dbMetadata r | Some m \<Rightarrow> m)"

definition clampNS :: "int \<Rightarrow> i64" where
  "clampNS x = word_of_int (max (min x max_i64) min_i64)"

text \<open>One row under a set clause; \<open>None\<close> is a NULL in a column that must not be NULL.\<close>

fun set_row :: "pg_env \<Rightarrow> instant \<Rightarrow> set_clause \<Rightarrow> finalizeRow \<Rightarrow> db_row \<Rightarrow> db_row option" where
  "set_row E now completeSet w r =
     Some (r\<lparr>dbState := StateCompleted, dbFinalized := Some (pgTime E now), dbMetadata := coalesce_meta E w r\<rparr>)"
| "set_row E now retrySet w r =
     (case (frAtNS w, frErr w) of
        (Some at_ns, Some err) \<Rightarrow>
          Some (r\<lparr>dbState := StateRetryable, dbScheduled := at_ns,
             dbPriority := clampNS (sint at_ns - sint (dbBoost r)), dbFinalized := None,
             dbErrors := dbErrors r @ err, dbMetadata := coalesce_meta E w r\<rparr>)
      | _ \<Rightarrow> None)"
| "set_row E now snoozeSet w r =
     (case frAtNS w of
        Some at_ns \<Rightarrow>
          Some (r\<lparr>dbState := StateRetryable, dbAttempt := dbAttempt r - 1, dbScheduled := at_ns,
             dbPriority := clampNS (sint at_ns - sint (dbBoost r)), dbFinalized := None,
             dbMetadata := coalesce_meta E w r\<rparr>)
      | None \<Rightarrow> None)"
| "set_row E now killSet w r =
     (case frErr w of
        Some err \<Rightarrow>
          Some (r\<lparr>dbState := StateDead, dbFinalized := Some (pgTime E now), dbErrors := dbErrors r @ err,
             dbMetadata := coalesce_meta E w r\<rparr>)
      | None \<Rightarrow> None)"
| "set_row E now cancelSet w r =
     Some (r\<lparr>dbState := StateCancelled, dbFinalized := Some (pgTime E now),
        dbErrors := (case frErr w of
            None \<Rightarrow> dbErrors r
          | Some [] \<Rightarrow> dbErrors r
          | Some (e # es) \<Rightarrow> dbErrors r @ e\<lparr>ae_attempt := dbAttempt r\<rparr> # es),
        dbMetadata := coalesce_meta E w r\<rparr>)"

definition ordinals :: "'a list \<Rightarrow> (nat \<times> 'a) list" where
  "ordinals xs = zip [1..<length xs + 1] xs"

definition finalizeSQL ::
  "pg_env \<Rightarrow> set_clause \<Rightarrow> finalizeRow list \<Rightarrow> instant \<Rightarrow> table \<Rightarrow> (go_error + result) \<times> table" where
  "finalizeSQL E clause rs now t =
     (let winner = distinct_on (ordinals rs) {};
          updated = filter (\<lambda>(ord, w). hit (db_running (frGeneration w)) (tbRows t) (frID w)) winner
      in if \<exists>(ord, w)\<in>set updated. set_row E now clause w (the (tbRows t (frID w))) = None
         then (Inl not_null_violation, t)
         else (Inr (Ords (map fst updated)),
           t\<lparr>tbRows := (\<lambda>i. case List.find (\<lambda>(ord, w). frID w = i) updated of
               None \<Rightarrow> tbRows t i
             | Some (ord, w) \<Rightarrow> set_row E now clause w (the (tbRows t i)))\<rparr>))"

subsection \<open>Heartbeat and maintenance\<close>

text \<open>A duplicate of an entry would set the same value again.\<close>

definition heartbeatSQL :: "pg_env \<Rightarrow> heartbeatRow list \<Rightarrow> instant \<Rightarrow> table \<Rightarrow> (go_error + result) \<times> table" where
  "heartbeatSQL E rs now t =
     (let updated = filter (\<lambda>i. \<exists>h\<in>set rs. hrID h = i \<and> hit (db_running (hrGeneration h)) (tbRows t) i) (pgScan E t);
          t' = update_rows updated (\<lambda>r. r\<lparr>dbHeartbeat := Some (pgTime E now)\<rparr>) t
      in (Inr (Ids (filter (\<lambda>i. hit dbCancel (tbRows t') i) updated)), t'))"

definition db_movable :: "i64 \<Rightarrow> db_row \<Rightarrow> bool" where
  "db_movable nowNS r \<longleftrightarrow> dbState r \<in> {StateScheduled, StateRetryable} \<and> sint (dbScheduled r) \<le> sint nowNS"

definition moveDueSQL :: "pg_env \<Rightarrow> i64 \<Rightarrow> int \<Rightarrow> table \<Rightarrow> (go_error + result) \<times> table" where
  "moveDueSQL E nowNS limit t =
     (let candidate = take (nat limit) (sort_key (\<lambda>i. sint (dbScheduled (the (tbRows t i)))) (free_rows E (db_movable nowNS) t))
      in (Inr (Count (int (length candidate))), update_rows candidate (\<lambda>r. r\<lparr>dbState := StateAvailable\<rparr>) t))"

text \<open>A NULL is not smaller than anything.\<close>

definition null_less :: "instant option \<Rightarrow> instant \<Rightarrow> bool" where
  "null_less x t = (case x of None \<Rightarrow> False | Some s \<Rightarrow> s < t)"

definition db_stale :: "pg_env \<Rightarrow> instant \<Rightarrow> db_row \<Rightarrow> bool" where
  "db_stale E cutoff r \<longleftrightarrow> dbState r = StateRunning \<and> null_less (dbHeartbeat r) (pgTime E cutoff)"

definition rescue_db :: "i64 \<Rightarrow> db_row \<Rightarrow> db_row" where
  "rescue_db nowNS r =
     r\<lparr>dbState := StateRetryable, dbScheduled := nowNS, dbPriority := clampNS (sint nowNS - sint (dbBoost r)),
       dbFinalized := None\<rparr>"

definition rescueSQL :: "pg_env \<Rightarrow> instant \<Rightarrow> int \<Rightarrow> i64 \<Rightarrow> table \<Rightarrow> (go_error + result) \<times> table" where
  "rescueSQL E cutoff limit nowNS t =
     (let candidate = take (nat limit) (sort_key (\<lambda>i. null_time (dbHeartbeat (the (tbRows t i)))) (free_rows E (db_stale E cutoff) t))
      in (Inr (Count (int (length candidate))), update_rows candidate (rescue_db nowNS) t))"

definition db_expired :: "pg_env \<Rightarrow> instant \<Rightarrow> instant \<Rightarrow> instant \<Rightarrow> db_row \<Rightarrow> bool" where
  "db_expired E c1 c2 c3 r \<longleftrightarrow>
     (dbState r = StateCompleted \<and> null_less (dbFinalized r) (pgTime E c1)) \<or>
     (dbState r = StateCancelled \<and> null_less (dbFinalized r) (pgTime E c2)) \<or>
     (dbState r = StateDead \<and> null_less (dbFinalized r) (pgTime E c3))"

definition cleanSQL :: "pg_env \<Rightarrow> instant \<Rightarrow> instant \<Rightarrow> instant \<Rightarrow> int \<Rightarrow> table \<Rightarrow> (go_error + result) \<times> table" where
  "cleanSQL E c1 c2 c3 limit t =
     (let candidate = take (nat limit) (sort_key (\<lambda>i. null_time (dbFinalized (the (tbRows t i))))
            (free_rows E (db_expired E c1 c2 c3) t))
      in (Inr (Count (int (length candidate))),
          t\<lparr>tbRows := (\<lambda>i. if i \<in> set candidate then None else tbRows t i)\<rparr>))"

fun run_stmt :: "pg_env \<Rightarrow> stmt \<Rightarrow> table \<Rightarrow> (go_error + result) \<times> table" where
  "run_stmt E (EnqueueSQL rs) t = enqueueSQL E rs t"
| "run_stmt E (FetchSQL queue nowNS limit now client) t = fetchSQL E queue nowNS limit now client t"
| "run_stmt E (FinalizeSQL clause rs now) t = finalizeSQL E clause rs now t"
| "run_stmt E (HeartbeatSQL rs now) t = heartbeatSQL E rs now t"
| "run_stmt E (MoveDueSQL nowNS limit) t = moveDueSQL E nowNS limit t"
| "run_stmt E (RescueSQL cutoff limit nowNS) t = rescueSQL E cutoff limit nowNS t"
| "run_stmt E (CleanSQL c1 c2 c3 limit) t = cleanSQL E c1 c2 c3 limit t"

end
