(* ===== verification/Postgres.thy ===== *)
theory Postgres
  imports Queries
begin

text \<open>
  The backend of \<^verbatim>\<open>backend/postgres\<close>: \<^verbatim>\<open>postgres.go\<close>, \<^verbatim>\<open>enqueue.go\<close>, \<^verbatim>\<open>fetch.go\<close>, \<^verbatim>\<open>finalize.go\<close>, \<^verbatim>\<open>heartbeat.go\<close> and
  \<^verbatim>\<open>maintain.go\<close>. The driver is a parameter: a function that is handed a statement and the table, and
  answers with a result set or an error, of the query or while its rows were read. What the server
  refuses (a NUL character, a number beyond its column) is such an error too.
\<close>

type_synonym driver = "stmt \<Rightarrow> table \<Rightarrow> (go_error + result) \<times> table"

subsection \<open>Configuration\<close>

record pg_config =
  pgSchema :: string
  quotedSchema :: string

record pg_backend =
  pbDriver :: driver
  pbConfig :: pg_config

definition WithSchema :: "string \<Rightarrow> pg_config \<Rightarrow> pg_config" where
  "WithSchema name c = c\<lparr>pgSchema := name\<rparr>"

definition ident_start :: "char \<Rightarrow> bool" where
  "ident_start c \<longleftrightarrow> (CHR ''A'' \<le> c \<and> c \<le> CHR ''Z'') \<or> (CHR ''a'' \<le> c \<and> c \<le> CHR ''z'') \<or> c = CHR ''_''"

definition ident_char :: "char \<Rightarrow> bool" where
  "ident_char c \<longleftrightarrow> ident_start c \<or> (CHR ''0'' \<le> c \<and> c \<le> CHR ''9'')"

text \<open>\<^verbatim>\<open>schemaPattern\<close> as a test of the characters.\<close>

definition schemaPattern :: "string \<Rightarrow> bool" where
  "schemaPattern s \<longleftrightarrow> (case s of [] \<Rightarrow> False | c # cs \<Rightarrow> ident_start c \<and> list_all ident_char cs \<and> length cs \<le> 62)"

fun quote_chars :: "string \<Rightarrow> string" where
  "quote_chars [] = []"
| "quote_chars (c # cs) = (if c = CHR 0x22 then [c, c] else [c]) @ quote_chars cs"

definition quoteIdent :: "string \<Rightarrow> string" where
  "quoteIdent name = [CHR 0x22] @ quote_chars name @ [CHR 0x22]"

text \<open>Both refusals wrap \<^verbatim>\<open>ErrInvalidSchema\<close>, a sentinel of this package.\<close>

definition ErrInvalidSchema :: go_error where
  "ErrInvalidSchema = ErrorString ''goque/postgres: invalid schema name''"

definition newConfig :: "(pg_config \<Rightarrow> pg_config) list \<Rightarrow> go_error + pg_config" where
  "newConfig opts =
     (let c = fold (\<lambda>opt c. opt c) opts \<lparr>pgSchema = ''public'', quotedSchema = []\<rparr> in
      if \<not> schemaPattern (pgSchema c) then Inl (Wrapped (''goque/postgres: invalid schema name: '' @ pgSchema c) ErrInvalidSchema)
      else if pgSchema c \<noteq> fold_key (pgSchema c)
      then Inl (Wrapped (''goque/postgres: invalid schema name: '' @ pgSchema c @ '' must already be lower case'') ErrInvalidSchema)
      else Inr (c\<lparr>quotedSchema := quoteIdent (pgSchema c)\<rparr>))"

definition pg_New :: "driver option \<Rightarrow> (pg_config \<Rightarrow> pg_config) list \<Rightarrow> go_error + pg_backend" where
  "pg_New d opts =
     (case d of
        None \<Rightarrow> Inl (ErrorString ''goque/postgres: nil driver'')
      | Some d \<Rightarrow>
          (case newConfig opts of
             Inl err \<Rightarrow> Inl err
           | Inr cfg \<Rightarrow> Inr \<lparr>pbDriver = d, pbConfig = cfg\<rparr>))"

definition ValidateSchema :: "string \<Rightarrow> go_error option" where
  "ValidateSchema name = (case newConfig [WithSchema name] of Inl err \<Rightarrow> Some err | Inr _ \<Rightarrow> None)"

subsection \<open>Queries\<close>

text \<open>A query and the rows it yields; a result set of another shape does not scan.\<close>

definition pg_error :: "fmt \<Rightarrow> string \<Rightarrow> go_error \<Rightarrow> go_error" where
  "pg_error F what err = Wrapped (''goque/postgres: '' @ what @ '': '' @ Error F err) err"

definition scan_error :: go_error where
  "scan_error = ErrorString ''cannot scan''"

definition query ::
  "fmt \<Rightarrow> string \<Rightarrow> (result \<Rightarrow> 'a option) \<Rightarrow> driver \<Rightarrow> stmt \<Rightarrow> table \<Rightarrow> (go_error + 'a) \<times> table" where
  "query F what scan d q t =
     (case d q t of
        (Inl err, t') \<Rightarrow> (Inl (pg_error F what err), t')
      | (Inr res, t') \<Rightarrow> ((case scan res of None \<Rightarrow> Inl (pg_error F what scan_error) | Some x \<Rightarrow> Inr x), t'))"

fun scan_ids :: "result \<Rightarrow> int list option" where
  "scan_ids (Ids ids) = Some ids"
| "scan_ids _ = None"

fun scan_ords :: "result \<Rightarrow> nat list option" where
  "scan_ords (Ords ords) = Some ords"
| "scan_ords _ = None"

fun scan_jobs :: "result \<Rightarrow> job_row list option" where
  "scan_jobs (JobRows rs) = Some (map scanJobRow rs)"
| "scan_jobs _ = None"

fun scan_count :: "result \<Rightarrow> int option" where
  "scan_count (Count n) = Some n"
| "scan_count _ = None"

subsection \<open>Enqueue and Fetch\<close>

definition enqueue_raws :: "enqueueRow \<Rightarrow> raw list" where
  "enqueue_raws r = [erPayload r, erRetryPolicy r, erMetadata r, erOutput r]"

definition fill_row :: "instant \<Rightarrow> job_row \<Rightarrow> int \<times> enqueueRow \<Rightarrow> job_row" where
  "fill_row now j ir =
     (let (i, r) = ir;
          j = j\<lparr>ID := i, CreatedAt := now\<rparr>;
          j = (if IsZero (ScheduledAt j) then j\<lparr>ScheduledAt := now\<rparr> else j);
          j = j\<lparr>PriorityAt := fromNanos (erPriorityAtNS r), State := erState r\<rparr>
      in if Version j = 0 then j\<lparr>Version := erVersion r\<rparr> else j)"

definition pg_Enqueue :: "fmt \<Rightarrow> driver \<Rightarrow> enqueue_params \<Rightarrow> table \<Rightarrow> (go_error + job_row list) \<times> table" where
  "pg_Enqueue F d params t =
     (if ep_Jobs params = [] then (Inr [], t)
      else case newEnqueueRows (ep_Jobs params) (ep_Now params) of
        Inl err \<Rightarrow> (Inl err, t)
      | Inr rows \<Rightarrow>
      case encodeBatch enqueue_raws rows of
        Inl err \<Rightarrow> (Inl (Wrapped (''goque/postgres: encoding enqueue batch: '' @ Error F err) err), t)
      | Inr doc \<Rightarrow>
      case query F ''enqueue'' scan_ids d (EnqueueSQL doc) t of
        (Inl err, t') \<Rightarrow> (Inl err, t')
      | (Inr ids, t') \<Rightarrow>
          if length ids \<noteq> length (ep_Jobs params) then (Inl (ErrorString ''goque/postgres: enqueue inserted rows''), t')
          else (Inr (map2 (fill_row (ep_Now params)) (ep_Jobs params) (zip ids rows)), t'))"

definition pg_Fetch :: "fmt \<Rightarrow> driver \<Rightarrow> fetch_params \<Rightarrow> table \<Rightarrow> (go_error + job_row list) \<times> table" where
  "pg_Fetch F d params t =
     (if fp_Limit params \<le> 0 then (Inr [], t)
      else case nanos (fp_Now params) of
        Inl err \<Rightarrow> (Inl err, t)
      | Inr nowNS \<Rightarrow>
          query F ''fetch'' scan_jobs d (FetchSQL (fp_Queue params) nowNS (fp_Limit params) (fp_Now params) (fp_ClientID params)) t)"

subsection \<open>Finalization\<close>

definition runFinalize ::
  "fmt \<Rightarrow> driver \<Rightarrow> string \<Rightarrow> set_clause \<Rightarrow> finalizeRow list \<Rightarrow> int list \<Rightarrow> instant \<Rightarrow> table \<Rightarrow> go_error option \<times> table" where
  "runFinalize F d what clause rows ids now t =
     (if rows = [] then (None, t)
      else case encodeBatch (\<lambda>r. [frMetadata r]) rows of
        Inl err \<Rightarrow> (Some (Wrapped (''goque/postgres: encoding '' @ what @ '' batch: '' @ Error F err) err), t)
      | Inr doc \<Rightarrow>
      case query F what scan_ords d (FinalizeSQL clause doc now) t of
        (Inl err, t') \<Rightarrow> (Some err, t')
      | (Inr won, t') \<Rightarrow>
          (let stale = map snd (filter (\<lambda>(ord, i). ord \<notin> set won) (ordinals ids))
           in (if stale \<noteq> [] then Some (StaleError stale) else None, t')))"

definition pg_Complete :: "fmt \<Rightarrow> driver \<Rightarrow> complete_params \<Rightarrow> table \<Rightarrow> go_error option \<times> table" where
  "pg_Complete F d params t =
     runFinalize F d ''complete'' completeSet
       (map (\<lambda>f. \<lparr>frID = jf_ID f, frGeneration = jf_Generation f, frMetadata = rawOrNull (jf_Metadata f), frAtNS = None,
          frErr = None\<rparr>) (cp_Jobs params)) (map jf_ID (cp_Jobs params)) (cp_Now params) t"

text \<open>The loops that build a batch stop at the first entry that fails.\<close>

fun build_batch :: "('e \<Rightarrow> go_error + finalizeRow) \<Rightarrow> 'e list \<Rightarrow> go_error + finalizeRow list" where
  "build_batch f [] = Inr []"
| "build_batch f (x # xs) =
     (case f x of
        Inl err \<Rightarrow> Inl err
      | Inr r \<Rightarrow> (case build_batch f xs of Inl err \<Rightarrow> Inl err | Inr rs \<Rightarrow> Inr (r # rs)))"

definition encoding_error :: "fmt \<Rightarrow> string \<Rightarrow> go_error \<Rightarrow> go_error" where
  "encoding_error F what err = Wrapped (''goque/postgres: encoding '' @ what @ '': '' @ Error F err) err"

definition retry_row :: "fmt \<Rightarrow> job_retry \<Rightarrow> go_error + finalizeRow" where
  "retry_row F f =
     (case nanos (jr_At f) of
        Inl err \<Rightarrow> Inl err
      | Inr atNS \<Rightarrow>
      case marshal_attempt_error (jr_Err f) of
        Inl err \<Rightarrow> Inl (encoding_error F ''attempt error'' err)
      | Inr errJSON \<Rightarrow>
          Inr \<lparr>frID = jr_ID f, frGeneration = jr_Generation f, frMetadata = rawOrNull (jr_Metadata f), frAtNS = Some atNS,
            frErr = Some errJSON\<rparr>)"

definition pg_Retry :: "fmt \<Rightarrow> driver \<Rightarrow> retry_params \<Rightarrow> table \<Rightarrow> go_error option \<times> table" where
  "pg_Retry F d params t =
     (case build_batch (retry_row F) (rp_Jobs params) of
        Inl err \<Rightarrow> (Some err, t)
      | Inr rows \<Rightarrow> runFinalize F d ''retry'' retrySet rows (map jr_ID (rp_Jobs params)) (rp_Now params) t)"

definition snooze_row :: "job_snooze \<Rightarrow> go_error + finalizeRow" where
  "snooze_row f =
     (case nanos (js_At f) of
        Inl err \<Rightarrow> Inl err
      | Inr atNS \<Rightarrow>
          Inr \<lparr>frID = js_ID f, frGeneration = js_Generation f, frMetadata = rawOrNull (js_Metadata f), frAtNS = Some atNS,
            frErr = None\<rparr>)"

definition pg_Snooze :: "fmt \<Rightarrow> driver \<Rightarrow> snooze_params \<Rightarrow> table \<Rightarrow> go_error option \<times> table" where
  "pg_Snooze F d params t =
     (case build_batch snooze_row (sp_Jobs params) of
        Inl err \<Rightarrow> (Some err, t)
      | Inr rows \<Rightarrow> runFinalize F d ''snooze'' snoozeSet rows (map js_ID (sp_Jobs params)) (sp_Now params) t)"

definition kill_row :: "fmt \<Rightarrow> job_kill \<Rightarrow> go_error + finalizeRow" where
  "kill_row F f =
     (case marshal_attempt_error (jk_Err f) of
        Inl err \<Rightarrow> Inl (encoding_error F ''attempt error'' err)
      | Inr errJSON \<Rightarrow>
          Inr \<lparr>frID = jk_ID f, frGeneration = jk_Generation f, frMetadata = rawOrNull (jk_Metadata f), frAtNS = None,
            frErr = Some errJSON\<rparr>)"

definition pg_Kill :: "fmt \<Rightarrow> driver \<Rightarrow> kill_params \<Rightarrow> table \<Rightarrow> go_error option \<times> table" where
  "pg_Kill F d params t =
     (case build_batch (kill_row F) (kp_Jobs params) of
        Inl err \<Rightarrow> (Some err, t)
      | Inr rows \<Rightarrow> runFinalize F d ''kill'' killSet rows (map jk_ID (kp_Jobs params)) (kp_Now params) t)"

definition cancel_row :: "fmt \<Rightarrow> instant \<Rightarrow> job_cancel \<Rightarrow> go_error + finalizeRow" where
  "cancel_row F now f =
     (case (if jc_Err f \<noteq> []
            then map_sum id Some (marshal_attempt_error \<lparr>ae_at = now, ae_attempt = 0, ae_err = jc_Err f, ae_stack = []\<rparr>)
            else Inr None) of
        Inl err \<Rightarrow> Inl (encoding_error F ''cancel reason'' err)
      | Inr raw \<Rightarrow>
          Inr \<lparr>frID = jc_ID f, frGeneration = jc_Generation f, frMetadata = rawOrNull (jc_Metadata f), frAtNS = None,
            frErr = raw\<rparr>)"

definition pg_Cancel :: "fmt \<Rightarrow> driver \<Rightarrow> cancel_params \<Rightarrow> table \<Rightarrow> go_error option \<times> table" where
  "pg_Cancel F d params t =
     (case build_batch (cancel_row F (xp_Now params)) (xp_Jobs params) of
        Inl err \<Rightarrow> (Some err, t)
      | Inr rows \<Rightarrow> runFinalize F d ''cancel'' cancelSet rows (map jc_ID (xp_Jobs params)) (xp_Now params) t)"

subsection \<open>Heartbeat and maintenance\<close>

definition pg_Heartbeat :: "fmt \<Rightarrow> driver \<Rightarrow> heartbeat_params \<Rightarrow> table \<Rightarrow> (go_error + int list) \<times> table" where
  "pg_Heartbeat F d params t =
     (if hp_Jobs params = [] then (Inr [], t)
      else query F ''heartbeat'' scan_ids d
        (HeartbeatSQL (map (\<lambda>h. \<lparr>hrID = jh_ID h, hrGeneration = jh_Generation h\<rparr>) (hp_Jobs params)) (hp_Now params)) t)"

definition countingQuery :: "fmt \<Rightarrow> string \<Rightarrow> driver \<Rightarrow> stmt \<Rightarrow> table \<Rightarrow> (go_error + int) \<times> table" where
  "countingQuery F what d q t = query F what scan_count d q t"

definition pg_MoveDue :: "fmt \<Rightarrow> driver \<Rightarrow> move_due_params \<Rightarrow> table \<Rightarrow> (go_error + int) \<times> table" where
  "pg_MoveDue F d params t =
     (if mp_Limit params \<le> 0 then (Inr 0, t)
      else case nanos (mp_Now params) of
        Inl err \<Rightarrow> (Inl err, t)
      | Inr nowNS \<Rightarrow> countingQuery F ''move due'' d (MoveDueSQL nowNS (mp_Limit params)) t)"

definition pg_RescueStale :: "fmt \<Rightarrow> driver \<Rightarrow> rescue_params \<Rightarrow> table \<Rightarrow> (go_error + int) \<times> table" where
  "pg_RescueStale F d params t =
     (if sr_Limit params \<le> 0 then (Inr 0, t)
      else case nanos (sr_Now params) of
        Inl err \<Rightarrow> (Inl err, t)
      | Inr nowNS \<Rightarrow>
          countingQuery F ''rescue stale'' d
            (RescueSQL (time_Add (sr_Now params) (- sr_TTL params)) (sr_Limit params) nowNS) t)"

definition pg_Clean :: "fmt \<Rightarrow> driver \<Rightarrow> clean_params \<Rightarrow> table \<Rightarrow> (go_error + int) \<times> table" where
  "pg_Clean F d params t =
     (if cl_Limit params \<le> 0 then (Inr 0, t)
      else countingQuery F ''clean'' d
        (CleanSQL (time_Add (cl_Now params) (- cl_CompletedRetention params))
           (time_Add (cl_Now params) (- cl_CancelledRetention params))
           (time_Add (cl_Now params) (- cl_DeadRetention params)) (cl_Limit params)) t)"

definition pg_methods :: "fmt \<Rightarrow> pg_backend \<Rightarrow> table backend" where
  "pg_methods F b =
    \<lparr>Enqueue = pg_Enqueue F (pbDriver b), Fetch = pg_Fetch F (pbDriver b), Complete = pg_Complete F (pbDriver b),
     Retry = pg_Retry F (pbDriver b), CancelJobs = pg_Cancel F (pbDriver b), Kill = pg_Kill F (pbDriver b),
     Snooze = pg_Snooze F (pbDriver b), Heartbeat = pg_Heartbeat F (pbDriver b), MoveDue = pg_MoveDue F (pbDriver b),
     RescueStale = pg_RescueStale F (pbDriver b), Clean = pg_Clean F (pbDriver b)\<rparr>"

end
