(* ===== verification/Postgres_Finalize.thy ===== *)
theory Postgres_Finalize
  imports Postgres
begin

text \<open>
  The finalizations of the PostgreSQL backend refine those of the memory backend: \<open>table_of\<close> is the table
  that a store of the memory backend is kept as, and each call does on it what the other does on the store.
\<close>

subsection \<open>Rows as the table keeps them\<close>

definition enc_time :: "pg_env \<Rightarrow> instant \<Rightarrow> instant option" where
  "enc_time E t = (if IsZero t then None else Some (pgTime E t))"

definition enc_row :: "pg_env \<Rightarrow> job_row \<Rightarrow> db_row" where
  "enc_row E j =
    \<lparr>dbId = ID j, dbKind = Kind j, dbQueue = Queue j, dbPayload = pgJsonb E (raw_json (nonNullJSON (Payload j))),
     dbState = State j, dbBoost = PriorityBoost j, dbScheduled = UnixNano (ScheduledAt j),
     dbPriority = UnixNano (PriorityAt j), dbAttempt = Attempt j, dbGeneration = Generation j,
     dbMaxAttempts = MaxAttempts j, dbCreated = pgTimeText E (CreatedAt j), dbAttempted = enc_time E (AttemptedAt j),
     dbFinalized = enc_time E (FinalizedAt j), dbHeartbeat = enc_time E (HeartbeatAt j), dbAttemptedBy = AttemptedBy j,
     dbCancel = CancelRequested j, dbConcurrencyKey = Some (ConcurrencyKey j), dbThrottleKey = Some (ThrottleKey j),
     dbDebounceKey = Some (DebounceKey j),
     dbDeadline = (if IsZero (DebounceDeadline j) then None else Some (pgTimeText E (DebounceDeadline j))),
     dbRetryPolicy = jsonb_column E (rawOrNull (RetryPolicyBytes j)),
     dbMetadata = pgJsonb E (raw_json (nonNullJSON (Metadata j))), dbOutput = jsonb_column E (rawOrNull (Output j)),
     dbVersion = (if Version j = 0 then 1 else Version j), dbErrors = Errors j\<rparr>"

definition table_of :: "pg_env \<Rightarrow> mem \<Rightarrow> table" where
  "table_of E b = \<lparr>tbSeq = nextID b, tbRows = (\<lambda>i. map_option (enc_row E) (jobs b i)), tbLocked = {}\<rparr>"

lemma table_of_sel [simp]:
  "tbSeq (table_of E b) = nextID b" "tbRows (table_of E b) i = map_option (enc_row E) (jobs b i)" "tbLocked (table_of E b) = {}"
  by (simp_all add: table_of_def)

lemma table_of_upd:
  "nextID b' = nextID b \<Longrightarrow> (\<And>i. X i = tbRows (table_of E b') i) \<Longrightarrow> (table_of E b)\<lparr>tbRows := X\<rparr> = table_of E b'"
  by (simp add: table_of_def fun_eq_iff)

lemma hit_table_of: "hit P (tbRows (table_of E b)) i \<longleftrightarrow> hit (\<lambda>j. P (enc_row E j)) (jobs b) i"
  by (auto simp: hit_iff)

lemma enc_running [simp]: "db_running g (enc_row E j) \<longleftrightarrow> running_at g j"
  by (simp add: db_running_def running_at_def enc_row_def)

text \<open>Metadata that both backends take the same way: absent, or a document that is not null.\<close>

fun portable_meta :: "raw \<Rightarrow> bool" where
  "portable_meta (RawJson j) \<longleftrightarrow> j \<noteq> JNull"
| "portable_meta (RawBad s) \<longleftrightarrow> False"
| "portable_meta _ \<longleftrightarrow> True"

lemma portable_meta_encodes: "portable_meta m \<Longrightarrow> \<not> bad_raw (rawOrNull m)"
  by (cases m) (auto simp: bad_raw_def rawOrNull_def)

lemma nonNull_json: "j \<noteq> JNull \<Longrightarrow> nonNullJSON (RawJson j) = RawJson j"
  by (cases j) simp_all

lemma enc_merge:
  assumes "portable_meta m" "frMetadata w = rawOrNull m"
  shows "enc_row E (mergeMeta m j) = (enc_row E j)\<lparr>dbMetadata := coalesce_meta E w (enc_row E j)\<rparr>"
  using assms
  by (cases m) (auto simp: enc_row_def mergeMeta_def coalesce_meta_def jsonb_column_def rawOrNull_def raw_json_def
      nonNull_json)

lemma storable_nanos [simp]: "storable t \<Longrightarrow> nanos t = Inr (UnixNano t)"
  by (simp add: nanos_def ValidateInstant_Inr)

lemma storable_not_zero [simp]: "storable t \<Longrightarrow> \<not> IsZero t"
  using zero_not_storable by (auto simp: IsZero_def)

lemma clampNS_clamped:
  "storable t \<Longrightarrow> UnixNano (SubDurationClamped t d) = clampNS (sint (UnixNano t) - sint d)"
  by (simp add: SubDurationClamped_spec clamp_instant_def clampNS_def UnixNano_def storable_iff min.commute max.commute)

subsection \<open>Winners\<close>

lemma ordinals_map: "ordinals (map f xs) = map (apsnd f) (ordinals xs)"
  by (simp add: ordinals_def zip_map2 apsnd_def map_prod_def)

lemma distinct_on_sub: "set (distinct_on ws seen) \<subseteq> set ws"
  by (induction ws seen rule: distinct_on.induct) auto

text \<open>The winner of a row is the first entry that matches it.\<close>

lemma find_winner:
  assumes "\<forall>g. K i g \<longrightarrow> (i, g) \<notin> seen"
  shows "List.find (\<lambda>p. frID (snd p) = i) (filter (\<lambda>p. K (frID (snd p)) (frGeneration (snd p))) (distinct_on ws seen)) =
    List.find (\<lambda>p. frID (snd p) = i \<and> K i (frGeneration (snd p))) ws"
  using assms
proof (induction ws seen rule: distinct_on.induct)
  case (2 ord w ws seen)
  show ?case
  proof (cases "(frID w, frGeneration w) \<in> seen")
    case True
    then show ?thesis using "2.IH"(1) "2.prems" by auto
  next
    case False
    show ?thesis
    proof (cases "frID w = i \<and> K i (frGeneration w)")
      case True
      then show ?thesis using False by simp
    next
      case no: False
      then have "\<forall>g. K i g \<longrightarrow> (i, g) \<notin> insert (frID w, frGeneration w) seen" using "2.prems" by blast
      from "2.IH"(2) [OF False this] no False show ?thesis by auto
    qed
  qed
qed simp

definition winning :: "(finalizeRow \<Rightarrow> bool) \<Rightarrow> (nat \<times> finalizeRow) list \<Rightarrow> (int \<times> int) set \<Rightarrow> nat list" where
  "winning H ws seen = map fst (filter (\<lambda>p. H (snd p)) (distinct_on ws seen))"

lemma winning_sub: "set (winning H ws seen) \<subseteq> fst ` set ws"
  using distinct_on_sub [of ws seen] by (auto simp: winning_def)

lemma winning_Cons:
  "winning H ((ord, w) # ws) seen =
     (if (frID w, frGeneration w) \<in> seen then winning H ws seen
      else (if H w then [ord] else []) @ winning H ws (insert (frID w, frGeneration w) seen))"
  by (simp add: winning_def)

text \<open>The entries that the loop of the memory backend reports are those that do not win.\<close>

lemma stale_ordinals:
  assumes app: "\<And>f j. State (app f j) \<noteq> StateRunning" and mk: "\<And>f. frID (mk f) = idf f" "\<And>f. frGeneration (mk f) = gen f"
    and "\<And>i g. hit (running_at g) m i \<longleftrightarrow> hit (running_at g) m0 i \<and> (i, g) \<notin> seen" and "distinct (map fst ps)"
  shows "fst (finalize_loop idf gen now app (map snd ps) m) =
    map (idf \<circ> snd) (filter (\<lambda>p. fst p \<notin> set (winning (\<lambda>w. hit (running_at (frGeneration w)) m0 (frID w)) (map (apsnd mk) ps) seen)) ps)"
  using assms(4,5)
proof (induction ps arbitrary: m seen)
  case (Cons p ps)
  obtain n f where p: "p = (n, f)" by fastforce
  let ?won = "\<lambda>seen. winning (\<lambda>w. hit (running_at (frGeneration w)) m0 (frID w)) (map (apsnd mk) ps) seen"
  have new: "n \<notin> fst ` set ps" and d: "distinct (map fst ps)" using Cons.prems(2) p by auto
  have later: "n \<notin> set (?won s)" for s
    using subsetD [OF winning_sub, of n _ "map (apsnd mk) ps" s] new by (force simp: image_iff)
  have rest: "filter (\<lambda>q. fst q \<noteq> n \<and> fst q \<notin> set (?won s)) ps = filter (\<lambda>q. fst q \<notin> set (?won s)) ps" for s
    using new by (intro filter_cong) auto
  show ?case
  proof (cases "hit (running_at (gen f)) m (idf f)")
    case True
    let ?m = "m(idf f \<mapsto> app f ((the (m (idf f)))\<lparr>FinalizedAt := now\<rparr>))" and ?seen = "insert (idf f, gen f) seen"
    have upd: "hit (running_at g) ?m i \<longleftrightarrow> hit (running_at g) m0 i \<and> (i, g) \<notin> ?seen" for i g
      using Cons.prems(1) True app by (auto simp: hit_iff running_at_def)
    have "hit (running_at (gen f)) m0 (idf f)" "(idf f, gen f) \<notin> seen" using True Cons.prems(1) by blast+
    then show ?thesis using True Cons.IH [OF upd d] by (simp add: p winning_Cons mk rest del: fun_upd_apply)
  next
    case False
    show ?thesis
    proof (cases "(idf f, gen f) \<in> seen")
      case True
      then show ?thesis
        using Cons.IH [OF Cons.prems(1) d] False later by (simp add: p winning_Cons mk case_prod_beta)
    next
      case seen: False
      then have no: "\<not> hit (running_at (gen f)) m0 (idf f)" using Cons.prems(1) False by blast
      then have upd: "hit (running_at g) m i \<longleftrightarrow> hit (running_at g) m0 i \<and> (i, g) \<notin> insert (idf f, gen f) seen" for i g
        using Cons.prems(1) by auto
      show ?thesis
        using Cons.IH [OF upd d] no seen False later by (simp add: p winning_Cons mk case_prod_beta)
    qed
  qed
qed simp

subsection \<open>One call\<close>

lemma ordinals_distinct [simp]: "distinct (map fst (ordinals xs))" and ordinals_snd [simp]: "map snd (ordinals xs) = xs"
  by (simp_all add: ordinals_def del: upt_Suc)

lemma encodeBatch_ok: "(\<And>r b. r \<in> set rs \<Longrightarrow> b \<in> set (raws r) \<Longrightarrow> \<not> bad_raw b) \<Longrightarrow> encodeBatch raws rs = Inr rs"
  by (auto simp: encodeBatch_def)

text \<open>How one entry \<open>f\<close> travels (\<open>mk f\<close>), and that the set clause does on the stored row what \<open>app\<close> does on the row.\<close>

definition mirrors ::
  "pg_env \<Rightarrow> instant \<Rightarrow> set_clause \<Rightarrow> ('e \<Rightarrow> finalizeRow) \<Rightarrow> ('e \<Rightarrow> int) \<Rightarrow> ('e \<Rightarrow> int) \<Rightarrow> ('e \<Rightarrow> job_row \<Rightarrow> job_row) \<Rightarrow> 'e \<Rightarrow> bool" where
  "mirrors E now clause mk idf gen app f \<longleftrightarrow>
     frID (mk f) = idf f \<and> frGeneration (mk f) = gen f \<and> \<not> bad_raw (frMetadata (mk f)) \<and>
     (\<forall>j. set_row E now clause (mk f) (enc_row E j) = Some (enc_row E (app f (j\<lparr>FinalizedAt := now\<rparr>))))"

lemma find_map_apsnd: "List.find P (map (apsnd f) xs) = map_option (apsnd f) (List.find (\<lambda>p. P (apsnd f p)) xs)"
  by (induction xs) auto

lemma find_ordinals: "map_option snd (List.find (\<lambda>p. Q (snd p)) (ordinals xs)) = List.find Q xs"
proof -
  have "map_option snd (List.find (\<lambda>p. Q (snd p)) ps) = List.find Q (map snd ps)" for ps :: "(nat \<times> 'a) list"
    by (induction ps) auto
  then show ?thesis by simp
qed

lemma deciding_mapped:
  "deciding idf gen fs m i = map_option snd (List.find (\<lambda>p. idf (snd p) = i \<and> hit (running_at (gen (snd p))) m i) (ordinals fs))"
  unfolding deciding_def by (rule find_ordinals [symmetric])

lemma runFinalize_refines:
  assumes app: "\<And>f j. State (app f j) \<noteq> StateRunning"
    and ok: "\<And>f. f \<in> set fs \<Longrightarrow> mirrors E now clause mk idf gen app f"
    and mk: "\<And>f. frID (mk f) = idf f" "\<And>f. frGeneration (mk f) = gen f"
  shows "runFinalize F (run_stmt E) what clause (map mk fs) (map idf fs) now (table_of E b) =
    (fst (finalize idf gen now app fs b), table_of E (snd (finalize idf gen now app fs b)))"
proof (cases "fs = []")
  case True
  then show ?thesis by (simp add: runFinalize_def finalize_def)
next
  case False
  let ?H = "\<lambda>w. hit (running_at (frGeneration w)) (jobs b) (frID w)"
  let ?ws = "ordinals (map mk fs)"
  let ?updated = "filter (\<lambda>p. ?H (snd p)) (distinct_on ?ws {})"
  have enc: "encodeBatch (\<lambda>r. [frMetadata r]) (map mk fs) = Inr (map mk fs)"
    using ok by (intro encodeBatch_ok) (auto simp: mirrors_def)
  have row: "set_row E now clause w (enc_row E j) = Some (enc_row E (app f (j\<lparr>FinalizedAt := now\<rparr>)))"
    if "f \<in> set fs" "w = mk f" for f w j
    using ok that by (simp add: mirrors_def)
  have sub: "\<exists>f\<in>set fs. w = mk f" if "(n, w) \<in> set ?updated" for n w
    using that distinct_on_sub [of ?ws "{}"] by (force simp: ordinals_def dest: set_zip_rightD)
  have none: "\<not> (\<exists>(ord, w)\<in>set ?updated. set_row E now clause w (the (tbRows (table_of E b) (frID w))) = None)"
  proof clarify
    fix n w assume u: "(n, w) \<in> set ?updated" and "set_row E now clause w (the (tbRows (table_of E b) (frID w))) = None"
    moreover obtain j where "jobs b (frID w) = Some j" using u by (auto simp: hit_iff)
    ultimately show False using sub [OF u] row by fastforce
  qed
  have found: "List.find (\<lambda>p. frID (snd p) = i) ?updated =
      List.find (\<lambda>p. frID (snd p) = i \<and> hit (running_at (frGeneration (snd p))) (jobs b) i) ?ws" for i
    by (rule find_winner [where K = "\<lambda>i g. hit (running_at g) (jobs b) i"]) simp
  have dec: "map_option snd (List.find (\<lambda>p. frID (snd p) = i) ?updated) = map_option mk (deciding idf gen fs (jobs b) i)" for i
    unfolding found deciding_mapped by (simp add: ordinals_map find_map_apsnd mk option.map_comp o_def)
  have rows: "(case List.find (\<lambda>(ord, w). frID w = i) ?updated of
        None \<Rightarrow> tbRows (table_of E b) i
      | Some (ord, w) \<Rightarrow> set_row E now clause w (the (tbRows (table_of E b) i))) =
      tbRows (table_of E (snd (finalize idf gen now app fs b))) i" for i
  proof (cases "deciding idf gen fs (jobs b) i")
    case None
    then show ?thesis
      using dec [of i] by (simp add: finalize_jobs [where app = app, OF app] case_prod_beta')
  next
    case (Some f)
    then obtain j where f: "f \<in> set fs" and j: "jobs b i = Some j" using deciding_Some by metis
    obtain n w where w: "List.find (\<lambda>p. frID (snd p) = i) ?updated = Some (n, w)" "w = mk f"
      using dec [of i] Some by auto
    then show ?thesis
      using row [OF f w(2)] j Some by (simp add: finalize_jobs [where app = app, OF app] case_prod_beta')
  qed
  have sql: "finalizeSQL E clause (map mk fs) now (table_of E b) =
      (Inr (Ords (winning ?H ?ws {})), table_of E (snd (finalize idf gen now app fs b)))"
    unfolding finalizeSQL_def Let_def hit_table_of enc_running case_prod_beta'
    using none [unfolded case_prod_beta'] table_of_upd [OF finalize_nextID rows [unfolded case_prod_beta']]
    by (simp add: winning_def del: table_of_sel)
  have "fst (finalize_loop idf gen now app (map snd (ordinals fs)) (jobs b)) =
      map (idf \<circ> snd) (filter (\<lambda>p. fst p \<notin> set (winning ?H (map (apsnd mk) (ordinals fs)) {})) (ordinals fs))"
    by (rule stale_ordinals [OF app mk]) simp_all
  then have "map snd (filter (\<lambda>(ord, i). ord \<notin> set (winning ?H ?ws {})) (ordinals (map idf fs))) =
      fst (finalize_loop idf gen now app fs (jobs b))"
    by (simp add: ordinals_map filter_map o_def case_prod_beta')
  then show ?thesis
    using False enc sql by (simp add: runFinalize_def query_def finalize_def case_prod_beta' Let_def)
qed

end
