(* ===== verification/Postgres_Calls.thy ===== *)
theory Postgres_Calls
  imports Postgres_Finalize
begin

text \<open>
  Call by call: what the PostgreSQL backend does on the table of a store is what the memory backend does on the
  store. Calls are \<open>portable\<close> when both take their parameters the same way: documents that are documents,
  instants that can be stored, cutoffs in whole microseconds, rows that are new.
\<close>

subsection \<open>Finalizations\<close>

definition dated :: "attempt_error \<Rightarrow> bool" where
  "dated e \<longleftrightarrow> - 62167219200000000000 \<le> ae_at e \<and> ae_at e < 253402300800000000000"

lemma marshal_dated [simp]: "dated e \<Longrightarrow> marshal_attempt_error e = Inr [e]"
  by (simp add: dated_def marshal_attempt_error_def)

lemma storable_dated: "storable (ae_at e) \<Longrightarrow> dated e"
  by (simp add: dated_def storable_iff min_i64_def max_i64_def)

lemma enc_time_storable: "storable t \<Longrightarrow> enc_time E t = Some (pgTime E t)"
  by (simp add: enc_time_def)

lemma enc_time_zero [simp]: "enc_time E zero_time = None"
  by (simp add: enc_time_def IsZero_def)

definition complete_entry :: "job_finalize \<Rightarrow> finalizeRow" where
  "complete_entry f = \<lparr>frID = jf_ID f, frGeneration = jf_Generation f, frMetadata = rawOrNull (jf_Metadata f), frAtNS = None, frErr = None\<rparr>"

definition retry_entry :: "job_retry \<Rightarrow> finalizeRow" where
  "retry_entry f = \<lparr>frID = jr_ID f, frGeneration = jr_Generation f, frMetadata = rawOrNull (jr_Metadata f),
     frAtNS = Some (UnixNano (jr_At f)), frErr = Some [jr_Err f]\<rparr>"

definition snooze_entry :: "job_snooze \<Rightarrow> finalizeRow" where
  "snooze_entry f = \<lparr>frID = js_ID f, frGeneration = js_Generation f, frMetadata = rawOrNull (js_Metadata f),
     frAtNS = Some (UnixNano (js_At f)), frErr = None\<rparr>"

definition kill_entry :: "job_kill \<Rightarrow> finalizeRow" where
  "kill_entry f = \<lparr>frID = jk_ID f, frGeneration = jk_Generation f, frMetadata = rawOrNull (jk_Metadata f), frAtNS = None,
     frErr = Some [jk_Err f]\<rparr>"

definition cancel_entry :: "instant \<Rightarrow> job_cancel \<Rightarrow> finalizeRow" where
  "cancel_entry now f = \<lparr>frID = jc_ID f, frGeneration = jc_Generation f, frMetadata = rawOrNull (jc_Metadata f), frAtNS = None,
     frErr = (if jc_Err f = [] then None else Some [\<lparr>ae_at = now, ae_attempt = 0, ae_err = jc_Err f, ae_stack = []\<rparr>])\<rparr>"

lemmas entry_defs = complete_entry_def retry_entry_def snooze_entry_def kill_entry_def cancel_entry_def

lemma enc_row_upd:
  "enc_row E (j\<lparr>State := st\<rparr>) = (enc_row E j)\<lparr>dbState := st\<rparr>"
  "enc_row E (j\<lparr>FinalizedAt := t\<rparr>) = (enc_row E j)\<lparr>dbFinalized := enc_time E t\<rparr>"
  "enc_row E (j\<lparr>HeartbeatAt := t\<rparr>) = (enc_row E j)\<lparr>dbHeartbeat := enc_time E t\<rparr>"
  "enc_row E (j\<lparr>ScheduledAt := t\<rparr>) = (enc_row E j)\<lparr>dbScheduled := UnixNano t\<rparr>"
  "enc_row E (j\<lparr>PriorityAt := t\<rparr>) = (enc_row E j)\<lparr>dbPriority := UnixNano t\<rparr>"
  "enc_row E (j\<lparr>Errors := es\<rparr>) = (enc_row E j)\<lparr>dbErrors := es\<rparr>"
  "enc_row E (j\<lparr>Attempt := n\<rparr>) = (enc_row E j)\<lparr>dbAttempt := n\<rparr>"
  by (simp_all add: enc_row_def)

lemma enc_row_sel [simp]:
  "dbId (enc_row E j) = ID j" "dbState (enc_row E j) = State j" "dbQueue (enc_row E j) = Queue j"
  "dbBoost (enc_row E j) = PriorityBoost j" "dbErrors (enc_row E j) = Errors j" "dbAttempt (enc_row E j) = Attempt j"
  "dbGeneration (enc_row E j) = Generation j" "dbScheduled (enc_row E j) = UnixNano (ScheduledAt j)"
  "dbPriority (enc_row E j) = UnixNano (PriorityAt j)" "dbHeartbeat (enc_row E j) = enc_time E (HeartbeatAt j)"
  "dbFinalized (enc_row E j) = enc_time E (FinalizedAt j)" "dbCancel (enc_row E j) = CancelRequested j"
  "dbAttemptedBy (enc_row E j) = AttemptedBy j"
  by (simp_all add: enc_row_def)

lemma coalesce_upd [simp]:
  "coalesce_meta E w (r\<lparr>dbState := st\<rparr>) = coalesce_meta E w r" "coalesce_meta E w (r\<lparr>dbFinalized := t\<rparr>) = coalesce_meta E w r"
  "coalesce_meta E w (r\<lparr>dbScheduled := s\<rparr>) = coalesce_meta E w r" "coalesce_meta E w (r\<lparr>dbPriority := s\<rparr>) = coalesce_meta E w r"
  "coalesce_meta E w (r\<lparr>dbErrors := es\<rparr>) = coalesce_meta E w r" "coalesce_meta E w (r\<lparr>dbAttempt := n\<rparr>) = coalesce_meta E w r"
  by (simp_all add: coalesce_meta_def split: option.split)

lemma mirrors_merge:
  assumes "frID (mk f) = idf f" "frGeneration (mk f) = gen f" "frMetadata (mk f) = rawOrNull m" "portable_meta m"
    and "\<And>j. app f j = mergeMeta m (core j)"
    and "\<And>j. let r = enc_row E (core (j\<lparr>FinalizedAt := now\<rparr>))
      in set_row E now clause (mk f) (enc_row E j) = Some (r\<lparr>dbMetadata := coalesce_meta E (mk f) r\<rparr>)"
  shows "mirrors E now clause mk idf gen app f"
  using assms by (simp add: mirrors_def portable_meta_encodes enc_merge [where w = "mk f"] Let_def)

lemma complete_mirrors:
  "storable now \<Longrightarrow> portable_meta (jf_Metadata f) \<Longrightarrow>
     mirrors E now completeSet complete_entry jf_ID jf_Generation apply_complete f"
  by (rule mirrors_merge [where core = "\<lambda>j. j\<lparr>State := StateCompleted\<rparr>"])
    (simp_all add: complete_entry_def apply_complete_def enc_row_upd enc_time_storable Let_def)

lemma retry_mirrors:
  "storable (jr_At f) \<Longrightarrow> portable_meta (jr_Metadata f) \<Longrightarrow>
     mirrors E now retrySet retry_entry jr_ID jr_Generation apply_retry f"
  by (rule mirrors_merge [where core = "\<lambda>j. j\<lparr>State := StateRetryable, ScheduledAt := jr_At f,
          PriorityAt := SubDurationClamped (jr_At f) (PriorityBoost j), FinalizedAt := zero_time, Errors := Errors j @ [jr_Err f]\<rparr>"])
    (simp_all add: retry_entry_def apply_retry_def enc_row_upd clampNS_clamped Let_def)

lemma snooze_mirrors:
  "storable (js_At f) \<Longrightarrow> portable_meta (js_Metadata f) \<Longrightarrow>
     mirrors E now snoozeSet snooze_entry js_ID js_Generation apply_snooze f"
  by (rule mirrors_merge [where core = "\<lambda>j. j\<lparr>State := StateRetryable, Attempt := Attempt j - 1, ScheduledAt := js_At f,
          PriorityAt := SubDurationClamped (js_At f) (PriorityBoost j), FinalizedAt := zero_time\<rparr>"])
    (simp_all add: snooze_entry_def apply_snooze_def enc_row_upd clampNS_clamped Let_def)

lemma kill_mirrors:
  "storable now \<Longrightarrow> portable_meta (jk_Metadata f) \<Longrightarrow>
     mirrors E now killSet kill_entry jk_ID jk_Generation apply_kill f"
  by (rule mirrors_merge [where core = "\<lambda>j. j\<lparr>State := StateDead, Errors := Errors j @ [jk_Err f]\<rparr>"])
    (simp_all add: kill_entry_def apply_kill_def enc_row_upd enc_time_storable Let_def)

lemma cancel_mirrors:
  "storable now \<Longrightarrow> portable_meta (jc_Metadata f) \<Longrightarrow>
     mirrors E now cancelSet (cancel_entry now) jc_ID jc_Generation (apply_cancel now) f"
  by (rule mirrors_merge [where core = "\<lambda>j. j\<lparr>State := StateCancelled,
          Errors := (if jc_Err f = [] then Errors j
            else Errors j @ [\<lparr>ae_at = now, ae_attempt = Attempt j, ae_err = jc_Err f, ae_stack = []\<rparr>])\<rparr>"])
    (cases "jc_Err f = []"; simp add: cancel_entry_def apply_cancel_def enc_row_upd enc_time_storable Let_def)+

lemma build_batch_ok: "(\<And>x. x \<in> set xs \<Longrightarrow> f x = Inr (mk x)) \<Longrightarrow> build_batch f xs = Inr (map mk xs)"
  by (induction xs) auto

lemma not_storable: "ValidateInstant t = Inl e \<Longrightarrow> \<not> storable t"
  using ValidateInstant_Inr by fastforce

lemma build_batch_validate:
  assumes "\<And>x. x \<in> set xs \<Longrightarrow> f x = (case ValidateInstant (t x) of Inl err \<Rightarrow> Inl err | Inr _ \<Rightarrow> Inr (mk x))"
  shows "build_batch f xs = (case validate_all (map t xs) of Some err \<Rightarrow> Inl err | None \<Rightarrow> Inr (map mk xs))"
  using assms by (induction xs) (auto dest: not_storable split: sum.splits option.splits)

lemma pg_Complete_refines:
  assumes "storable (cp_Now p)" "\<And>f. f \<in> set (cp_Jobs p) \<Longrightarrow> portable_meta (jf_Metadata f)"
  shows "pg_Complete F (run_stmt E) p (table_of E b) = (fst (mem_Complete p b), table_of E (snd (mem_Complete p b)))"
  unfolding pg_Complete_def mem_Complete_def complete_entry_def [symmetric]
  by (rule runFinalize_refines [OF leaves_running(1) complete_mirrors [OF assms]]) (simp_all add: complete_entry_def)

lemma pg_Kill_refines:
  assumes "storable (kp_Now p)" "\<And>f. f \<in> set (kp_Jobs p) \<Longrightarrow> portable_meta (jk_Metadata f) \<and> dated (jk_Err f)"
  shows "pg_Kill F (run_stmt E) p (table_of E b) = (fst (mem_Kill p b), table_of E (snd (mem_Kill p b)))"
proof -
  have "build_batch (kill_row F) (kp_Jobs p) = Inr (map kill_entry (kp_Jobs p))"
    by (rule build_batch_ok) (simp add: kill_row_def kill_entry_def assms(2))
  moreover have "runFinalize F (run_stmt E) ''kill'' killSet (map kill_entry (kp_Jobs p)) (map jk_ID (kp_Jobs p)) (kp_Now p) (table_of E b) =
      (fst (mem_Kill p b), table_of E (snd (mem_Kill p b)))"
    unfolding mem_Kill_def
    by (rule runFinalize_refines [OF leaves_running(4) kill_mirrors [OF assms(1)]]) (simp_all add: kill_entry_def assms(2))
  ultimately show ?thesis by (simp add: pg_Kill_def)
qed

lemma pg_Cancel_refines:
  assumes "storable (xp_Now p)" "\<And>f. f \<in> set (xp_Jobs p) \<Longrightarrow> portable_meta (jc_Metadata f)"
  shows "pg_Cancel F (run_stmt E) p (table_of E b) = (fst (mem_Cancel p b), table_of E (snd (mem_Cancel p b)))"
proof -
  have "build_batch (cancel_row F (xp_Now p)) (xp_Jobs p) = Inr (map (cancel_entry (xp_Now p)) (xp_Jobs p))"
    by (rule build_batch_ok) (simp add: cancel_row_def cancel_entry_def storable_dated assms(1))
  moreover have "runFinalize F (run_stmt E) ''cancel'' cancelSet (map (cancel_entry (xp_Now p)) (xp_Jobs p)) (map jc_ID (xp_Jobs p))
      (xp_Now p) (table_of E b) = (fst (mem_Cancel p b), table_of E (snd (mem_Cancel p b)))"
    unfolding mem_Cancel_def
    by (rule runFinalize_refines [OF leaves_running(3) cancel_mirrors [OF assms]]) (simp_all add: cancel_entry_def)
  ultimately show ?thesis by (simp add: pg_Cancel_def)
qed

lemma pg_Retry_refines:
  assumes "\<And>f. f \<in> set (rp_Jobs p) \<Longrightarrow> portable_meta (jr_Metadata f) \<and> dated (jr_Err f)"
  shows "pg_Retry F (run_stmt E) p (table_of E b) = (fst (mem_Retry p b), table_of E (snd (mem_Retry p b)))"
proof -
  have build: "build_batch (retry_row F) (rp_Jobs p) =
      (case validate_all (map jr_At (rp_Jobs p)) of Some err \<Rightarrow> Inl err | None \<Rightarrow> Inr (map retry_entry (rp_Jobs p)))"
    by (rule build_batch_validate) (auto simp: retry_row_def retry_entry_def nanos_def assms dest: not_storable split: sum.split)
  show ?thesis
  proof (cases "validate_all (map jr_At (rp_Jobs p))")
    case None
    then have st: "\<forall>f\<in>set (rp_Jobs p). storable (jr_At f)" by (simp add: validate_all_None)
    have "runFinalize F (run_stmt E) ''retry'' retrySet (map retry_entry (rp_Jobs p)) (map jr_ID (rp_Jobs p)) (rp_Now p) (table_of E b) =
        (fst (mem_Retry p b), table_of E (snd (mem_Retry p b)))"
      unfolding mem_Retry_def None option.case
      by (rule runFinalize_refines [OF leaves_running(2) retry_mirrors]) (simp_all add: retry_entry_def assms st)
    then show ?thesis using build None by (simp add: pg_Retry_def)
  qed (simp add: pg_Retry_def mem_Retry_def build)
qed

lemma pg_Snooze_refines:
  assumes "\<And>f. f \<in> set (sp_Jobs p) \<Longrightarrow> portable_meta (js_Metadata f)"
  shows "pg_Snooze F (run_stmt E) p (table_of E b) = (fst (mem_Snooze p b), table_of E (snd (mem_Snooze p b)))"
proof -
  have build: "build_batch snooze_row (sp_Jobs p) =
      (case validate_all (map js_At (sp_Jobs p)) of Some err \<Rightarrow> Inl err | None \<Rightarrow> Inr (map snooze_entry (sp_Jobs p)))"
    by (rule build_batch_validate) (auto simp: snooze_row_def snooze_entry_def nanos_def dest: not_storable split: sum.split)
  show ?thesis
  proof (cases "validate_all (map js_At (sp_Jobs p))")
    case None
    then have st: "\<forall>f\<in>set (sp_Jobs p). storable (js_At f)" by (simp add: validate_all_None)
    have "runFinalize F (run_stmt E) ''snooze'' snoozeSet (map snooze_entry (sp_Jobs p)) (map js_ID (sp_Jobs p)) (sp_Now p) (table_of E b) =
        (fst (mem_Snooze p b), table_of E (snd (mem_Snooze p b)))"
      unfolding mem_Snooze_def None option.case
      by (rule runFinalize_refines [OF leaves_running(5) snooze_mirrors]) (simp_all add: snooze_entry_def assms st)
    then show ?thesis using build None by (simp add: pg_Snooze_def)
  qed (simp add: pg_Snooze_def mem_Snooze_def build)
qed

end
