(* ===== verification/Postgres_Sweeps.thy ===== *)
theory Postgres_Sweeps
  imports Postgres_Calls
begin

text \<open>
  The calls of the PostgreSQL backend that look for rows: claims, renewals and maintenance. Each picks, in
  the order of its statement, the rows that the memory backend picks when it ranges over its map in that
  order. Rows are compared by what the table keeps of them, so a cutoff must be one the table keeps.
\<close>

subsection \<open>Stores that compare alike\<close>

definition timed :: "mem \<Rightarrow> bool" where
  "timed b \<longleftrightarrow> (\<forall>i j. jobs b i = Some j \<longrightarrow>
     storable (ScheduledAt j) \<and> storable (PriorityAt j) \<and>
     (State j = StateRunning \<longrightarrow> storable (HeartbeatAt j)) \<and> (Terminal (State j) \<longrightarrow> storable (FinalizedAt j)))"

text \<open>What is asked of the server: an instant is cut to one it keeps, so that cutting does not carry it past an instant it
  keeps, and a scan visits each row once.\<close>

definition cuts :: "pg_env \<Rightarrow> bool" where
  "cuts E \<longleftrightarrow> (\<forall>s t. pgTime E t = t \<longrightarrow> (pgTime E s < t \<longleftrightarrow> s < t))"

definition serves :: "pg_env \<Rightarrow> mem \<Rightarrow> bool" where
  "serves E b \<longleftrightarrow> cuts E \<and> distinct (pgScan E (table_of E b)) \<and> set (pgScan E (table_of E b)) = dom (jobs b)"

lemma serves_cuts: "serves E b \<Longrightarrow> pgTime E t = t \<Longrightarrow> pgTime E s < t \<longleftrightarrow> s < t"
  by (simp add: serves_def cuts_def)

lemma timedD:
  "timed b \<Longrightarrow> jobs b i = Some j \<Longrightarrow> storable (ScheduledAt j)"
  "timed b \<Longrightarrow> jobs b i = Some j \<Longrightarrow> storable (PriorityAt j)"
  "timed b \<Longrightarrow> jobs b i = Some j \<Longrightarrow> State j = StateRunning \<Longrightarrow> storable (HeartbeatAt j)"
  "timed b \<Longrightarrow> jobs b i = Some j \<Longrightarrow> Terminal (State j) \<Longrightarrow> storable (FinalizedAt j)"
  by (auto simp: timed_def)

subsection \<open>Picking rows\<close>

lemma insort_key_agree: "f x = g x \<Longrightarrow> (\<And>y. y \<in> set ys \<Longrightarrow> f y = g y) \<Longrightarrow> insort_key f x ys = insort_key g x ys"
  by (induction ys) simp_all

lemma sort_key_agree: "(\<And>x. x \<in> set xs \<Longrightarrow> f x = g x) \<Longrightarrow> sort_key f xs = sort_key g xs"
proof (induction xs)
  case (Cons x xs)
  have "insort_key f x (sort_key f xs) = insort_key g x (sort_key f xs)"
    by (rule insort_key_agree) (simp_all add: Cons.prems)
  moreover have "sort_key f xs = sort_key g xs" by (rule Cons.IH) (simp add: Cons.prems)
  ultimately show ?case by simp
qed simp

lemma free_rows_table: "free_rows E P (table_of E b) = filter (hit (\<lambda>j. P (enc_row E j)) (jobs b)) (pgScan E (table_of E b))"
  by (simp add: free_rows_def hit_table_of)

lemma update_rows_table:
  assumes "\<And>i j. i \<in> set ids \<Longrightarrow> jobs b i = Some j \<Longrightarrow> f (enc_row E j) = enc_row E (g j)"
  shows "update_rows ids f (table_of E b) =
    table_of E (b\<lparr>jobs := \<lambda>i. if i \<in> set ids then map_option g (jobs b i) else jobs b i\<rparr>)"
  unfolding update_rows_def
proof (rule table_of_upd)
  fix i
  show "(if i \<in> set ids then map_option f (tbRows (table_of E b) i) else tbRows (table_of E b) i) =
      tbRows (table_of E (b\<lparr>jobs := \<lambda>i. if i \<in> set ids then map_option g (jobs b i) else jobs b i\<rparr>)) i"
    using assms by (cases "jobs b i") auto
qed simp

text \<open>The rows a maintenance statement picks, as the memory backend picks them in the order of the statement.\<close>

lemma picked_sorted:
  assumes "\<And>i j. i \<in> set scan \<Longrightarrow> jobs b i = Some j \<Longrightarrow> P (enc_row E j) \<longleftrightarrow> Q j"
  shows "take (nat limit) (sort_key k (filter (hit (\<lambda>j. P (enc_row E j)) (jobs b)) scan)) = picked Q limit (sort_key k scan) (jobs b)"
proof -
  have "filter (hit (\<lambda>j. P (enc_row E j)) (jobs b)) scan = filter (hit Q (jobs b)) scan"
    using assms by (intro filter_cong) (auto simp: hit_iff)
  then show ?thesis by (simp add: picked_def filter_sort)
qed

subsection \<open>Claims\<close>

definition canon :: "pg_env \<Rightarrow> job_row \<Rightarrow> job_row" where
  "canon E j = scanJobRow (enc_row E j)"

lemma enc_claim:
  "storable (fp_Now p) \<Longrightarrow> claim_row E (fp_Now p) (fp_ClientID p) (enc_row E j) = enc_row E (claim p j)"
  by (simp add: claim_row_def claim_def enc_row_def enc_time_storable)

lemma candidates_table:
  assumes "timed b" "ids_ok b" "storable (fp_Now p)"
  shows "fetch_candidates E (fp_Queue p) (UnixNano (fp_Now p)) (fp_Limit p) (table_of E b) = chosen (pgScan E (table_of E b)) p b"
proof -
  let ?scan = "pgScan E (table_of E b)"
  have 1: "filter (hit (\<lambda>j. dbState (enc_row E j) = StateAvailable \<and> dbQueue (enc_row E j) = fp_Queue p \<and>
        sint (dbScheduled (enc_row E j)) \<le> sint (UnixNano (fp_Now p))) (jobs b)) ?scan = filter (hit (due p) (jobs b)) ?scan"
    using assms by (intro filter_cong) (auto simp: hit_iff due_def timedD not_less)
  have "sort_key (\<lambda>i. (sint (dbPriority (the (tbRows (table_of E b) i))), i)) (filter (hit (due p) (jobs b)) ?scan) =
      sort_key (\<lambda>k. prio_key (the (jobs b k))) (filter (hit (due p) (jobs b)) ?scan)"
    using assms by (intro sort_key_agree) (auto simp: hit_iff prio_key_def timedD dest: ids_ok_row)
  then show ?thesis
    by (simp only: fetch_candidates_def free_rows_table 1 chosen_def candidates_def)
qed

lemma pg_Fetch_refines:
  assumes "timed b" "ids_ok b" "serves E b" "storable (fp_Now p)" "0 \<le> fp_Limit p"
  shows "\<exists>rows. mem_Fetch (pgScan E (table_of E b)) p b = (Inr rows, snd (mem_Fetch (pgScan E (table_of E b)) p b)) \<and>
    pg_Fetch F (run_stmt E) p (table_of E b) =
      (Inr (map (canon E) rows), table_of E (snd (mem_Fetch (pgScan E (table_of E b)) p b)))"
proof -
  let ?scan = "pgScan E (table_of E b)"
  let ?c = "chosen ?scan p b" and ?now = "fp_Now p"
  have d: "distinct ?scan" using assms(3) by (simp add: serves_def)
  note st = assms(4)
  note eq = Fetch_eq [OF d assms(5), of b]
  show ?thesis
  proof (cases "fp_Limit p \<le> 0")
    case True
    then have "?c = []" using assms(5) by (simp add: chosen_def)
    then show ?thesis using True by (simp add: pg_Fetch_def eq)
  next
    case False
    have upd: "update_rows ?c (claim_row E ?now (fp_ClientID p)) (table_of E b) = table_of E (snd (mem_Fetch ?scan p b))"
      unfolding eq snd_conv by (rule update_rows_table) (simp add: enc_claim [OF st])
    have row: "the (tbRows (table_of E (snd (mem_Fetch ?scan p b))) i) = enc_row E (claim p (the (jobs b i)))" if "i \<in> set ?c" for i
      using chosen_sub [OF that] that by (auto simp: eq)
    have claimed: "map (\<lambda>i. the (tbRows (table_of E (snd (mem_Fetch ?scan p b))) i)) ?c = map (\<lambda>i. enc_row E (claim p (the (jobs b i)))) ?c"
      using row by (intro map_cong) simp_all
    have "sorted (map (\<lambda>r. (sint (dbPriority r), dbId r)) (map (\<lambda>i. enc_row E (claim p (the (jobs b i)))) ?c))"
    proof -
      have "map (\<lambda>r. (sint (dbPriority r), dbId r)) (map (\<lambda>i. enc_row E (claim p (the (jobs b i)))) ?c) =
          map (\<lambda>k. prio_key (the (jobs b k))) ?c"
        using chosen_sub assms(1) by (fastforce simp: prio_key_def claim_def timedD)
      moreover have "sorted (map (\<lambda>k. prio_key (the (jobs b k))) ?c)"
        unfolding chosen_def take_map [symmetric] by (rule sorted_wrt_take [OF candidates_sorted])
      ultimately show ?thesis by (simp only:)
    qed
    then have "sort_key (\<lambda>r. (sint (dbPriority r), dbId r)) (map (\<lambda>i. enc_row E (claim p (the (jobs b i)))) ?c) =
        map (\<lambda>i. enc_row E (claim p (the (jobs b i)))) ?c"
      by (rule sort_key_id_if_sorted)
    then have "fetchSQL E (fp_Queue p) (UnixNano ?now) (fp_Limit p) ?now (fp_ClientID p) (table_of E b) =
        (Inr (JobRows (map (\<lambda>i. enc_row E (claim p (the (jobs b i)))) ?c)), table_of E (snd (mem_Fetch ?scan p b)))"
      unfolding fetchSQL_def Let_def candidates_table [OF assms(1,2) st] upd claimed by simp
    then show ?thesis
      using False st by (simp add: pg_Fetch_def query_def eq canon_def o_def)
  qed
qed

subsection \<open>Maintenance\<close>

definition by_schedule :: "pg_env \<Rightarrow> mem \<Rightarrow> int list" where
  "by_schedule E b = sort_key (\<lambda>i. sint (dbScheduled (the (tbRows (table_of E b) i)))) (pgScan E (table_of E b))"

definition by_heartbeat :: "pg_env \<Rightarrow> mem \<Rightarrow> int list" where
  "by_heartbeat E b = sort_key (\<lambda>i. null_time (dbHeartbeat (the (tbRows (table_of E b) i)))) (pgScan E (table_of E b))"

definition by_finalized :: "pg_env \<Rightarrow> mem \<Rightarrow> int list" where
  "by_finalized E b = sort_key (\<lambda>i. null_time (dbFinalized (the (tbRows (table_of E b) i)))) (pgScan E (table_of E b))"

lemma orders_distinct:
  assumes "serves E b"
  shows "distinct (by_schedule E b)" "distinct (by_heartbeat E b)" "distinct (by_finalized E b)"
  using assms by (simp_all add: serves_def by_schedule_def by_heartbeat_def by_finalized_def)

lemma pg_MoveDue_refines:
  assumes "timed b" "serves E b" "storable (mp_Now p)"
  shows "pg_MoveDue F (run_stmt E) p (table_of E b) =
    (fst (mem_MoveDue (by_schedule E b) p b), table_of E (snd (mem_MoveDue (by_schedule E b) p b)))"
proof (cases "mp_Limit p \<le> 0")
  case True
  then show ?thesis
    by (simp add: pg_MoveDue_def MoveDue_eq [OF orders_distinct(1) [OF assms(2)]] length_picked_neg)
next
  case False
  let ?ks = "picked (movable (mp_Now p)) (mp_Limit p) (by_schedule E b) (jobs b)"
  have ks: "take (nat (mp_Limit p)) (sort_key (\<lambda>i. sint (dbScheduled (the (tbRows (table_of E b) i))))
      (free_rows E (db_movable (UnixNano (mp_Now p))) (table_of E b))) = ?ks"
    unfolding free_rows_table by_schedule_def
    by (rule picked_sorted) (use assms(1,3) in \<open>auto simp: db_movable_def movable_def timedD\<close>)
  have upd: "update_rows ?ks (\<lambda>r. r\<lparr>dbState := StateAvailable\<rparr>) (table_of E b) = table_of E (snd (mem_MoveDue (by_schedule E b) p b))"
    unfolding MoveDue_eq [OF orders_distinct(1) [OF assms(2)]] snd_conv by (rule update_rows_table) (simp add: enc_row_upd)
  have "moveDueSQL E (UnixNano (mp_Now p)) (mp_Limit p) (table_of E b) =
      (Inr (Count (int (length ?ks))), table_of E (snd (mem_MoveDue (by_schedule E b) p b)))"
    unfolding moveDueSQL_def Let_def ks upd ..
  then show ?thesis
    using False assms(3)
    by (simp add: pg_MoveDue_def countingQuery_def query_def MoveDue_eq [OF orders_distinct(1) [OF assms(2)]])
qed

text \<open>A cutoff that the heartbeats, as the server cuts them, lie on the same side of as in memory: any that the server keeps.\<close>

definition tells_apart :: "pg_env \<Rightarrow> instant \<Rightarrow> mem \<Rightarrow> bool" where
  "tells_apart E t b \<longleftrightarrow> (\<forall>i j. jobs b i = Some j \<longrightarrow> State j = StateRunning \<longrightarrow>
     (pgTime E (HeartbeatAt j) < pgTime E t \<longleftrightarrow> HeartbeatAt j < t))"

lemma kept_tells_apart: "serves E b \<Longrightarrow> pgTime E t = t \<Longrightarrow> tells_apart E t b"
  by (simp add: tells_apart_def serves_cuts)

lemma stale_table:
  assumes "timed b" "tells_apart E t b" "jobs b i = Some j"
  shows "db_stale E t (enc_row E j) \<longleftrightarrow> stale_since t j"
  using timedD(3) [OF assms(1,3)] assms(2,3)
  by (auto simp: db_stale_def stale_since_def null_less_def enc_time_storable tells_apart_def)

lemma enc_rescue:
  "storable now \<Longrightarrow> FinalizedAt j = zero_time \<Longrightarrow> rescue_db (UnixNano now) (enc_row E j) = enc_row E (rescue_row now j)"
  by (simp add: rescue_db_def rescue_row_def enc_row_upd clampNS_clamped)

lemma pg_RescueStale_refines:
  assumes "timed b" "rows_ok b" "serves E b" "storable (sr_Now p)" "tells_apart E (rescue_cutoff p) b"
  shows "pg_RescueStale F (run_stmt E) p (table_of E b) =
    (fst (mem_RescueStale (by_heartbeat E b) p b), table_of E (snd (mem_RescueStale (by_heartbeat E b) p b)))"
proof (cases "sr_Limit p \<le> 0")
  case True
  then show ?thesis
    by (simp add: pg_RescueStale_def RescueStale_eq [OF orders_distinct(2) [OF assms(3)]] length_picked_neg)
next
  case False
  let ?ks = "picked (stale_since (rescue_cutoff p)) (sr_Limit p) (by_heartbeat E b) (jobs b)"
  have ks: "take (nat (sr_Limit p)) (sort_key (\<lambda>i. null_time (dbHeartbeat (the (tbRows (table_of E b) i))))
      (free_rows E (db_stale E (rescue_cutoff p)) (table_of E b))) = ?ks"
    unfolding free_rows_table by_heartbeat_def
    by (rule picked_sorted) (rule stale_table [OF assms(1,5)])
  have "FinalizedAt j = zero_time" if "i \<in> set ?ks" "jobs b i = Some j" for i j
    using picked_sub [OF that(1)] that(2) assms(2) by (auto simp: rows_ok_def row_ok_def stale_since_def)
  then have upd: "update_rows ?ks (rescue_db (UnixNano (sr_Now p))) (table_of E b) =
      table_of E (snd (mem_RescueStale (by_heartbeat E b) p b))"
    unfolding RescueStale_eq [OF orders_distinct(2) [OF assms(3)]] snd_conv
    by (intro update_rows_table) (simp add: enc_rescue [OF assms(4)])
  have "rescueSQL E (rescue_cutoff p) (sr_Limit p) (UnixNano (sr_Now p)) (table_of E b) =
      (Inr (Count (int (length ?ks))), table_of E (snd (mem_RescueStale (by_heartbeat E b) p b)))"
    unfolding rescueSQL_def Let_def ks upd ..
  then show ?thesis
    using False assms(4)
    by (simp add: pg_RescueStale_def countingQuery_def query_def rescue_cutoff_def [symmetric]
        RescueStale_eq [OF orders_distinct(2) [OF assms(3)]])
qed

lemma pg_Clean_refines:
  assumes "timed b" "serves E b"
    and "\<And>d. d \<in> {cl_CompletedRetention p, cl_CancelledRetention p, cl_DeadRetention p} \<Longrightarrow>
      pgTime E (time_Add (cl_Now p) (- d)) = time_Add (cl_Now p) (- d)"
  shows "pg_Clean F (run_stmt E) p (table_of E b) =
    (fst (mem_Clean (by_finalized E b) p b), table_of E (snd (mem_Clean (by_finalized E b) p b)))"
proof (cases "cl_Limit p \<le> 0")
  case True
  then show ?thesis
    by (simp add: pg_Clean_def Clean_eq [OF orders_distinct(3) [OF assms(2)]] length_picked_neg)
next
  case False
  let ?ks = "picked (expired p) (cl_Limit p) (by_finalized E b) (jobs b)"
  let ?P = "db_expired E (time_Add (cl_Now p) (- cl_CompletedRetention p)) (time_Add (cl_Now p) (- cl_CancelledRetention p))
      (time_Add (cl_Now p) (- cl_DeadRetention p))"
  have P: "?P (enc_row E j) \<longleftrightarrow> expired p j" if "jobs b i = Some j" for i j
  proof -
    have "pgTime E (FinalizedAt j) < time_Add (cl_Now p) (- d) \<longleftrightarrow> FinalizedAt j < time_Add (cl_Now p) (- d)"
      if "d \<in> {cl_CompletedRetention p, cl_CancelledRetention p, cl_DeadRetention p}" for d
      using serves_cuts [OF assms(2) assms(3)] that .
    then show ?thesis using timedD(4) [OF assms(1) that] assms(3)
      by (cases "State j") (simp_all add: db_expired_def expired_def null_less_def enc_time_storable)
  qed
  have ks: "take (nat (cl_Limit p)) (sort_key (\<lambda>i. null_time (dbFinalized (the (tbRows (table_of E b) i))))
      (free_rows E ?P (table_of E b))) = ?ks"
    unfolding free_rows_table by_finalized_def by (rule picked_sorted) (rule P)
  have upd: "(table_of E b)\<lparr>tbRows := (\<lambda>i. if i \<in> set ?ks then None else tbRows (table_of E b) i)\<rparr> =
      table_of E (snd (mem_Clean (by_finalized E b) p b))"
    unfolding Clean_eq [OF orders_distinct(3) [OF assms(2)]] snd_conv by (rule table_of_upd) simp_all
  have "cleanSQL E (time_Add (cl_Now p) (- cl_CompletedRetention p)) (time_Add (cl_Now p) (- cl_CancelledRetention p))
      (time_Add (cl_Now p) (- cl_DeadRetention p)) (cl_Limit p) (table_of E b) =
      (Inr (Count (int (length ?ks))), table_of E (snd (mem_Clean (by_finalized E b) p b)))"
    unfolding cleanSQL_def Let_def ks upd ..
  then show ?thesis
    using False
    by (simp add: pg_Clean_def countingQuery_def query_def Clean_eq [OF orders_distinct(3) [OF assms(2)]])
qed

subsection \<open>Heartbeats\<close>

lemma pg_Heartbeat_refines:
  assumes "serves E b" "storable (hp_Now p)"
  shows "\<exists>ids ids'. mem_Heartbeat p b = (Inr ids, snd (mem_Heartbeat p b)) \<and>
    pg_Heartbeat F (run_stmt E) p (table_of E b) = (Inr ids', table_of E (snd (mem_Heartbeat p b))) \<and> set ids' = set ids"
proof (cases "hp_Jobs p = []")
  case True
  then show ?thesis by (simp add: pg_Heartbeat_def Heartbeat_eq beats_def)
next
  case False
  let ?scan = "pgScan E (table_of E b)"
  let ?rs = "map (\<lambda>h. \<lparr>hrID = jh_ID h, hrGeneration = jh_Generation h\<rparr>) (hp_Jobs p)"
  have beats: "(\<exists>h\<in>set ?rs. hrID h = i \<and> hit (db_running (hrGeneration h)) (tbRows (table_of E b)) i) \<longleftrightarrow> beats (hp_Jobs p) (jobs b) i" for i
    unfolding beats_def hit_table_of enc_running by auto
  define ids where "ids = filter (beats (hp_Jobs p) (jobs b)) ?scan"
  have scan: "i \<in> set ids \<longleftrightarrow> beats (hp_Jobs p) (jobs b) i" for i
    using assms(1) by (auto simp: ids_def serves_def beats_def hit_iff)
  have upd: "update_rows ids (\<lambda>r. r\<lparr>dbHeartbeat := Some (pgTime E (hp_Now p))\<rparr>) (table_of E b) = table_of E (snd (mem_Heartbeat p b))"
    unfolding Heartbeat_eq snd_conv scan [symmetric]
    by (rule update_rows_table) (simp add: enc_row_upd enc_time_storable assms(2))
  have "heartbeatSQL E ?rs (hp_Now p) (table_of E b) =
      (Inr (Ids (filter (\<lambda>i. hit CancelRequested (jobs (snd (mem_Heartbeat p b))) i) ids)), table_of E (snd (mem_Heartbeat p b)))"
    unfolding heartbeatSQL_def Let_def beats unfolding ids_def [symmetric] upd hit_table_of by simp
  moreover have "set (filter (\<lambda>i. hit CancelRequested (jobs (snd (mem_Heartbeat p b))) i) ids) =
      set (map jh_ID (filter (\<lambda>hb. hit (\<lambda>j. running_at (jh_Generation hb) j \<and> CancelRequested j) (jobs b) (jh_ID hb)) (hp_Jobs p)))"
  proof (intro set_eqI)
    fix i
    have "hit CancelRequested (jobs (snd (mem_Heartbeat p b))) i \<longleftrightarrow> hit CancelRequested (jobs b) i"
      by (auto simp: Heartbeat_eq hit_iff)
    then show "i \<in> set (filter (\<lambda>i. hit CancelRequested (jobs (snd (mem_Heartbeat p b))) i) ids) \<longleftrightarrow>
        i \<in> set (map jh_ID (filter (\<lambda>hb. hit (\<lambda>j. running_at (jh_Generation hb) j \<and> CancelRequested j) (jobs b) (jh_ID hb)) (hp_Jobs p)))"
      unfolding set_filter mem_Collect_eq scan set_map image_iff beats_def hit_iff by auto
  qed
  ultimately show ?thesis using False by (simp add: pg_Heartbeat_def query_def Heartbeat_eq)
qed

end
