(* ===== verification/Postgres_Enqueue.thy ===== *)
theory Postgres_Enqueue
  imports Postgres_Sweeps
begin

text \<open>
  Inserting through the PostgreSQL backend: it refuses what the memory backend refuses, with the same error,
  and otherwise stores the same rows under the same IDs. A row without a version gets version one.
\<close>

definition portable_row :: "job_row \<Rightarrow> bool" where
  "portable_row j \<longleftrightarrow>
     fresh_row j \<and> AttemptedAt j = zero_time \<and> HeartbeatAt j = zero_time \<and> \<not> CancelRequested j \<and>
     \<not> bad_raw (nonNullJSON (Payload j)) \<and> \<not> bad_raw (nonNullJSON (Metadata j)) \<and>
     \<not> bad_raw (rawOrNull (RetryPolicyBytes j)) \<and> \<not> bad_raw (rawOrNull (Output j)) \<and>
     (DebounceDeadline j = zero_time \<or> storable (DebounceDeadline j))"

definition enqueue_entry :: "instant \<Rightarrow> job_row \<Rightarrow> enqueueRow" where
  "enqueue_entry now j =
     \<lparr>erKind = Kind j, erQueue = Queue j, erPayload = nonNullJSON (Payload j),
      erState = (if now < sched now j then StateScheduled else StateAvailable), erPriorityBoostNS = PriorityBoost j,
      erScheduledAtNS = UnixNano (sched now j), erPriorityAtNS = UnixNano (sched now j - sint (PriorityBoost j)),
      erMaxAttempts = MaxAttempts j, erCreatedAt = now, erConcurrencyKey = ConcurrencyKey j, erThrottleKey = ThrottleKey j,
      erDebounceKey = DebounceKey j,
      erDebounceDeadline = (if IsZero (DebounceDeadline j) then None else Some (DebounceDeadline j)),
      erRetryPolicy = rawOrNull (RetryPolicyBytes j), erMetadata = nonNullJSON (Metadata j), erOutput = rawOrNull (Output j),
      erVersion = (if Version j = 0 then 1 else Version j)\<rparr>"

lemma newEnqueueRows_prio:
  "(\<And>j. j \<in> set js \<Longrightarrow> portable_row j) \<Longrightarrow>
     newEnqueueRows js now = (case enqueue_prio now js of Inl err \<Rightarrow> Inl err | Inr ps \<Rightarrow> Inr (map (enqueue_entry now) js))"
proof (induction js)
  case (Cons j js)
  have ih: "newEnqueueRows js now = (case enqueue_prio now js of Inl err \<Rightarrow> Inl err | Inr ps \<Rightarrow> Inr (map (enqueue_entry now) js))"
    by (rule Cons.IH) (simp add: Cons.prems)
  have dl: "DebounceDeadline j = zero_time \<or> storable (DebounceDeadline j)" using Cons.prems [of j] by (simp add: portable_row_def)
  show ?case
  proof (cases "SubDuration (sched now j) (PriorityBoost j)")
    case (Inl err)
    then show ?thesis by (simp add: sched_def [symmetric] Let_def)
  next
    case (Inr p)
    then have p: "storable (sched now j)" "storable p" "p = sched now j - sint (PriorityBoost j)"
      by (auto simp: SubDuration_Inr_iff)
    have "(if \<not> IsZero (DebounceDeadline j) then map_sum id (\<lambda>_. Some (DebounceDeadline j)) (ValidateInstant (DebounceDeadline j)) else Inr None) =
        Inr (if IsZero (DebounceDeadline j) then None else Some (DebounceDeadline j))"
      using dl by (auto simp: IsZero_def ValidateInstant_Inr)
    then show ?thesis
      using p by (simp add: Inr sched_def [symmetric] Let_def ih enqueue_entry_def split: sum.split)
  qed
qed simp

lemma json_nonNull: "\<not> bad_raw (nonNullJSON b) \<Longrightarrow> raw_json (nonNullJSON b) \<noteq> JNull"
  by (cases b rule: nonNullJSON.cases) (auto simp: bad_raw_def raw_json_def split: if_splits)

lemma insert_row_enc:
  assumes "portable_row j"
  shows "insert_row E i (enqueue_entry now j) = enc_row E (stamp_row now i (sched now j - sint (PriorityBoost j)) j)"
  using assms json_nonNull [of "Payload j"] json_nonNull [of "Metadata j"]
  by (simp add: insert_row_def enqueue_entry_def enc_row_def stamp_row_eq portable_row_def fresh_row_def jsonb_column_def)

lemma insert_rows_store:
  assumes "\<And>j. j \<in> set js \<Longrightarrow> portable_row j"
  shows "insert_rows E (map (enqueue_entry now) js) (table_of E b) =
    (let (rows, b') = enqueue_store now (zip js (map (\<lambda>j. sched now j - sint (PriorityBoost j)) js)) b
     in (map ID rows, table_of E b'))"
  using assms
proof (induction js arbitrary: b)
  case (Cons j js)
  let ?i = "nextID b + 1" and ?p = "sched now j - sint (PriorityBoost j)"
  let ?b = "b\<lparr>nextID := ?i, jobs := (jobs b)(?i \<mapsto> stamp_row now ?i ?p j)\<rparr>"
  have t: "(table_of E b)\<lparr>tbSeq := ?i, tbRows := (tbRows (table_of E b))(?i \<mapsto> insert_row E ?i (enqueue_entry now j))\<rparr> = table_of E ?b"
    using Cons.prems [of j] by (simp add: insert_row_enc table_of_def fun_eq_iff)
  have "ID (stamp_row now ?i ?p j) = ?i" by (simp add: stamp_row_eq)
  moreover have "insert_rows E (map (enqueue_entry now) js) (table_of E ?b) =
    (let (rows, b') = enqueue_store now (zip js (map (\<lambda>j. sched now j - sint (PriorityBoost j)) js)) ?b in (map ID rows, table_of E b'))"
    by (rule Cons.IH) (simp add: Cons.prems)
  ultimately show ?case
    using t by (simp add: Let_def case_prod_beta' del: table_of_sel(2))
qed simp

definition default_version :: "job_row \<Rightarrow> job_row" where
  "default_version j = (if Version j = 0 then j\<lparr>Version := 1\<rparr> else j)"

lemma fill_row_stamp:
  "storable (sched now j - sint (PriorityBoost j)) \<Longrightarrow>
     fill_row now j (i, enqueue_entry now j) = default_version (stamp_row now i (sched now j - sint (PriorityBoost j)) j)"
  by (simp add: fill_row_def enqueue_entry_def default_version_def stamp_row_eq fromNanos_def Unix0_def sched_def)

lemma pg_Enqueue_refines:
  assumes "\<And>j. j \<in> set (ep_Jobs p) \<Longrightarrow> portable_row j"
  shows "pg_Enqueue F (run_stmt E) p (table_of E b) =
    (map_sum id (map default_version) (fst (mem_Enqueue p b)), table_of E (snd (mem_Enqueue p b)))"
proof (cases "ep_Jobs p = []")
  case True
  then show ?thesis by (simp add: pg_Enqueue_def mem_Enqueue_def)
next
  case False
  let ?js = "ep_Jobs p" and ?now = "ep_Now p"
  note rows = newEnqueueRows_prio [OF assms]
  show ?thesis
  proof (cases "enqueue_prio ?now ?js")
    case (Inl err)
    then show ?thesis using False by (simp add: pg_Enqueue_def mem_Enqueue_def rows)
  next
    case (Inr ps)
    then have ps: "ps = map (\<lambda>j. sched ?now j - sint (PriorityBoost j)) ?js"
      and st: "\<forall>j\<in>set ?js. storable (sched ?now j - sint (PriorityBoost j))"
      by (auto simp: enqueue_prio_Inr)
    obtain out b' where es: "enqueue_store ?now (zip ?js ps) b = (out, b')" by fastforce
    have m: "mem_Enqueue p b = (Inr out, b')" using Inr es by (simp add: mem_Enqueue_def)
    have len: "length out = length ?js" using enqueue_store_spec(2) [OF es] ps by simp
    have "encodeBatch enqueue_raws (map (enqueue_entry ?now) ?js) = Inr (map (enqueue_entry ?now) ?js)"
      using assms by (intro encodeBatch_ok) (auto simp: enqueue_raws_def enqueue_entry_def portable_row_def)
    moreover have "enqueueSQL E (map (enqueue_entry ?now) ?js) (table_of E b) = (Inr (Ids (map ID out)), table_of E b')"
      using insert_rows_store [OF assms, where E = E and now = ?now and b = b] es assms json_nonNull
      by (auto simp: enqueueSQL_def ps [symmetric] jsonb_column_def enqueue_entry_def portable_row_def)
    moreover have "map2 (fill_row ?now) ?js (zip (map ID out) (map (enqueue_entry ?now) ?js)) = map default_version out"
    proof (rule nth_equalityI)
      fix k assume "k < length (map2 (fill_row ?now) ?js (zip (map ID out) (map (enqueue_entry ?now) ?js)))"
      then have k: "k < length ?js" by simp
      have "out ! k = stamp_row ?now (nextID b + int k + 1) (sched ?now (?js ! k) - sint (PriorityBoost (?js ! k))) (?js ! k)"
        using enqueue_store_spec(3) [OF es, of k] k ps by simp
      then show "map2 (fill_row ?now) ?js (zip (map ID out) (map (enqueue_entry ?now) ?js)) ! k = map default_version out ! k"
        using k len st by (simp add: fill_row_stamp stamp_row_eq)
    qed (simp add: len)
    ultimately show ?thesis
      using False Inr len by (simp add: pg_Enqueue_def rows query_def m)
  qed
qed

end
