(* ===== verification/Postgres_Spec.thy ===== *)
theory Postgres_Spec
  imports Postgres_Enqueue
begin

text \<open>
  The PostgreSQL backend keeps the contract that the memory backend keeps: whatever portable calls are made in
  whatever order, it answers as the memory backend does, and the table stays the image of the store.
\<close>

subsection \<open>Calls\<close>

fun pg_exec :: "fmt \<Rightarrow> driver \<Rightarrow> op \<Rightarrow> table \<Rightarrow> reply \<times> table" where
  "pg_exec F d (OpEnqueue p) t = (let (r, t') = pg_Enqueue F d p t in (Enqueued r, t'))"
| "pg_exec F d (OpFetch ord p) t = (let (r, t') = pg_Fetch F d p t in (Fetched r, t'))"
| "pg_exec F d (OpComplete p) t = (let (r, t') = pg_Complete F d p t in (Finalized r, t'))"
| "pg_exec F d (OpRetry p) t = (let (r, t') = pg_Retry F d p t in (Finalized r, t'))"
| "pg_exec F d (OpCancel p) t = (let (r, t') = pg_Cancel F d p t in (Finalized r, t'))"
| "pg_exec F d (OpKill p) t = (let (r, t') = pg_Kill F d p t in (Finalized r, t'))"
| "pg_exec F d (OpSnooze p) t = (let (r, t') = pg_Snooze F d p t in (Finalized r, t'))"
| "pg_exec F d (OpHeartbeat p) t = (let (r, t') = pg_Heartbeat F d p t in (Beaten r, t'))"
| "pg_exec F d (OpMoveDue ord p) t = (let (r, t') = pg_MoveDue F d p t in (Counted r, t'))"
| "pg_exec F d (OpRescueStale ord p) t = (let (r, t') = pg_RescueStale F d p t in (Counted r, t'))"
| "pg_exec F d (OpClean ord p) t = (let (r, t') = pg_Clean F d p t in (Counted r, t'))"
| "pg_exec F d x t = (Done, t)"

fun pg_run :: "fmt \<Rightarrow> driver \<Rightarrow> op list \<Rightarrow> table \<Rightarrow> reply list \<times> table" where
  "pg_run F d [] t = ([], t)"
| "pg_run F d (x # xs) t = (let (r, t1) = pg_exec F d x t; (rs, t2) = pg_run F d xs t1 in (r # rs, t2))"

definition pg_empty :: table where
  "pg_empty = \<lparr>tbSeq = 0, tbRows = Map.empty, tbLocked = {}\<rparr>"

text \<open>The same call of the memory backend, ranging over its map in the order of the statement.\<close>

fun in_order :: "pg_env \<Rightarrow> mem \<Rightarrow> op \<Rightarrow> op" where
  "in_order E b (OpFetch ord p) = OpFetch (pgScan E (table_of E b)) p"
| "in_order E b (OpMoveDue ord p) = OpMoveDue (by_schedule E b) p"
| "in_order E b (OpRescueStale ord p) = OpRescueStale (by_heartbeat E b) p"
| "in_order E b (OpClean ord p) = OpClean (by_finalized E b) p"
| "in_order E b x = x"

text \<open>Equal but for the order in which a map is ranged over.\<close>

inductive same_call :: "op \<Rightarrow> op \<Rightarrow> bool" where
  "same_call x x"
| "same_call (OpFetch ord p) (OpFetch ord' p)"
| "same_call (OpMoveDue ord p) (OpMoveDue ord' p)"
| "same_call (OpRescueStale ord p) (OpRescueStale ord' p)"
| "same_call (OpClean ord p) (OpClean ord' p)"

lemma in_order_same [simp]: "same_call x (in_order E b x)"
  by (cases x) (simp_all add: same_call.intros)

fun portable :: "pg_env \<Rightarrow> op \<Rightarrow> bool" where
  "portable E (OpEnqueue p) \<longleftrightarrow> (\<forall>j\<in>set (ep_Jobs p). portable_row j)"
| "portable E (OpFetch ord p) \<longleftrightarrow> storable (fp_Now p) \<and> 0 \<le> fp_Limit p"
| "portable E (OpComplete p) \<longleftrightarrow> storable (cp_Now p) \<and> (\<forall>f\<in>set (cp_Jobs p). portable_meta (jf_Metadata f))"
| "portable E (OpRetry p) \<longleftrightarrow> (\<forall>f\<in>set (rp_Jobs p). portable_meta (jr_Metadata f) \<and> dated (jr_Err f))"
| "portable E (OpCancel p) \<longleftrightarrow> storable (xp_Now p) \<and> (\<forall>f\<in>set (xp_Jobs p). portable_meta (jc_Metadata f))"
| "portable E (OpKill p) \<longleftrightarrow> storable (kp_Now p) \<and> (\<forall>f\<in>set (kp_Jobs p). portable_meta (jk_Metadata f) \<and> dated (jk_Err f))"
| "portable E (OpSnooze p) \<longleftrightarrow> (\<forall>f\<in>set (sp_Jobs p). portable_meta (js_Metadata f))"
| "portable E (OpHeartbeat p) \<longleftrightarrow> storable (hp_Now p)"
| "portable E (OpMoveDue ord p) \<longleftrightarrow> storable (mp_Now p)"
| "portable E (OpRescueStale ord p) \<longleftrightarrow> storable (sr_Now p) \<and> pgTime E (rescue_cutoff p) = rescue_cutoff p"
| "portable E (OpClean ord p) \<longleftrightarrow> (\<forall>d\<in>{cl_CompletedRetention p, cl_CancelledRetention p, cl_DeadRetention p}.
     pgTime E (time_Add (cl_Now p) (- d)) = time_Add (cl_Now p) (- d))"
| "portable E x \<longleftrightarrow> False"

text \<open>What is asked of a call in the state it is made in: a portable call can be made in every state.\<close>

fun agreed :: "pg_env \<Rightarrow> op \<Rightarrow> mem \<Rightarrow> bool" where
  "agreed E (OpRescueStale ord p) b \<longleftrightarrow> storable (sr_Now p) \<and> tells_apart E (rescue_cutoff p) b"
| "agreed E x b \<longleftrightarrow> portable E x"

lemma portable_agreed: "serves E b \<Longrightarrow> portable E x \<Longrightarrow> agreed E x b"
  by (cases x) (simp_all add: kept_tells_apart)

text \<open>A reply of the memory backend and what the PostgreSQL backend answers: rows as the table keeps them, and
  the IDs of a heartbeat as a set.\<close>

fun same_reply :: "pg_env \<Rightarrow> reply \<Rightarrow> reply \<Rightarrow> bool" where
  "same_reply E (Enqueued r) (Enqueued r') \<longleftrightarrow> r' = map_sum id (map default_version) r"
| "same_reply E (Fetched r) (Fetched r') \<longleftrightarrow> r' = map_sum id (map (canon E)) r"
| "same_reply E (Finalized r) (Finalized r') \<longleftrightarrow> r' = r"
| "same_reply E (Beaten r) (Beaten r') \<longleftrightarrow> map_sum id set r' = map_sum id set r"
| "same_reply E (Counted r) (Counted r') \<longleftrightarrow> r' = r"
| "same_reply E _ _ \<longleftrightarrow> False"

subsection \<open>The invariant\<close>

definition timed_row :: "job_row \<Rightarrow> bool" where
  "timed_row j \<longleftrightarrow> storable (ScheduledAt j) \<and> storable (PriorityAt j) \<and>
     (State j = StateRunning \<longrightarrow> storable (HeartbeatAt j)) \<and> (Terminal (State j) \<longrightarrow> storable (FinalizedAt j))"

lemma timed_rows: "timed b \<longleftrightarrow> (\<forall>i j. jobs b i = Some j \<longrightarrow> timed_row j)"
  by (simp add: timed_def timed_row_def)

lemma storable_clamped [simp]: "storable (SubDurationClamped t d)"
  by (simp add: SubDurationClamped_spec clamp_instant_def storable_iff min_i64_def max_i64_def)

lemma finalize_timed:
  assumes "\<And>f j. State (app f j) \<noteq> StateRunning" "timed b"
    and "\<And>f j. f \<in> set fs \<Longrightarrow> timed_row j \<Longrightarrow> timed_row (app f (j\<lparr>FinalizedAt := now\<rparr>))"
  shows "timed (snd (finalize idf gen now app fs b))"
  unfolding timed_rows
proof (intro allI impI)
  fix i j'
  assume j': "jobs (snd (finalize idf gen now app fs b)) i = Some j'"
  show "timed_row j'"
  proof (cases "deciding idf gen fs (jobs b) i")
    case None
    then show ?thesis using j' assms(2) by (auto simp: finalize_jobs [where app = app, OF assms(1)] timed_rows)
  next
    case (Some f)
    then obtain j where "f \<in> set fs" "jobs b i = Some j" using deciding_Some by metis
    then show ?thesis using j' assms(2,3) Some by (auto simp: finalize_jobs [where app = app, OF assms(1)] timed_rows)
  qed
qed

lemma map_rows_timed:
  assumes "timed b" "\<And>i j. P i \<Longrightarrow> jobs b i = Some j \<Longrightarrow> timed_row (f j)"
  shows "timed (b\<lparr>jobs := \<lambda>i. if P i then map_option f (jobs b i) else jobs b i\<rparr>)"
  using assms by (auto simp: timed_rows split: if_splits)

lemma timed_applied:
  assumes "timed_row j"
  shows "storable now \<Longrightarrow> timed_row (apply_complete f (j\<lparr>FinalizedAt := now\<rparr>))"
    "storable (jr_At r) \<Longrightarrow> timed_row (apply_retry r (j\<lparr>FinalizedAt := now\<rparr>))"
    "storable now \<Longrightarrow> timed_row (apply_cancel now c (j\<lparr>FinalizedAt := now\<rparr>))"
    "storable now \<Longrightarrow> timed_row (apply_kill k (j\<lparr>FinalizedAt := now\<rparr>))"
    "storable (js_At s) \<Longrightarrow> timed_row (apply_snooze s (j\<lparr>FinalizedAt := now\<rparr>))"
  using assms by (simp_all add: timed_row_def step_defs)

lemma exec_timed:
  assumes "agreed E x b" "orders_ok x" "timed b"
  shows "timed (snd (exec x b))"
proof (cases x)
  case (OpEnqueue p)
  show ?thesis
  proof (cases rule: Enqueue_cases [of p b])
    case (bad e)
    then show ?thesis using assms(3) OpEnqueue by simp
  next
    case (good rows b')
    have "timed_row (rows ! k)" if "k < length rows" for k
      using good(4) [OF that] by (simp add: timed_row_def stamp_row_eq)
    then have "timed b'"
      unfolding timed_rows good(5) using assms(3) good(3) by (auto simp: timed_rows split: if_splits)
    then show ?thesis using OpEnqueue good(1) by simp
  qed
next
  case (OpFetch ord p)
  have "timed (snd (mem_Fetch ord p b))"
    unfolding Fetch_eq [OF assms(2) [unfolded OpFetch orders_ok.simps] assms(1) [unfolded OpFetch agreed.simps portable.simps, THEN conjunct2]] snd_conv
    by (rule map_rows_timed [OF assms(3)]) (use assms(1,3) OpFetch in \<open>auto simp: timed_rows timed_row_def claim_def\<close>)
  then show ?thesis by (simp add: OpFetch case_prod_beta)
next
  case (OpComplete p)
  then show ?thesis
    using finalize_timed [where app = apply_complete, OF leaves_running(1) assms(3)] timed_applied(1) assms(1)
    by (simp add: case_prod_beta mem_Complete_def)
next
  case (OpRetry p)
  then show ?thesis
    using finalize_timed [where app = apply_retry and fs = "rp_Jobs p", OF leaves_running(2) assms(3)] timed_applied(2) assms(3)
    by (auto simp: case_prod_beta mem_Retry_def validate_all_None split: option.split)
next
  case (OpCancel p)
  then show ?thesis
    using finalize_timed [where app = "apply_cancel (xp_Now p)", OF leaves_running(3) assms(3)] timed_applied(3) assms(1)
    by (simp add: case_prod_beta mem_Cancel_def)
next
  case (OpKill p)
  then show ?thesis
    using finalize_timed [where app = apply_kill, OF leaves_running(4) assms(3)] timed_applied(4) assms(1)
    by (simp add: case_prod_beta mem_Kill_def)
next
  case (OpSnooze p)
  then show ?thesis
    using finalize_timed [where app = apply_snooze and fs = "sp_Jobs p", OF leaves_running(5) assms(3)] timed_applied(5) assms(3)
    by (auto simp: case_prod_beta mem_Snooze_def validate_all_None split: option.split)
next
  case (OpHeartbeat p)
  have "timed (snd (mem_Heartbeat p b))"
    unfolding Heartbeat_eq snd_conv
    by (rule map_rows_timed [OF assms(3)]) (use assms(1,3) OpHeartbeat in \<open>auto simp: timed_rows timed_row_def\<close>)
  then show ?thesis by (simp add: OpHeartbeat case_prod_beta)
next
  case (OpMoveDue ord p)
  have "timed (snd (mem_MoveDue ord p b))"
    unfolding MoveDue_eq [OF assms(2) [unfolded OpMoveDue orders_ok.simps]] snd_conv
    by (rule map_rows_timed [OF assms(3)]) (use assms(3) in \<open>auto simp: timed_rows timed_row_def\<close>)
  then show ?thesis by (simp add: OpMoveDue case_prod_beta)
next
  case (OpRescueStale ord p)
  have "timed (snd (mem_RescueStale ord p b))"
    unfolding RescueStale_eq [OF assms(2) [unfolded OpRescueStale orders_ok.simps]] snd_conv
    by (rule map_rows_timed [OF assms(3)]) (use assms(1) OpRescueStale in \<open>auto simp: timed_row_def rescue_row_def\<close>)
  then show ?thesis by (simp add: OpRescueStale case_prod_beta)
next
  case (OpClean ord p)
  have "timed (snd (mem_Clean ord p b))"
    unfolding Clean_eq [OF assms(2) [unfolded OpClean orders_ok.simps]] snd_conv
    using assms(3) by (auto simp: timed_rows split: if_splits)
  then show ?thesis by (simp add: OpClean case_prod_beta)
qed (use assms in simp_all)

subsection \<open>Refinement\<close>

lemma in_order_ok:
  assumes "agreed E x b" "serves E b"
  shows "orders_ok (in_order E b x)" "fresh_op (in_order E b x)" "agreed E (in_order E b x) b"
  using assms orders_distinct [OF assms(2)]
  by (cases x; simp add: serves_def cuts_def portable_row_def)+

lemma pg_exec_refines:
  assumes "agreed E x b" "serves E b" "timed b" "ids_ok b" "rows_ok b"
  shows "\<exists>r r' b'. exec (in_order E b x) b = (r, b') \<and>
    pg_exec F (run_stmt E) x (table_of E b) = (r', table_of E b') \<and> same_reply E r r'"
proof (cases x)
  case (OpEnqueue p)
  then show ?thesis using assms(1) pg_Enqueue_refines [of p F E b] by (simp add: case_prod_beta)
next
  case (OpFetch ord p)
  define b' where "b' = snd (mem_Fetch (pgScan E (table_of E b)) p b)"
  have "storable (fp_Now p)" "0 \<le> fp_Limit p" using assms(1) OpFetch by simp_all
  from pg_Fetch_refines [OF assms(3,4,2) this, of F, folded b'_def]
  obtain rows where "mem_Fetch (pgScan E (table_of E b)) p b = (Inr rows, b')"
    "pg_Fetch F (run_stmt E) p (table_of E b) = (Inr (map (canon E) rows), table_of E b')" by blast
  then show ?thesis by (simp add: OpFetch)
next
  case (OpComplete p)
  then show ?thesis using assms(1) pg_Complete_refines [of p F E b] by (simp add: case_prod_beta)
next
  case (OpRetry p)
  then show ?thesis using assms(1) pg_Retry_refines [of p F E b] by (simp add: case_prod_beta)
next
  case (OpCancel p)
  then show ?thesis using assms(1) pg_Cancel_refines [of p F E b] by (simp add: case_prod_beta)
next
  case (OpKill p)
  then show ?thesis using assms(1) pg_Kill_refines [of p F E b] by (simp add: case_prod_beta)
next
  case (OpSnooze p)
  then show ?thesis using assms(1) pg_Snooze_refines [of p F E b] by (simp add: case_prod_beta)
next
  case (OpHeartbeat p)
  define b' where "b' = snd (mem_Heartbeat p b)"
  have "storable (hp_Now p)" using assms(1) OpHeartbeat by simp
  from pg_Heartbeat_refines [OF assms(2) this, of F, folded b'_def]
  obtain ids ids' where "mem_Heartbeat p b = (Inr ids, b')" "pg_Heartbeat F (run_stmt E) p (table_of E b) = (Inr ids', table_of E b')"
    "set ids' = set ids" by blast
  then show ?thesis by (simp add: OpHeartbeat)
next
  case (OpMoveDue ord p)
  then show ?thesis
    using pg_MoveDue_refines [OF assms(3,2), of p F] assms(1) by (simp add: case_prod_beta)
next
  case (OpRescueStale ord p)
  then show ?thesis
    using pg_RescueStale_refines [OF assms(3,5,2), of p F] assms(1) by (simp add: case_prod_beta)
next
  case (OpClean ord p)
  then have "pgTime E (time_Add (cl_Now p) (- d)) = time_Add (cl_Now p) (- d)"
    if "d \<in> {cl_CompletedRetention p, cl_CancelledRetention p, cl_DeadRetention p}" for d
    using assms(1) that by auto
  from pg_Clean_refines [OF assms(3,2) this, of F] show ?thesis by (simp add: OpClean case_prod_beta)
qed (use assms(1) in simp_all)

lemma pg_run_refines:
  assumes "\<forall>b. ids_ok b \<longrightarrow> serves E b"
  shows "\<forall>x\<in>set xs. portable E x \<Longrightarrow> timed b \<Longrightarrow> ids_ok b \<Longrightarrow> rows_ok b \<Longrightarrow>
    \<exists>ys rs rs' b'. list_all2 same_call xs ys \<and> (\<forall>y\<in>set ys. orders_ok y \<and> fresh_op y) \<and> run ys b = (rs, b') \<and>
      pg_run F (run_stmt E) xs (table_of E b) = (rs', table_of E b') \<and> list_all2 (same_reply E) rs rs'"
proof (induction xs arbitrary: b)
  case (Cons x xs)
  let ?y = "in_order E b x"
  have sc: "serves E b" using assms Cons.prems(3) by blast
  have p: "agreed E x b" using Cons.prems(1) by (simp add: portable_agreed [OF sc])
  note y = in_order_ok [OF p sc]
  obtain r r' b1 where one: "exec ?y b = (r, b1)" "pg_exec F (run_stmt E) x (table_of E b) = (r', table_of E b1)" "same_reply E r r'"
    using pg_exec_refines [OF p sc Cons.prems(2-4)] by blast
  have b1: "b1 = snd (exec ?y b)" using one(1) by simp
  have "\<forall>x\<in>set xs. portable E x" using Cons.prems(1) by simp
  from Cons.IH [OF this exec_timed [OF y(3,1) Cons.prems(2)] exec_ids_ok [OF y(1) Cons.prems(3)]
      exec_rows_ok [OF y(1,2) Cons.prems(3,4)], folded b1]
  obtain ys rs rs' b' where "list_all2 same_call xs ys" "\<forall>y\<in>set ys. orders_ok y \<and> fresh_op y" "run ys b1 = (rs, b')"
    "pg_run F (run_stmt E) xs (table_of E b1) = (rs', table_of E b')" "list_all2 (same_reply E) rs rs'"
    by blast
  then have "list_all2 same_call (x # xs) (?y # ys) \<and> (\<forall>y\<in>set (?y # ys). orders_ok y \<and> fresh_op y) \<and> run (?y # ys) b = (r # rs, b') \<and>
      pg_run F (run_stmt E) (x # xs) (table_of E b) = (r' # rs', table_of E b') \<and> list_all2 (same_reply E) (r # rs) (r' # rs')"
    using one y by simp
  then show ?case by blast
qed simp

lemma table_of_New: "table_of E New = pg_empty"
  by (simp add: table_of_def pg_empty_def New_def fun_eq_iff)

lemma New_ok [simp]: "timed New" "rows_ok New"
  by (simp_all add: timed_def rows_ok_def New_def)


text \<open>A server that keeps what it is given, and scans by ID.\<close>

definition sample_pg :: pg_env where
  "sample_pg = \<lparr>pgTime = (\<lambda>t. t), pgTimeText = (\<lambda>t. t), pgJsonb = (\<lambda>j. j),
     pgScan = (\<lambda>t. filter (\<lambda>i. tbRows t i \<noteq> None) [1..tbSeq t])\<rparr>"

lemma sample_serves: "\<forall>b. ids_ok b \<longrightarrow> serves sample_pg b"
  by (auto simp: serves_def cuts_def sample_pg_def dest: ids_ok_row)

lemma sample_portable: "\<forall>x\<in>set (sample_claims @ [sample_complete]). portable sample_pg x"
  by (simp add: sample_defs portable_row_def fresh_row_def zero_row_def sample_pg_def storable_iff min_i64_def max_i64_def
      bad_raw_def rawOrNull_def)


lemma same_reply_claims: "same_reply E r r' \<Longrightarrow> claims r' = claims r"
  by (cases "(E, r, r')" rule: same_reply.cases; cases r rule: claims.cases)
    (auto simp: canon_def scanJobRow_def)

lemma same_replies_claims: "list_all2 (same_reply E) rs rs' \<Longrightarrow> claims_of rs' = claims_of rs"
  by (induction rule: list_all2_induct) (simp_all add: same_reply_claims)

text \<open>So a claim is exclusive over PostgreSQL too: along every history of portable calls no (job, generation)
  token is handed out twice.\<close>

theorem postgres_claims_exclusive:
  assumes "\<forall>b. ids_ok b \<longrightarrow> serves E b" "\<forall>x\<in>set xs. portable E x"
  shows "distinct (claims_of (fst (pg_run F (run_stmt E) xs pg_empty)))"
proof -
  obtain ys rs rs' b' where ys: "\<forall>y\<in>set ys. orders_ok y \<and> fresh_op y" "run ys New = (rs, b')"
    "pg_run F (run_stmt E) xs pg_empty = (rs', table_of E b')" "list_all2 (same_reply E) rs rs'"
    using pg_run_refines [OF assms, of New F] by (auto simp: table_of_New)
  have "distinct (claims_of rs)"
    using run_claims [OF _ ids_ok_New issued_empty ys(2)] ys(1) by blast
  then show ?thesis using same_replies_claims [OF ys(4)] ys(3) by simp
qed

lemma postgres_claims_exclusive_witness:
  "claims_of (fst (pg_run sample_fmt (run_stmt sample_pg) [sample_enqueue, OpFetch [] (sample_fetch 100)] pg_empty)) = [(2, 1)] \<and>
   distinct (claims_of (fst (pg_run sample_fmt (run_stmt sample_pg) [sample_enqueue, OpFetch [] (sample_fetch 100)] pg_empty)))"
proof
  show "claims_of (fst (pg_run sample_fmt (run_stmt sample_pg) [sample_enqueue, OpFetch [] (sample_fetch 100)] pg_empty)) = [(2, 1)]"
    by code_simp
  show "distinct (claims_of (fst (pg_run sample_fmt (run_stmt sample_pg) [sample_enqueue, OpFetch [] (sample_fetch 100)] pg_empty)))"
    by (rule postgres_claims_exclusive [OF sample_serves]) (use sample_portable in \<open>simp add: sample_claims_def\<close>)
qed

end
