(* ===== verification/Postgres_Lost.thy ===== *)
theory Postgres_Lost
  imports Postgres_Spec
begin

text \<open>
  What a lost reply does. A connection may break after the server has run a statement, so a call that failed
  may have taken effect; the completer repeats it. The interface of the driver is a locale: its answers are
  those of the server, and an error leaves the table as it was or as the statement leaves it. The schema name is the
  only text that reaches a statement; it cannot leave its quotes.
\<close>

subsection \<open>Drivers\<close>

definition honest :: "pg_env \<Rightarrow> driver \<Rightarrow> bool" where
  "honest E d \<longleftrightarrow> (\<forall>q t. case d q t of
     (Inr r, t') \<Rightarrow> run_stmt E q t = (Inr r, t')
   | (Inl e, t') \<Rightarrow> t' = t \<or> t' = snd (run_stmt E q t))"

locale sql_driver =
  fixes E :: pg_env and d :: driver
  assumes honest: "honest E d"
begin

lemma statement_effect: "snd (d q t) = t \<or> snd (d q t) = snd (run_stmt E q t)"
  using honest [unfolded honest_def, THEN spec [where x = q], THEN spec [where x = t]] by (auto split: prod.splits sum.splits)

lemma query_effect: "snd (query F what scan d q t) = t \<or> snd (query F what scan d q t) = snd (run_stmt E q t)"
  using statement_effect [of q t] by (auto simp: query_def split: prod.split sum.split)

text \<open>A finalization takes effect as a whole or not at all, whatever it reports.\<close>

lemma finalize_effect:
  "snd (runFinalize F d what clause rs ids now t) = t \<or>
   snd (runFinalize F d what clause rs ids now t) = snd (runFinalize F (run_stmt E) what clause rs ids now t)"
proof (cases "rs = [] \<or> isl (encodeBatch (\<lambda>r. [frMetadata r]) rs)")
  case True
  then show ?thesis by (auto simp: runFinalize_def isl_def)
next
  case False
  then obtain doc where doc: "encodeBatch (\<lambda>r. [frMetadata r]) rs = Inr doc" by (cases "encodeBatch (\<lambda>r. [frMetadata r]) rs") auto
  have eff: "snd (runFinalize F d' what clause rs ids now t) = snd (query F what scan_ords d' (FinalizeSQL clause doc now) t)" for d'
    using False doc by (simp add: runFinalize_def Let_def split: prod.split sum.split)
  have "snd (query F what scan_ords (run_stmt E) (FinalizeSQL clause doc now) t) = snd (run_stmt E (FinalizeSQL clause doc now) t)"
    by (simp add: query_def split: prod.split sum.split)
  then show ?thesis unfolding eff using query_effect by metis
qed

end

text \<open>The server itself, reached over a connection that holds.\<close>

interpretation server: sql_driver E "run_stmt E" for E
  by unfold_locales (simp add: honest_def split: prod.split sum.split)

subsection \<open>Repeating a finalization\<close>

lemma set_row_stops: "set_row E now clause w r = Some r' \<Longrightarrow> dbState r' \<noteq> StateRunning"
  by (cases clause) (auto split: option.splits)

lemma finalizeSQL_done:
  assumes "(ord, w) \<in> set (distinct_on (ordinals rs) {})" "finalizeSQL E clause rs now t = (Inr res, t')"
  shows "\<not> hit (db_running (frGeneration w)) (tbRows t') (frID w)"
proof -
  let ?updated = "filter (\<lambda>(ord, w). hit (db_running (frGeneration w)) (tbRows t) (frID w)) (distinct_on (ordinals rs) {})"
  have t': "t' = t\<lparr>tbRows := (\<lambda>i. case List.find (\<lambda>(ord, w). frID w = i) ?updated of
               None \<Rightarrow> tbRows t i | Some (ord, w) \<Rightarrow> set_row E now clause w (the (tbRows t i)))\<rparr>"
    using assms(2) by (auto simp: finalizeSQL_def Let_def split: if_splits)
  show ?thesis
  proof (cases "List.find (\<lambda>(ord, v). frID v = frID w) ?updated")
    case None
    then have "(ord, w) \<notin> set ?updated" by (auto simp: find_None_iff)
    then have "\<not> hit (db_running (frGeneration w)) (tbRows t) (frID w)" using assms(1) by simp
    then show ?thesis using None by (simp add: t' hit_def)
  next
    case (Some x)
    obtain o2 v where x: "x = (o2, v)" by fastforce
    have "tbRows t' (frID w) = set_row E now clause v (the (tbRows t (frID w)))"
      using Some by (simp add: t' x)
    then show ?thesis by (auto simp: hit_iff db_running_def dest: set_row_stops)
  qed
qed

lemma failed_branch: "fst (if c then (Inl x, t) else (Inr y, u)) = Inl e \<Longrightarrow> snd (if c then (Inl x, t) else (Inr y, u)) = t"
  by (cases c) simp_all

lemma finalizeSQL_again:
  "snd (finalizeSQL E clause rs now (snd (finalizeSQL E clause rs now t))) = snd (finalizeSQL E clause rs now t)"
proof (cases "fst (finalizeSQL E clause rs now t)")
  case (Inl e)
  then have "snd (finalizeSQL E clause rs now t) = t" unfolding finalizeSQL_def Let_def by (rule failed_branch)
  then show ?thesis by simp
next
  case (Inr res)
  then obtain t' where t': "finalizeSQL E clause rs now t = (Inr res, t')" by (metis prod.collapse)
  have "filter (\<lambda>(ord, w). hit (db_running (frGeneration w)) (tbRows t') (frID w)) (distinct_on (ordinals rs) {}) = []"
    using finalizeSQL_done [OF _ t'] by (auto simp: filter_empty_conv)
  then have "snd (finalizeSQL E clause rs now t') = t'" by (simp add: finalizeSQL_def)
  then show ?thesis by (simp add: t')
qed

lemma runFinalize_again:
  "snd (runFinalize F (run_stmt E) what clause rs ids now (snd (runFinalize F (run_stmt E) what clause rs ids now t))) =
   snd (runFinalize F (run_stmt E) what clause rs ids now t)"
proof (cases "rs = [] \<or> isl (encodeBatch (\<lambda>r. [frMetadata r]) rs)")
  case True
  then show ?thesis by (auto simp: runFinalize_def isl_def)
next
  case False
  then obtain doc where doc: "encodeBatch (\<lambda>r. [frMetadata r]) rs = Inr doc" by (cases "encodeBatch (\<lambda>r. [frMetadata r]) rs") auto
  have eff: "snd (runFinalize F (run_stmt E) what clause rs ids now t) = snd (finalizeSQL E clause doc now t)" for t
    using False doc by (simp add: runFinalize_def query_def Let_def split: prod.split sum.split)
  show ?thesis unfolding eff by (rule finalizeSQL_again)
qed

text \<open>C7: Repeating a finalization is harmless. However many times a call fails over connections that may
  break before or after the server has run it, and whatever those calls report, the call that is made at last
  leaves the table as one call over a good connection would have.\<close>

theorem lost_replies_harmless:
  assumes "\<forall>d\<in>set ds. honest E d"
  shows "snd (runFinalize F (run_stmt E) what clause rs ids now
      (fold (\<lambda>d t. snd (runFinalize F d what clause rs ids now t)) ds t)) =
    snd (runFinalize F (run_stmt E) what clause rs ids now t)"
  using assms
proof (induction ds arbitrary: t)
  case (Cons d ds)
  have "honest E d" using Cons.prems by simp
  then have "snd (runFinalize F d what clause rs ids now t) = t \<or>
      snd (runFinalize F d what clause rs ids now t) = snd (runFinalize F (run_stmt E) what clause rs ids now t)"
    by (intro sql_driver.finalize_effect sql_driver.intro)
  then show ?case using Cons runFinalize_again by fastforce
qed simp

text \<open>A connection that breaks before the server answers, and one that breaks before it is asked.\<close>

definition lossy :: "pg_env \<Rightarrow> driver" where
  "lossy E q t = (Inl (ErrorString ''unexpected EOF''), snd (run_stmt E q t))"

definition refusing :: driver where
  "refusing q t = (Inl (ErrorString ''connection refused''), t)"

definition sample_running :: table where
  "sample_running = table_of sample_pg (sample_mid 3)"

lemma lost_replies_harmless_witness:
  "snd (runFinalize sample_fmt (run_stmt sample_pg) ''complete'' completeSet [complete_entry \<lparr>jf_ID = 1, jf_Generation = 1, jf_Metadata = RawNil\<rparr>] [1] 210
      (fold (\<lambda>d t. snd (runFinalize sample_fmt d ''complete'' completeSet [complete_entry \<lparr>jf_ID = 1, jf_Generation = 1, jf_Metadata = RawNil\<rparr>] [1] 210 t))
        [refusing, lossy sample_pg, lossy sample_pg] sample_running)) =
    snd (runFinalize sample_fmt (run_stmt sample_pg) ''complete'' completeSet
      [complete_entry \<lparr>jf_ID = 1, jf_Generation = 1, jf_Metadata = RawNil\<rparr>] [1] 210 sample_running)"
  by (rule lost_replies_harmless) (simp add: honest_def lossy_def refusing_def)

subsection \<open>The schema name\<close>

lemma quote_plain: "list_all ident_char cs \<Longrightarrow> quote_chars cs = cs"
  by (induction cs) (auto simp: ident_char_def ident_start_def)

lemma fold_key_id: "map f cs = cs \<Longrightarrow> c \<in> set cs \<Longrightarrow> f c = c"
  by (metis map_eq_conv list.map_id id_apply)

text \<open>C38: The schema name cannot carry SQL. What a statement is given for it is the accepted name between
  two quotes with nothing to escape, a name of at most 63 letters, digits and underscores in lower case.\<close>

theorem schema_safe:
  assumes "newConfig opts = Inr c"
  shows "quotedSchema c = [CHR 0x22] @ pgSchema c @ [CHR 0x22] \<and> length (pgSchema c) \<le> 63 \<and>
    (\<forall>ch\<in>set (pgSchema c). ident_char ch \<and> \<not> (CHR ''A'' \<le> ch \<and> ch \<le> CHR ''Z''))"
proof -
  have c: "schemaPattern (pgSchema c)" "pgSchema c = fold_key (pgSchema c)" "quotedSchema c = quoteIdent (pgSchema c)"
    using assms by (auto simp: newConfig_def Let_def split: if_splits)
  then obtain x cs where s: "pgSchema c = x # cs" "ident_start x" "list_all ident_char cs" "length cs \<le> 62"
    by (auto simp: schemaPattern_def split: list.splits)
  have all: "list_all ident_char (pgSchema c)" using s by (simp add: ident_char_def)
  have "\<not> (CHR ''A'' \<le> ch \<and> ch \<le> CHR ''Z'')" if ch: "ch \<in> set (pgSchema c)" for ch
  proof
    assume up: "CHR ''A'' \<le> ch \<and> ch \<le> CHR ''Z''"
    then have "char_of (of_char ch + (32 :: nat)) = ch"
      using fold_key_id [OF c(2) [unfolded fold_key_def, symmetric] ch] by simp
    moreover have "take_bit 8 (of_char ch + (32 :: nat)) = of_char ch + 32"
      using up by (intro take_bit_nat_eq_self) (simp add: less_eq_char_def)
    ultimately show False by (simp add: char_of_eq_iff)
  qed
  with all s(1,4) quote_plain [OF all] show ?thesis by (auto simp: c(3) quoteIdent_def list_all_iff)
qed

lemma schema_safe_witness: "\<exists>c. newConfig [WithSchema ''jobs_2''] = Inr c \<and> quotedSchema c = [CHR 0x22] @ pgSchema c @ [CHR 0x22]"
proof -
  have "\<not> isl (newConfig [WithSchema ''jobs_2''])" by code_simp
  then obtain c where c: "newConfig [WithSchema ''jobs_2''] = Inr c" by (metis sum.collapse(2))
  with schema_safe [OF c] show ?thesis by simp
qed

end
