(* ===== verification/Migrate.thy ===== *)
theory Migrate
  imports Postgres_Lost
begin

text \<open>
  \<^verbatim>\<open>backend/postgres/goosemigrate\<close>: the runner of the migrations. The database is a parameter, a function that
  answers the statements below; \<open>pg_server\<close> is what PostgreSQL does with them. The goose library, which takes the lock
  through our callbacks and applies the files, is a parameter too.
\<close>

subsection \<open>Names of migrations\<close>

fun digits :: "string \<Rightarrow> int option \<Rightarrow> int option" where
  "digits [] acc = acc"
| "digits (c # cs) acc =
     (if CHR ''0'' \<le> c \<and> c \<le> CHR ''9''
      then digits cs (Some (10 * (case acc of None \<Rightarrow> 0 | Some n \<Rightarrow> n) + int (of_char c - 48)))
      else None)"

text \<open>\<^verbatim>\<open>strconv.ParseInt(s, 10, 64)\<close>.\<close>

definition ParseInt :: "string \<Rightarrow> int option" where
  "ParseInt s =
     (let r = (case s of
          [] \<Rightarrow> None
        | c # cs \<Rightarrow>
            if c = CHR ''-'' then map_option uminus (digits cs None)
            else if c = CHR ''+'' then digits cs None else digits s None)
      in case r of None \<Rightarrow> None | Some n \<Rightarrow> if min_i64 \<le> n \<and> n \<le> max_i64 then Some n else None)"

definition parseVersion :: "string \<Rightarrow> go_error + int" where
  "parseVersion name =
     (let v = takeWhile (\<lambda>c. c \<noteq> CHR ''_'') name in
      if CHR ''_'' \<notin> set name \<or> v = []
      then Inl (ErrorString (''goque/goosemigrate: migration '' @ name @ '' must be named <version>_<name>.sql''))
      else case ParseInt v of
        None \<Rightarrow> Inl (ErrorString (''goque/goosemigrate: migration '' @ name @ '' has no positive integer version''))
      | Some n \<Rightarrow>
          if n \<le> 0 then Inl (ErrorString (''goque/goosemigrate: migration '' @ name @ '' has no positive integer version''))
          else Inr n)"

record mig_file =
  mfName :: string
  mfIsDir :: bool
  mfBody :: string

definition is_sql :: "mig_file \<Rightarrow> bool" where
  "is_sql e \<longleftrightarrow> \<not> mfIsDir e \<and> drop (length (mfName e) - 4) (mfName e) = ''.sql''"

text \<open>The directory may fail to be read.\<close>

fun highest_from :: "int \<Rightarrow> mig_file list \<Rightarrow> go_error + int" where
  "highest_from highest [] = Inr highest"
| "highest_from highest (e # es) =
     (if \<not> is_sql e then highest_from highest es
      else case parseVersion (mfName e) of
        Inl err \<Rightarrow> Inl err
      | Inr v \<Rightarrow> highest_from (if highest < v then v else highest) es)"

definition highestVersionIn :: "go_error + mig_file list \<Rightarrow> go_error + int" where
  "highestVersionIn fsys = (case fsys of Inl err \<Rightarrow> Inl err | Inr es \<Rightarrow> highest_from 0 es)"

subsection \<open>The indexes a migration builds\<close>

text \<open>\<^verbatim>\<open>createIndexPattern\<close> as a matcher: each part consumes a prefix or fails.\<close>

definition is_space :: "char \<Rightarrow> bool" where
  "is_space c \<longleftrightarrow> c \<in> {CHR '' '', CHR 0x09, CHR 0x0A, CHR 0x0C, CHR 0x0D}"

fun word :: "string \<Rightarrow> string \<Rightarrow> string option" where
  "word [] s = Some s"
| "word (w # ws) [] = None"
| "word (w # ws) (c # cs) = (if fold_key [c] = fold_key [w] then word ws cs else None)"

definition spaces :: "string \<Rightarrow> string option" where
  "spaces s = (case s of [] \<Rightarrow> None | c # cs \<Rightarrow> if is_space c then Some (dropWhile is_space cs) else None)"

fun words :: "string list \<Rightarrow> string \<Rightarrow> string option" where
  "words [] s = Some s"
| "words (w # ws) s =
     (case word w s of None \<Rightarrow> None | Some s \<Rightarrow> (case spaces s of None \<Rightarrow> None | Some s \<Rightarrow> words ws s))"

definition index_name :: "string \<Rightarrow> (string \<times> string) option" where
  "index_name s =
     (case s of
        [] \<Rightarrow> None
      | c # cs \<Rightarrow>
          if c = CHR 0x22
          then (let n = takeWhile (\<lambda>c. c \<noteq> CHR 0x22) cs in
                case dropWhile (\<lambda>c. c \<noteq> CHR 0x22) cs of
                  [] \<Rightarrow> None
                | q # rest \<Rightarrow> if n = [] then None else Some (n, rest))
          else if ident_start c then Some (c # takeWhile ident_char cs, dropWhile ident_char cs)
          else None)"

definition create_index :: "string \<Rightarrow> (string \<times> string) option" where
  "create_index s =
     (case words [''CREATE''] s of
        None \<Rightarrow> None
      | Some s \<Rightarrow>
          (let s = (case words [''UNIQUE''] s of None \<Rightarrow> s | Some s' \<Rightarrow> s') in
           case words [''INDEX'', ''CONCURRENTLY''] s of
             None \<Rightarrow> None
           | Some s \<Rightarrow>
               (case Option.bind (words [''IF'', ''NOT'', ''EXISTS''] s) index_name of
                  Some r \<Rightarrow> Some r
                | None \<Rightarrow> index_name s)))"

lemma word_shorter: "word w s = Some s' \<Longrightarrow> length s' \<le> length s"
  by (induction w s rule: word.induct) (auto split: if_splits)

lemma spaces_shorter: "spaces s = Some s' \<Longrightarrow> length s' < length s"
  by (auto simp: spaces_def le_imp_less_Suc length_dropWhile_le split: list.splits if_splits)

lemma words_shorter: "words ws s = Some s' \<Longrightarrow> length s' \<le> length s"
  by (induction ws s rule: words.induct) (fastforce dest: word_shorter spaces_shorter split: option.splits)+

lemma index_name_shorter: "index_name s = Some (n, rest) \<Longrightarrow> length rest < length s"
  using length_dropWhile_le [of "\<lambda>c. c \<noteq> CHR 0x22" "tl s"] length_dropWhile_le [of ident_char "tl s"]
  by (auto simp: index_name_def Let_def split: list.splits if_splits)

lemma bind_or_else:
  "(case Option.bind x f of None \<Rightarrow> y | Some r \<Rightarrow> Some r) = Some z \<Longrightarrow> (\<exists>s. x = Some s \<and> f s = Some z) \<or> y = Some z"
  by (cases x; cases "f (the x)") auto

lemma create_index_shorter: "create_index s = Some (n, rest) \<Longrightarrow> length rest < length s"
proof -
  assume c: "create_index s = Some (n, rest)"
  then obtain s1 where s1: "words [''CREATE''] s = Some s1" by (auto simp: create_index_def simp del: words.simps split: option.splits)
  define s2 where "s2 = (case words [''UNIQUE''] s1 of None \<Rightarrow> s1 | Some s' \<Rightarrow> s')"
  have s2: "length s2 \<le> length s1" using words_shorter by (simp add: s2_def del: words.simps split: option.split)
  have c2: "(case words [''INDEX'', ''CONCURRENTLY''] s2 of None \<Rightarrow> None
      | Some s \<Rightarrow> (case Option.bind (words [''IF'', ''NOT'', ''EXISTS''] s) index_name of None \<Rightarrow> index_name s | Some r \<Rightarrow> Some r))
      = Some (n, rest)"
    using c unfolding create_index_def s1 option.case Let_def s2_def [symmetric] .
  then obtain s3 where s3: "words [''INDEX'', ''CONCURRENTLY''] s2 = Some s3" by (auto simp del: words.simps split: option.splits)
  have "(\<exists>s4. words [''IF'', ''NOT'', ''EXISTS''] s3 = Some s4 \<and> index_name s4 = Some (n, rest)) \<or> index_name s3 = Some (n, rest)"
    using c2 unfolding s3 option.case by (rule bind_or_else)
  then have "length rest < length s3"
  proof (elim disjE exE conjE)
    fix s4 assume "words [''IF'', ''NOT'', ''EXISTS''] s3 = Some s4" "index_name s4 = Some (n, rest)"
    from words_shorter [OF this(1)] index_name_shorter [OF this(2)] show ?thesis by (rule order_less_le_trans [rotated])
  qed (rule index_name_shorter)
  then show ?thesis using words_shorter [OF s1] s2 words_shorter [OF s3] by linarith
qed

function FindAllIndexes :: "string \<Rightarrow> string list" where
  "FindAllIndexes s =
     (case create_index s of
        Some (n, rest) \<Rightarrow> n # FindAllIndexes rest
      | None \<Rightarrow> (case s of [] \<Rightarrow> [] | c # cs \<Rightarrow> FindAllIndexes cs))"
  by pat_completeness auto
termination
  by (relation "measure length") (auto dest: create_index_shorter)

declare FindAllIndexes.simps [simp del]

record migrationIndexes =
  miVersion :: int
  miNames :: "string list"

fun indexes_from :: "mig_file list \<Rightarrow> go_error + migrationIndexes list" where
  "indexes_from [] = Inr []"
| "indexes_from (e # es) =
     (if \<not> is_sql e then indexes_from es
      else case parseVersion (mfName e) of
        Inl err \<Rightarrow> Inl err
      | Inr v \<Rightarrow>
          (let names = FindAllIndexes (mfBody e) in
           case indexes_from es of
             Inl err \<Rightarrow> Inl err
           | Inr rest \<Rightarrow> Inr (if names = [] then rest else \<lparr>miVersion = v, miNames = names\<rparr> # rest)))"

definition wrap_mig :: "fmt \<Rightarrow> go_error \<Rightarrow> go_error" where
  "wrap_mig F err = Wrapped (''goque/goosemigrate: '' @ Error F err) err"

definition migrationIndexesByVersion :: "fmt \<Rightarrow> go_error + mig_file list \<Rightarrow> go_error + migrationIndexes list" where
  "migrationIndexesByVersion F fsys = (case fsys of Inl err \<Rightarrow> Inl (wrap_mig F err) | Inr es \<Rightarrow> indexes_from es)"

end
