(* ===== verification/Migrate_Run.thy ===== *)
theory Migrate_Run
  imports Migrate
begin

text \<open>
  The run of the migrations: the checks before it, the advisory lock, and the sweep of the indexes an
  interrupted run left broken (\<^verbatim>\<open>goosemigrate.go\<close>, \<^verbatim>\<open>recover.go\<close>, \<^verbatim>\<open>integrity.go\<close>).
\<close>

subsection \<open>The database\<close>

record pg_index =
  ixSchema :: string
  ixTable :: string
  ixName :: string
  ixValid :: bool
  ixConstraint :: bool

text \<open>
  \<open>mdVersions\<close> is goose's table, \<open>None\<close> if it does not exist; \<open>mdLocks\<close> says which session holds an advisory lock, and
  how often.
\<close>

record mdb =
  mdTimeout :: string
  mdVersions :: "(int \<times> bool) list option"
  mdIndexes :: "pg_index list"
  mdLocks :: "i64 \<Rightarrow> (string \<times> nat) option"

datatype mquery =
    ShowTimeout
  | MaxVersion string
  | AppliedVersions string
  | TryLock i64
  | Unlock i64
  | AtRisk string string "string list"
  | DropIndex string string

datatype mresult = MText string | MInt "int option" | MInts "int list" | MBool bool | MNames "string list" | MDone

type_synonym mconn = "mquery \<Rightarrow> mdb \<Rightarrow> (go_error + mresult) \<times> mdb"

definition at_risk :: "string \<Rightarrow> string \<Rightarrow> string list \<Rightarrow> pg_index \<Rightarrow> bool" where
  "at_risk schema tab names ix \<longleftrightarrow>
     ixSchema ix = schema \<and> ixTable ix = tab \<and> \<not> ixValid ix \<and> ixName ix \<in> set names \<and> \<not> ixConstraint ix"

text \<open>
  What the server does for a session: advisory locks are held by sessions and may be taken again by the
  holder; a missing table is the error \<open>missing\<close>.
\<close>

fun pg_server :: "go_error \<Rightarrow> string \<Rightarrow> mconn" where
  "pg_server missing sess ShowTimeout db = (Inr (MText (mdTimeout db)), db)"
| "pg_server missing sess (MaxVersion tab) db =
     (case mdVersions db of
        None \<Rightarrow> (Inl missing, db)
      | Some [] \<Rightarrow> (Inr (MInt None), db)
      | Some (v # vs) \<Rightarrow> (Inr (MInt (Some (foldl max (fst v) (map fst vs)))), db))"
| "pg_server missing sess (AppliedVersions tab) db =
     (case mdVersions db of
        None \<Rightarrow> (Inl missing, db)
      | Some vs \<Rightarrow> (Inr (MInts (map fst (filter snd vs))), db))"
| "pg_server missing sess (TryLock i) db =
     (case mdLocks db i of
        None \<Rightarrow> (Inr (MBool True), db\<lparr>mdLocks := (mdLocks db)(i \<mapsto> (sess, 1))\<rparr>)
      | Some (s, n) \<Rightarrow>
          if s = sess then (Inr (MBool True), db\<lparr>mdLocks := (mdLocks db)(i \<mapsto> (sess, n + 1))\<rparr>)
          else (Inr (MBool False), db))"
| "pg_server missing sess (Unlock i) db =
     (case mdLocks db i of
        None \<Rightarrow> (Inr (MBool False), db)
      | Some (s, n) \<Rightarrow>
          if s = sess then (Inr (MBool True), db\<lparr>mdLocks := (mdLocks db)(i := (if n \<le> 1 then None else Some (sess, n - 1)))\<rparr>)
          else (Inr (MBool False), db))"
| "pg_server missing sess (AtRisk schema tab names) db =
     (Inr (MNames (map ixName (filter (at_risk schema tab names) (mdIndexes db)))), db)"
| "pg_server missing sess (DropIndex schema name) db =
     (Inr MDone, db\<lparr>mdIndexes := filter (\<lambda>ix. \<not> (ixSchema ix = schema \<and> ixName ix = name)) (mdIndexes db)\<rparr>)"

subsection \<open>Configuration\<close>

record mg_config =
  mgSchema :: string
  mgAllowTimeout :: bool

definition mg_WithSchema :: "string \<Rightarrow> mg_config \<Rightarrow> mg_config" where
  "mg_WithSchema name c = c\<lparr>mgSchema := name\<rparr>"

definition WithAllowStatementTimeout :: "mg_config \<Rightarrow> mg_config" where
  "WithAllowStatementTimeout c = c\<lparr>mgAllowTimeout := True\<rparr>"

definition mg_newConfig :: "(mg_config \<Rightarrow> mg_config) list \<Rightarrow> go_error + mg_config" where
  "mg_newConfig opts =
     (let c = fold (\<lambda>opt c. opt c) opts \<lparr>mgSchema = ''public'', mgAllowTimeout = False\<rparr>
      in case ValidateSchema (mgSchema c) of Some err \<Rightarrow> Inl err | None \<Rightarrow> Inr c)"

definition mg_table :: "mg_config \<Rightarrow> string" where
  "mg_table cfg = quoteIdent (mgSchema cfg) @ ''.goque_migration''"

unbundle bit_operations_syntax

text \<open>FNV-1a on 64 bits, of which the lock keeps the lower half under a name space of its own.\<close>

definition fnv64a :: "string \<Rightarrow> 64 word" where
  "fnv64a s = foldl (\<lambda>h c. (h XOR of_nat (of_char c)) * 1099511628211) 14695981039346656037 s"

definition lockID :: "string \<Rightarrow> i64" where
  "lockID schema = push_bit 32 0x676F7175 XOR (fnv64a (''goque:'' @ schema) AND 0xFFFFFFFF)"

subsection \<open>Checks\<close>

definition ErrVersionSkew :: go_error where
  "ErrVersionSkew = ErrorString ''goque/goosemigrate: database schema is newer than this binary''"

definition ErrStatementTimeout :: go_error where
  "ErrStatementTimeout = ErrorString ''goque/goosemigrate: statement_timeout is set on this connection''"

text \<open>What the code relies on around it: the code of a database error, the text of errors, and the embedded files. The errors
  built here leave out the numbers of their texts.\<close>

record mg_env =
  mgCode :: "go_error \<Rightarrow> string option"
  mgFmt :: fmt
  mgFiles :: "go_error + mig_file list"

definition isUndefinedTable :: "mg_env \<Rightarrow> go_error \<Rightarrow> bool" where
  "isUndefinedTable M err \<longleftrightarrow> mgCode M err = Some ''42P01''"

definition checkStatementTimeout :: "mconn \<Rightarrow> mg_config \<Rightarrow> mdb \<Rightarrow> go_error option \<times> mdb" where
  "checkStatementTimeout conn cfg db =
     (if mgAllowTimeout cfg then (None, db)
      else case conn ShowTimeout db of
        (Inl err, db) \<Rightarrow> (Some err, db)
      | (Inr (MText setting), db) \<Rightarrow>
          if setting = [] \<or> setting = ''0'' then (None, db)
          else (Some (Wrapped (''goque/goosemigrate: statement_timeout is set on this connection ('' @ setting @
             ''); migrate with a connection that has none, or pass WithAllowStatementTimeout'') ErrStatementTimeout), db)
      | (Inr _, db) \<Rightarrow> (Some scan_error, db))"

definition dbMaxAppliedVersion :: "mg_env \<Rightarrow> mconn \<Rightarrow> mg_config \<Rightarrow> mdb \<Rightarrow> (go_error + int option) \<times> mdb" where
  "dbMaxAppliedVersion M conn cfg db =
     (case conn (MaxVersion (mg_table cfg)) db of
        (Inl err, db) \<Rightarrow> (if isUndefinedTable M err then Inr None else Inl err, db)
      | (Inr (MInt v), db) \<Rightarrow> (Inr v, db)
      | (Inr _, db) \<Rightarrow> (Inl scan_error, db))"

definition checkVersionSkew :: "mg_env \<Rightarrow> mconn \<Rightarrow> mg_config \<Rightarrow> mdb \<Rightarrow> go_error option \<times> mdb" where
  "checkVersionSkew M conn cfg db =
     (case highestVersionIn (mgFiles M) of
        Inl err \<Rightarrow> (Some err, db)
      | Inr highest \<Rightarrow>
          (case dbMaxAppliedVersion M conn cfg db of
             (Inl err, db) \<Rightarrow> (Some err, db)
           | (Inr None, db) \<Rightarrow> (None, db)
           | (Inr (Some v), db) \<Rightarrow>
               if v \<le> highest then (None, db)
               else (Some (Wrapped ''goque/goosemigrate: database schema is newer than this binary'' ErrVersionSkew), db)))"

definition migrationsFullyApplied :: "go_error + mig_file list \<Rightarrow> int option \<Rightarrow> go_error + bool" where
  "migrationsFullyApplied fsys applied =
     (case highestVersionIn fsys of
        Inl err \<Rightarrow> Inl err
      | Inr highest \<Rightarrow> Inr (case applied of None \<Rightarrow> False | Some v \<Rightarrow> highest \<le> v))"

subsection \<open>The sweep\<close>

definition appliedVersions :: "mg_env \<Rightarrow> mconn \<Rightarrow> mg_config \<Rightarrow> mdb \<Rightarrow> (go_error + int set) \<times> mdb" where
  "appliedVersions M conn cfg db =
     (case conn (AppliedVersions (mg_table cfg)) db of
        (Inl err, db) \<Rightarrow> (if isUndefinedTable M err then Inr {} else Inl (wrap_mig (mgFmt M) err), db)
      | (Inr (MInts vs), db) \<Rightarrow> (Inr (set vs), db)
      | (Inr _, db) \<Rightarrow> (Inl (wrap_mig (mgFmt M) scan_error), db))"

definition pendingIndexNames :: "mg_env \<Rightarrow> mconn \<Rightarrow> mg_config \<Rightarrow> mdb \<Rightarrow> (go_error + string list) \<times> mdb" where
  "pendingIndexNames M conn cfg db =
     (case migrationIndexesByVersion (mgFmt M) (mgFiles M) of
        Inl err \<Rightarrow> (Inl err, db)
      | Inr files \<Rightarrow>
          (case appliedVersions M conn cfg db of
             (Inl err, db) \<Rightarrow> (Inl err, db)
           | (Inr applied, db) \<Rightarrow> (Inr (concat (map miNames (filter (\<lambda>f. miVersion f \<notin> applied) files))), db)))"

fun drop_indexes :: "mg_env \<Rightarrow> mconn \<Rightarrow> mg_config \<Rightarrow> string list \<Rightarrow> mdb \<Rightarrow> go_error option \<times> mdb" where
  "drop_indexes M conn cfg [] db = (None, db)"
| "drop_indexes M conn cfg (name # found) db =
     (case conn (DropIndex (mgSchema cfg) name) db of
        (Inl err, db) \<Rightarrow>
          (Some (Wrapped (''goque/goosemigrate: dropping invalid index '' @ name @ '': '' @ Error (mgFmt M) err) err), db)
      | (Inr _, db) \<Rightarrow> drop_indexes M conn cfg found db)"

definition sweepInvalidIndexes :: "mg_env \<Rightarrow> mconn \<Rightarrow> mg_config \<Rightarrow> mdb \<Rightarrow> go_error option \<times> mdb" where
  "sweepInvalidIndexes M conn cfg db =
     (case pendingIndexNames M conn cfg db of
        (Inl err, db) \<Rightarrow> (Some err, db)
      | (Inr names, db) \<Rightarrow>
          if names = [] then (None, db)
          else case conn (AtRisk (mgSchema cfg) (quoteIdent (mgSchema cfg) @ ''.goque_job'') names) db of
            (Inl err, db) \<Rightarrow> (Some (wrap_mig (mgFmt M) err), db)
          | (Inr (MNames found), db) \<Rightarrow> drop_indexes M conn cfg found db
          | (Inr _, db) \<Rightarrow> (Some (wrap_mig (mgFmt M) scan_error), db))"

subsection \<open>The lock\<close>

text \<open>
  The loop over the attempts; \<open>left\<close> counts the retries left of \<^verbatim>\<open>lockRetryMaxAttempts\<close>. \<open>pause\<close> is the wait between two
  attempts: other sessions go on meanwhile, and the context may end.
\<close>

definition lockRetryMaxAttempts :: nat where
  "lockRetryMaxAttempts = 60"

fun lock_loop :: "nat \<Rightarrow> mg_env \<Rightarrow> mconn \<Rightarrow> (mdb \<Rightarrow> go_error option \<times> mdb) \<Rightarrow> i64 \<Rightarrow> mdb \<Rightarrow> go_error option \<times> mdb" where
  "lock_loop left M conn pause i db =
     (case conn (TryLock i) db of
        (Inl err, db) \<Rightarrow> (Some (wrap_mig (mgFmt M) err), db)
      | (Inr (MBool locked), db) \<Rightarrow>
          if locked then (None, db)
          else (case left of
              0 \<Rightarrow> (Some (ErrorString ''goque/goosemigrate: recovery lock still held by another session''), db)
            | Suc n \<Rightarrow>
                (case pause db of
                   (Some err, db) \<Rightarrow>
                     (Some (Wrapped (''goque/goosemigrate: waiting for the recovery lock: '' @ Error (mgFmt M) err) err), db)
                 | (None, db) \<Rightarrow> lock_loop n M conn pause i db))
      | (Inr _, db) \<Rightarrow> (Some (wrap_mig (mgFmt M) scan_error), db))"

declare lock_loop.simps [simp del]

definition acquireRecoveryLock :: "mg_env \<Rightarrow> mconn \<Rightarrow> (mdb \<Rightarrow> go_error option \<times> mdb) \<Rightarrow> i64 \<Rightarrow> mdb \<Rightarrow> go_error option \<times> mdb" where
  "acquireRecoveryLock M conn pause i db = lock_loop lockRetryMaxAttempts M conn pause i db"

definition SessionLock :: "mg_env \<Rightarrow> mconn \<Rightarrow> (mdb \<Rightarrow> go_error option \<times> mdb) \<Rightarrow> mg_config \<Rightarrow> mdb \<Rightarrow> go_error option \<times> mdb" where
  "SessionLock M conn pause cfg db =
     (let i = lockID (mgSchema cfg) in
      case acquireRecoveryLock M conn pause i db of
        (Some err, db) \<Rightarrow>
          (Some (Wrapped (''goque/goosemigrate: acquiring the recovery lock for schema '' @ mgSchema cfg @ '': '' @ Error (mgFmt M) err) err), db)
      | (None, db) \<Rightarrow>
          (case sweepInvalidIndexes M conn cfg db of
             (Some err, db) \<Rightarrow> (Some err, snd (conn (Unlock i) db))
           | (None, db) \<Rightarrow> (None, db)))"

definition SessionUnlock :: "mg_env \<Rightarrow> mconn \<Rightarrow> mg_config \<Rightarrow> mdb \<Rightarrow> go_error option \<times> mdb" where
  "SessionUnlock M conn cfg db =
     (let i = lockID (mgSchema cfg) in
      case conn (Unlock i) db of
        (Inl err, db) \<Rightarrow>
          (Some (Wrapped (''goque/goosemigrate: releasing the recovery lock for schema '' @ mgSchema cfg @ '': '' @ Error (mgFmt M) err) err), db)
      | (Inr (MBool unlocked), db) \<Rightarrow>
          (if unlocked then None
           else Some (ErrorString (''goque/goosemigrate: recovery lock for schema '' @ mgSchema cfg @ '' was not held at unlock time'')), db)
      | (Inr _, db) \<Rightarrow> (Some scan_error, db))"

subsection \<open>Up\<close>

text \<open>The files as the provider reads them: every placeholder is the quoted schema.\<close>

function replace_all :: "string \<Rightarrow> string \<Rightarrow> string \<Rightarrow> string" where
  "replace_all old new s =
     (case s of
        [] \<Rightarrow> []
      | c # cs \<Rightarrow>
          if old \<noteq> [] \<and> take (length old) s = old then new @ replace_all old new (drop (length old) s)
          else c # replace_all old new cs)"
  by pat_completeness auto
termination
  by (relation "measure (\<lambda>(old, new, s). length s)") auto

declare replace_all.simps [simp del]

definition schemaFS :: "string \<Rightarrow> mig_file \<Rightarrow> mig_file" where
  "schemaFS quoted f = (if mfIsDir f then f else f\<lparr>mfBody := replace_all ''{{schema}}'' quoted (mfBody f)\<rparr>)"

text \<open>
  What goose is built from: the files, its table and the two callbacks of the session lock. \<open>NewProvider\<close> is
  goose's constructor; what it returns is \<^verbatim>\<open>Provider.Up\<close> on the database.
\<close>

record goose =
  gFiles :: "go_error + mig_file list"
  gTable :: string
  gLock :: "mdb \<Rightarrow> go_error option \<times> mdb"
  gUnlock :: "mdb \<Rightarrow> go_error option \<times> mdb"

type_synonym goose_new = "goose \<Rightarrow> go_error + (mdb \<Rightarrow> go_error option \<times> mdb)"

definition newProvider :: "mg_env \<Rightarrow> mconn \<Rightarrow> (mdb \<Rightarrow> go_error option \<times> mdb) \<Rightarrow> goose_new \<Rightarrow> mg_config
    \<Rightarrow> go_error + (mdb \<Rightarrow> go_error option \<times> mdb)" where
  "newProvider M conn pause NewProvider cfg =
     NewProvider \<lparr>
       gFiles = (case mgFiles M of Inl err \<Rightarrow> Inl err | Inr es \<Rightarrow> Inr (map (schemaFS (quoteIdent (mgSchema cfg))) es)),
       gTable = mgSchema cfg @ ''.goque_migration'',
       gLock = SessionLock M conn pause cfg,
       gUnlock = SessionUnlock M conn cfg\<rparr>"

text \<open>\<open>has_db\<close> says that a handle was given.\<close>

definition mg_Up ::
  "mg_env \<Rightarrow> mconn \<Rightarrow> (mdb \<Rightarrow> go_error option \<times> mdb) \<Rightarrow> goose_new \<Rightarrow> bool \<Rightarrow> (mg_config \<Rightarrow> mg_config) list \<Rightarrow> mdb
   \<Rightarrow> go_error option \<times> mdb" where
  "mg_Up M conn pause NewProvider has_db opts db =
     (case mg_newConfig opts of
        Inl err \<Rightarrow> (Some err, db)
      | Inr cfg \<Rightarrow>
      if \<not> has_db then (Some (ErrorString ''goque/goosemigrate: nil database handle''), db)
      else case checkStatementTimeout conn cfg db of
        (Some err, db) \<Rightarrow> (Some err, db)
      | (None, db) \<Rightarrow>
      case checkVersionSkew M conn cfg db of
        (Some err, db) \<Rightarrow> (Some err, db)
      | (None, db) \<Rightarrow>
      case dbMaxAppliedVersion M conn cfg db of
        (Inl err, db) \<Rightarrow> (Some err, db)
      | (Inr applied, db) \<Rightarrow>
      case migrationsFullyApplied (mgFiles M) applied of
        Inl err \<Rightarrow> (Some err, db)
      | Inr upToDate \<Rightarrow>
      if upToDate then (None, db)
      else case newProvider M conn pause NewProvider cfg of
        Inl err \<Rightarrow> (Some err, db)
      | Inr up \<Rightarrow>
          (case up db of
             (Some err, db) \<Rightarrow> (Some (Wrapped (''goque/goosemigrate: applying migrations: '' @ Error (mgFmt M) err) err), db)
           | (None, db) \<Rightarrow> (None, db)))"

subsection \<open>The command\<close>

text \<open>\<^verbatim>\<open>run\<close> of \<^verbatim>\<open>goque-migrate\<close> after its flags are parsed: the schema and the connection string they give.
  \<open>open_db\<close> opens a handle and \<open>up\<close> is \<^verbatim>\<open>goosemigrate.Up\<close> on it with the options given; closing it is left out.\<close>

definition run_command ::
  "go_error + (string \<times> string) \<Rightarrow> (string \<Rightarrow> string) \<Rightarrow> (string \<Rightarrow> go_error option) \<Rightarrow> ((mg_config \<Rightarrow> mg_config) list \<Rightarrow> mdb \<Rightarrow> go_error option \<times> mdb)
   \<Rightarrow> mdb \<Rightarrow> (go_error + string) \<times> mdb" where
  "run_command flags getenv open_db up db =
     (case flags of
        Inl err \<Rightarrow> (Inl err, db)
      | Inr (schema, dsn) \<Rightarrow>
          (let dsn = (if dsn = [] then getenv ''DATABASE_URL'' else dsn) in
           if dsn = [] then (Inl (ErrorString ''no connection string: pass -dsn or set DATABASE_URL''), db)
           else case open_db dsn of
             Some err \<Rightarrow> (Inl err, db)
           | None \<Rightarrow>
               (case up [mg_WithSchema schema] db of
                  (Some err, db) \<Rightarrow> (Inl err, db)
                | (None, db) \<Rightarrow> (Inr (''goque schema '' @ schema @ '' is up to date''), db))))"

end
