(* ===== verification/Migrate_Spec.thy ===== *)
theory Migrate_Spec
  imports Migrate_Run
begin

text \<open>
  Facts on the run of the migrations: what a session holds of the lock after each outcome, what the sweep may drop,
  and when \<^verbatim>\<open>Up\<close> does nothing. The database is \<open>pg_server\<close> behind a connection on which any statement but the
  unlock may fail, while other sessions act during the pauses of the retry loop.
\<close>

subsection \<open>The connection and the other sessions\<close>

definition held_by :: "string \<Rightarrow> i64 \<Rightarrow> mdb \<Rightarrow> nat" where
  "held_by sess i db = (case mdLocks db i of None \<Rightarrow> 0 | Some (s, n) \<Rightarrow> if s = sess then n else 0)"

definition free :: "string \<Rightarrow> i64 \<Rightarrow> mdb \<Rightarrow> bool" where
  "free sess i db \<longleftrightarrow> (case mdLocks db i of None \<Rightarrow> True | Some (s, n) \<Rightarrow> s = sess)"

definition mine :: "string \<Rightarrow> (string \<times> nat) option \<Rightarrow> bool" where
  "mine sess l \<longleftrightarrow> (case l of None \<Rightarrow> False | Some (s, n) \<Rightarrow> s = sess)"

text \<open>Others may do anything but take or release the locks of this session.\<close>

definition others :: "string \<Rightarrow> (mdb \<Rightarrow> go_error option \<times> mdb) \<Rightarrow> mdb \<Rightarrow> go_error option \<times> mdb" where
  "others sess act db =
     (fst (act db), (snd (act db))\<lparr>mdLocks := (\<lambda>i.
        if mine sess (mdLocks db i) then mdLocks db i
        else if mine sess (mdLocks (snd (act db)) i) then None else mdLocks (snd (act db)) i)\<rparr>)"

definition link :: "go_error \<Rightarrow> string \<Rightarrow> (mquery \<Rightarrow> mdb \<Rightarrow> go_error option) \<Rightarrow> mconn" where
  "link missing sess fails q db =
     (case q of
        Unlock i \<Rightarrow> pg_server missing sess q db
      | _ \<Rightarrow> (case fails q db of Some err \<Rightarrow> (Inl err, db) | None \<Rightarrow> pg_server missing sess q db))"

lemma link_simps:
  "link missing sess fails (Unlock i) db = pg_server missing sess (Unlock i) db"
  "link missing sess fails (TryLock i) db =
     (case fails (TryLock i) db of Some err \<Rightarrow> (Inl err, db) | None \<Rightarrow> pg_server missing sess (TryLock i) db)"
  "link missing sess fails (DropIndex s n) db =
     (case fails (DropIndex s n) db of Some err \<Rightarrow> (Inl err, db) | None \<Rightarrow> pg_server missing sess (DropIndex s n) db)"
  "link missing sess fails (AtRisk s t ns) db =
     (case fails (AtRisk s t ns) db of Some err \<Rightarrow> (Inl err, db) | None \<Rightarrow> pg_server missing sess (AtRisk s t ns) db)"
  "link missing sess fails (AppliedVersions t) db =
     (case fails (AppliedVersions t) db of Some err \<Rightarrow> (Inl err, db) | None \<Rightarrow> pg_server missing sess (AppliedVersions t) db)"
  by (simp_all add: link_def)

lemma holds_others [simp]: "held_by sess i (snd (others sess act db)) = held_by sess i db"
  by (auto simp: held_by_def others_def mine_def split: option.splits)

lemma link_unlock: "held_by sess i (snd (link missing sess fails (Unlock i) db)) = held_by sess i db - 1"
  by (auto simp: link_simps held_by_def split: option.splits)

lemma link_try:
  assumes "link missing sess fails (TryLock i) db = (r, db')"
  shows "(\<exists>err. r = Inl err \<and> db' = db) \<or> (r = Inr (MBool False) \<and> db' = db) \<or>
    (r = Inr (MBool True) \<and> held_by sess i db' = held_by sess i db + 1)"
proof (cases "fails (TryLock i) db")
  case (Some err)
  then show ?thesis using assms by (auto simp: link_simps)
next
  case None
  then have r: "pg_server missing sess (TryLock i) db = (r, db')" using assms by (simp add: link_simps)
  show ?thesis
  proof (cases "mdLocks db i")
    case None
    with r show ?thesis by (clarsimp simp: held_by_def)
  next
    case (Some l)
    with r show ?thesis by (cases l) (clarsimp simp: held_by_def split: if_splits)
  qed
qed

subsection \<open>The lock\<close>

lemma lock_loop_holds:
  "lock_loop left M (link missing sess fails) (others sess act) i db = (r, db') \<Longrightarrow>
   held_by sess i db' = held_by sess i db + (if r = None then 1 else 0)"
proof (induction left arbitrary: db)
  case 0
  obtain a db1 where t: "link missing sess fails (TryLock i) db = (a, db1)" by force
  show ?case using link_try [OF t] "0.prems" unfolding lock_loop.simps [of 0] by (auto simp: t split: if_splits)
next
  case (Suc n)
  obtain a db1 where t: "link missing sess fails (TryLock i) db = (a, db1)" by force
  obtain b db2 where p: "others sess act db = (b, db2)" by force
  have h: "held_by sess i db2 = held_by sess i db" using holds_others [of sess i act db] by (simp add: p)
  show ?case
    using link_try [OF t] Suc.prems Suc.IH [of db2] h unfolding lock_loop.simps [of "Suc n"]
    by (auto simp: t p split: if_splits option.splits)
qed

lemma drop_indexes_spec:
  "drop_indexes M (link missing sess fails) cfg found db = (r, db') \<Longrightarrow>
   \<exists>gone\<subseteq>set found. db' = db\<lparr>mdIndexes := filter (\<lambda>ix. \<not> (ixSchema ix = mgSchema cfg \<and> ixName ix \<in> gone)) (mdIndexes db)\<rparr> \<and>
     (r = None \<longrightarrow> gone = set found)"
proof (induction found arbitrary: db)
  case Nil
  then show ?case by simp
next
  case (Cons n found)
  show ?case
  proof (cases "fails (DropIndex (mgSchema cfg) n) db")
    case (Some err)
    then show ?thesis using Cons.prems by (intro exI [of _ "{}"]) (auto simp: link_simps)
  next
    case None
    let ?db = "db\<lparr>mdIndexes := filter (\<lambda>ix. \<not> (ixSchema ix = mgSchema cfg \<and> ixName ix = n)) (mdIndexes db)\<rparr>"
    have "drop_indexes M (link missing sess fails) cfg found ?db = (r, db')" using Cons.prems None by (simp add: link_simps)
    from Cons.IH [OF this] obtain gone where g: "gone \<subseteq> set found" "r = None \<longrightarrow> gone = set found"
      "db' = ?db\<lparr>mdIndexes := filter (\<lambda>ix. \<not> (ixSchema ix = mgSchema cfg \<and> ixName ix \<in> gone)) (mdIndexes ?db)\<rparr>" by blast
    show ?thesis using g by (intro exI [of _ "insert n gone"]) (auto intro!: arg_cong [where f = "\<lambda>l. db\<lparr>mdIndexes := l\<rparr>"] filter_cong)
  qed
qed

subsection \<open>The sweep\<close>

definition applied_of :: "mdb \<Rightarrow> int set" where
  "applied_of db = (case mdVersions db of None \<Rightarrow> {} | Some vs \<Rightarrow> {v. (v, True) \<in> set vs})"

definition pending_names :: "mg_env \<Rightarrow> mdb \<Rightarrow> string set" where
  "pending_names M db =
     (case migrationIndexesByVersion (mgFmt M) (mgFiles M) of
        Inl err \<Rightarrow> {}
      | Inr files \<Rightarrow> \<Union> (set ` miNames ` {f \<in> set files. miVersion f \<notin> applied_of db}))"

lemma appliedVersions_link:
  assumes f: "\<And>q db err. fails q db = Some err \<Longrightarrow> \<not> isUndefinedTable M err"
      and a: "appliedVersions M (link missing sess fails) cfg db = (r, db')"
  shows "db' = db \<and> (\<forall>vs. r = Inr vs \<longrightarrow> vs = applied_of db)"
proof (cases "fails (AppliedVersions (mg_table cfg)) db")
  case (Some err)
  then show ?thesis using a f [OF Some] by (auto simp: appliedVersions_def link_simps)
next
  case None
  then show ?thesis using a by (auto simp: appliedVersions_def link_simps applied_of_def image_iff split: option.splits if_splits)
qed

lemma pending_link:
  assumes f: "\<And>q db err. fails q db = Some err \<Longrightarrow> \<not> isUndefinedTable M err"
      and a: "pendingIndexNames M (link missing sess fails) cfg db = (r, db')"
  shows "db' = db \<and> (\<forall>names. r = Inr names \<longrightarrow> set names = pending_names M db)"
  using a appliedVersions_link [of fails M missing sess cfg db, OF f]
  by (cases "appliedVersions M (link missing sess fails) cfg db")
     (auto simp: pendingIndexNames_def pending_names_def split: sum.splits)

definition job_table :: "mg_config \<Rightarrow> string" where
  "job_table cfg = quoteIdent (mgSchema cfg) @ ''.goque_job''"

text \<open>An index an interrupted migration may have left: of the job table, not valid, backing no constraint, named by a
  migration not applied.\<close>

definition left_broken :: "mg_env \<Rightarrow> mg_config \<Rightarrow> mdb \<Rightarrow> pg_index \<Rightarrow> bool" where
  "left_broken M cfg db ix \<longleftrightarrow>
     ixSchema ix = mgSchema cfg \<and> ixTable ix = job_table cfg \<and> \<not> ixValid ix \<and> \<not> ixConstraint ix \<and> ixName ix \<in> pending_names M db"

lemma sweep_spec:
  assumes f: "\<And>q db err. fails q db = Some err \<Longrightarrow> \<not> isUndefinedTable M err"
      and a: "sweepInvalidIndexes M (link missing sess fails) cfg db = (r, db')"
  shows "\<exists>gone. gone \<subseteq> {ixName ix |ix. ix \<in> set (mdIndexes db) \<and> left_broken M cfg db ix} \<and>
      db' = db\<lparr>mdIndexes := filter (\<lambda>ix. \<not> (ixSchema ix = mgSchema cfg \<and> ixName ix \<in> gone)) (mdIndexes db)\<rparr> \<and>
      (r = None \<longrightarrow> gone = {ixName ix |ix. ix \<in> set (mdIndexes db) \<and> left_broken M cfg db ix})"
proof -
  obtain p db1 where p: "pendingIndexNames M (link missing sess fails) cfg db = (p, db1)" by force
  note pl = pending_link [OF f p]
  show ?thesis
  proof (cases p)
    case (Inl err)
    then show ?thesis using a p pl by (intro exI [of _ "{}"]) (auto simp: sweepInvalidIndexes_def)
  next
    case (Inr names)
    have n: "db1 = db" "set names = pending_names M db" using pl Inr by auto
    have br: "left_broken M cfg db ix = at_risk (mgSchema cfg) (job_table cfg) names ix" for ix
      by (auto simp: left_broken_def at_risk_def n)
    show ?thesis
    proof (cases "names = [] \<or> fails (AtRisk (mgSchema cfg) (job_table cfg) names) db \<noteq> None")
      case True
      then show ?thesis using a p Inr n
        by (intro exI [of _ "{}"]) (auto simp: sweepInvalidIndexes_def job_table_def [symmetric] link_simps br at_risk_def split: if_splits)
    next
      case False
      define found where "found = map ixName (filter (at_risk (mgSchema cfg) (job_table cfg) names) (mdIndexes db))"
      have d: "drop_indexes M (link missing sess fails) cfg found db = (r, db')"
        using a p Inr n False by (simp add: sweepInvalidIndexes_def job_table_def [symmetric] link_simps found_def)
      have "set found = {ixName ix |ix. ix \<in> set (mdIndexes db) \<and> left_broken M cfg db ix}"
        by (auto simp: found_def br)
      with drop_indexes_spec [OF d] show ?thesis by simp
    qed
  qed
qed

lemma sweep_locks:
  assumes "sweepInvalidIndexes M (link missing sess fails) cfg db = (r, db')"
  shows "mdLocks db' = mdLocks db"
proof -
  have a: "snd (appliedVersions M (link missing sess fails) cfg db) = db"
    by (auto simp: appliedVersions_def link_simps split: option.splits)
  obtain p db1 where p: "pendingIndexNames M (link missing sess fails) cfg db = (p, db1)" by force
  have d: "db1 = db" using p a
    by (cases "appliedVersions M (link missing sess fails) cfg db") (auto simp: pendingIndexNames_def split: sum.splits)
  have "drop_indexes M (link missing sess fails) cfg found db = (r, db') \<Longrightarrow> mdLocks db' = mdLocks db" for found
    by (drule drop_indexes_spec) auto
  then show ?thesis using assms p d
    by (cases p) (auto simp: sweepInvalidIndexes_def link_simps split: if_splits option.splits)
qed

lemma held_by_locks: "mdLocks db' = mdLocks db \<Longrightarrow> held_by sess i db' = held_by sess i db"
  by (simp add: held_by_def)

text \<open>The session lock goose is given: taken once more when the call succeeds, not at all when it fails.\<close>

lemma SessionLock_holds:
  assumes "SessionLock M (link missing sess fails) (others sess act) cfg db = (r, db')"
  shows "held_by sess (lockID (mgSchema cfg)) db' = held_by sess (lockID (mgSchema cfg)) db + (if r = None then 1 else 0)"
proof -
  let ?i = "lockID (mgSchema cfg)"
  obtain l db1 where l: "acquireRecoveryLock M (link missing sess fails) (others sess act) ?i db = (l, db1)" by force
  obtain s db2 where s: "sweepInvalidIndexes M (link missing sess fails) cfg db1 = (s, db2)" by force
  have h1: "held_by sess ?i db1 = held_by sess ?i db + (if l = None then 1 else 0)"
    using l unfolding acquireRecoveryLock_def by (rule lock_loop_holds)
  have h2: "held_by sess ?i db2 = held_by sess ?i db1" by (intro held_by_locks sweep_locks [OF s])
  show ?thesis using assms h1 h2 link_unlock [of sess ?i missing fails db2]
    by (cases l; cases s) (auto simp: SessionLock_def l s)
qed

lemma SessionUnlock_holds:
  "held_by sess (lockID (mgSchema cfg)) (snd (SessionUnlock M (link missing sess fails) cfg db)) =
   held_by sess (lockID (mgSchema cfg)) db - 1"
  using link_unlock [of sess "lockID (mgSchema cfg)" missing fails db]
  by (auto simp: SessionUnlock_def Let_def split: prod.split sum.split mresult.split)

subsection \<open>A lock around a run\<close>

text \<open>The contract of goose's session locker, and what a run between the two calls leaves holding.\<close>

locale session_locker =
  fixes lock unlock :: "'db \<Rightarrow> go_error option \<times> 'db"
    and holding :: "'db \<Rightarrow> nat"
  assumes lock_held: "lock db = (r, db') \<Longrightarrow> holding db' = holding db + (if r = None then 1 else 0)"
    and unlock_held: "holding (snd (unlock db)) = holding db - 1"
begin

lemma bracket_held:
  assumes "\<And>db. holding (snd (body db)) = holding db"
  shows "holding (case lock db of (Some err, db) \<Rightarrow> db | (None, db) \<Rightarrow> snd (unlock (snd (body db)))) = holding db"
  using assms lock_held [of db] unlock_held by (auto split: prod.split option.split)

end

interpretation goose: session_locker
  "SessionLock M (link missing sess fails) (others sess act) cfg" "SessionUnlock M (link missing sess fails) cfg"
  "held_by sess (lockID (mgSchema cfg))"
  for M missing sess fails act cfg
  by unfold_locales (rule SessionLock_holds, assumption, rule SessionUnlock_holds)

subsection \<open>What the package promises\<close>

lemma checks_locks:
  "checkStatementTimeout (link missing sess fails) cfg db = (r, db') \<Longrightarrow> mdLocks db' = mdLocks db"
  "checkVersionSkew M (link missing sess fails) cfg db = (r2, db') \<Longrightarrow> mdLocks db' = mdLocks db"
  "dbMaxAppliedVersion M (link missing sess fails) cfg db = (r3, db') \<Longrightarrow> mdLocks db' = mdLocks db"
proof -
  have q: "(\<And>i. q \<noteq> TryLock i) \<Longrightarrow> (\<And>i. q \<noteq> Unlock i) \<Longrightarrow> (\<And>s n. q \<noteq> DropIndex s n) \<Longrightarrow>
      snd (link missing sess fails q db) = db" for q db
    by (cases q) (auto simp: link_def split: option.splits list.splits)
  show "checkStatementTimeout (link missing sess fails) cfg db = (r, db') \<Longrightarrow> mdLocks db' = mdLocks db"
    using q [of ShowTimeout db] by (auto simp: checkStatementTimeout_def split: prod.splits sum.splits mresult.splits if_splits)
  have d: "snd (dbMaxAppliedVersion M (link missing sess fails) cfg db) = db"
    using q [of "MaxVersion (mg_table cfg)" db]
    by (auto simp: dbMaxAppliedVersion_def split: prod.splits sum.splits mresult.splits if_splits)
  show "dbMaxAppliedVersion M (link missing sess fails) cfg db = (r3, db') \<Longrightarrow> mdLocks db' = mdLocks db"
    using d by auto
  show "checkVersionSkew M (link missing sess fails) cfg db = (r2, db') \<Longrightarrow> mdLocks db' = mdLocks db"
    using d by (auto simp: checkVersionSkew_def split: prod.splits sum.splits option.splits if_splits)
qed

definition runs_between :: "(mdb \<Rightarrow> nat) \<Rightarrow> goose \<Rightarrow> (mdb \<Rightarrow> go_error option \<times> mdb) \<Rightarrow> (mdb \<Rightarrow> go_error option \<times> mdb) \<Rightarrow> bool" where
  "runs_between holding g up body \<longleftrightarrow>
     (\<forall>db. holding (snd (body db)) = holding db) \<and>
     (\<forall>db. snd (up db) = (case gLock g db of (Some err, db) \<Rightarrow> db | (None, db) \<Rightarrow> snd (gUnlock g (snd (body db)))))"


text \<open>C20: The sweep drops only what an interrupted migration left: each index gone is an invalid index of the job table,
  backs no constraint and is named by a migration that is not applied. After a sweep that succeeds there is no such
  index. Nothing else changes, whichever statements fail.\<close>

theorem sweep_only_broken:
  assumes "\<And>q db err. fails q db = Some err \<Longrightarrow> \<not> isUndefinedTable M err"
      and "inj_on (\<lambda>ix. (ixSchema ix, ixName ix)) (set (mdIndexes db))"
      and "sweepInvalidIndexes M (link missing sess fails) cfg db = (r, db')"
  shows "db' = db\<lparr>mdIndexes := mdIndexes db'\<rparr> \<and> set (mdIndexes db') \<subseteq> set (mdIndexes db) \<and>
    (\<forall>ix\<in>set (mdIndexes db) - set (mdIndexes db'). left_broken M cfg db ix) \<and>
    (r = None \<longrightarrow> (\<forall>ix\<in>set (mdIndexes db'). \<not> left_broken M cfg db ix))"
proof -
  define rest where "rest gone = filter (\<lambda>ix. \<not> (ixSchema ix = mgSchema cfg \<and> ixName ix \<in> gone)) (mdIndexes db)" for gone
  have "\<exists>gone. gone \<subseteq> {ixName ix |ix. ix \<in> set (mdIndexes db) \<and> left_broken M cfg db ix} \<and> db' = db\<lparr>mdIndexes := rest gone\<rparr> \<and>
      (r = None \<longrightarrow> gone = {ixName ix |ix. ix \<in> set (mdIndexes db) \<and> left_broken M cfg db ix})"
    unfolding rest_def by (rule sweep_spec [OF _ assms(3)], erule assms(1))
  then obtain gone where g: "gone \<subseteq> {ixName ix |ix. ix \<in> set (mdIndexes db) \<and> left_broken M cfg db ix}"
    "db' = db\<lparr>mdIndexes := rest gone\<rparr>"
    "r = None \<longrightarrow> gone = {ixName ix |ix. ix \<in> set (mdIndexes db) \<and> left_broken M cfg db ix}"
    by (elim exE conjE that)
  have i: "mdIndexes db' = rest gone" by (simp add: g(2))
  have eq: "db' = db\<lparr>mdIndexes := mdIndexes db'\<rparr>" unfolding i by (rule g(2))
  have lb: "left_broken M cfg db ix" if ix: "ix \<in> set (mdIndexes db)" "ixSchema ix = mgSchema cfg" "ixName ix \<in> gone" for ix
  proof -
    obtain jx where j: "jx \<in> set (mdIndexes db)" "left_broken M cfg db jx" "ixName ix = ixName jx" using g(1) ix(3) by blast
    then have "jx = ix" using inj_onD [OF assms(2)] ix by (auto simp: left_broken_def)
    then show ?thesis using j by simp
  qed
  have sub: "set (mdIndexes db') \<subseteq> set (mdIndexes db)" by (auto simp: i rest_def)
  have gn: "left_broken M cfg db ix" if "ix \<in> set (mdIndexes db) - set (mdIndexes db')" for ix
    using that unfolding i rest_def by (intro lb) auto
  have "\<not> left_broken M cfg db ix" if r: "r = None" and ix: "ix \<in> set (mdIndexes db')" for ix
  proof
    assume l: "left_broken M cfg db ix"
    have "ix \<in> set (mdIndexes db)" using sub ix by blast
    then have "ixName ix \<in> gone" using g(3) r l by blast
    then show False using ix l unfolding i rest_def by (simp add: left_broken_def)
  qed
  with sub gn have "set (mdIndexes db') \<subseteq> set (mdIndexes db) \<and>
    (\<forall>ix\<in>set (mdIndexes db) - set (mdIndexes db'). left_broken M cfg db ix) \<and>
    (r = None \<longrightarrow> (\<forall>ix\<in>set (mdIndexes db'). \<not> left_broken M cfg db ix))" by blast
  then show ?thesis using eq by blast
qed

definition sample_mig :: mg_env where
  "sample_mig = \<lparr>
     mgCode = (\<lambda>err. if err = ErrorString ''relation does not exist'' then Some ''42P01'' else None),
     mgFmt = sample_fmt,
     mgFiles = Inr [
       \<lparr>mfName = ''001_initial.sql'', mfIsDir = False, mfBody = ''CREATE TABLE {{schema}}.goque_job ()''\<rparr>,
       \<lparr>mfName = ''002_indexes.sql'', mfIsDir = False,
        mfBody = ''CREATE INDEX CONCURRENTLY IF NOT EXISTS goque_job_fetch ON {{schema}}.goque_job (id)''\<rparr>]\<rparr>"

definition sample_config :: mg_config where
  "sample_config = \<lparr>mgSchema = ''public'', mgAllowTimeout = False\<rparr>"

definition sample_mdb :: "(int \<times> bool) list option \<Rightarrow> mdb" where
  "sample_mdb versions = \<lparr>
     mdTimeout = ''0'', mdVersions = versions,
     mdIndexes = map (\<lambda>(n, v). \<lparr>ixSchema = ''public'', ixTable = job_table sample_config, ixName = n, ixValid = v, ixConstraint = False\<rparr>)
       [(''goque_job_fetch'', False), (''goque_job_move'', True)],
     mdLocks = (\<lambda>_. Some (''other'', 1))\<rparr>"

definition sample_goose :: goose_new where
  "sample_goose g = Inr (\<lambda>db. case gLock g db of
       (Some err, db) \<Rightarrow> (Some err, db)
     | (None, db) \<Rightarrow> gUnlock g (db\<lparr>mdVersions := Some [(1, True), (2, True)]\<rparr>))"

lemma sample_newConfig: "mg_newConfig [] = Inr sample_config"
  by code_simp


lemma sweep_only_broken_witness:
  "set (mdIndexes (snd (sweepInvalidIndexes sample_mig (link (ErrorString ''relation does not exist'') ''s'' (\<lambda>_ _. None)) sample_config
      (sample_mdb (Some [(1, True)]))))) \<subseteq> set (mdIndexes (sample_mdb (Some [(1, True)])))"
  using sweep_only_broken [of "\<lambda>_ _. None" sample_mig "sample_mdb (Some [(1, True)])" "ErrorString ''relation does not exist''" "''s''"
      sample_config, OF _ _ surjective_pairing]
  by (simp add: sample_mdb_def)

definition newest :: "mdb \<Rightarrow> int option" where
  "newest db = (case mdVersions db of Some (v # vs) \<Rightarrow> Some (Max (set (map fst (v # vs)))) | _ \<Rightarrow> None)"

lemma foldl_max_Max: "foldl max (x :: int) xs = Max (set (x # xs))"
proof (induction xs arbitrary: x)
  case (Cons y ys)
  have "foldl max x (y # ys) = Max (set (max x y # ys))" unfolding foldl_Cons by (rule Cons.IH)
  also have "\<dots> = Max (set (x # y # ys))" by (cases ys) (simp_all add: max.assoc)
  finally show ?case .
qed simp

lemma server_newest:
  "isUndefinedTable M missing \<Longrightarrow> dbMaxAppliedVersion M (pg_server missing sess) cfg db = (Inr (newest db), db)"
  by (auto simp: dbMaxAppliedVersion_def newest_def foldl_max_Max split: option.splits list.splits)

text \<open>C39: What Up does, in every case: a connection with a statement timeout is refused unless it is allowed, a database
  newer than the binary is refused, an up-to-date one is left alone without a lock, and otherwise goose runs and its
  error is passed on. The refusals can be told apart by \<^verbatim>\<open>errors.Is\<close> and leave the database as it was.\<close>

theorem Up_outcome:
  assumes cfg: "mg_newConfig opts = Inr cfg" and top: "highestVersionIn (mgFiles M) = Inr highest"
      and missing: "isUndefinedTable M missing"
      and bounded: "bounded \<longleftrightarrow> \<not> mgAllowTimeout cfg \<and> mdTimeout db \<noteq> [] \<and> mdTimeout db \<noteq> ''0''"
      and up: "mg_Up M (pg_server missing sess) pause NewProvider True opts db = up"
  shows "(bounded \<longrightarrow> (\<exists>err. up = (Some err, db) \<and> ErrStatementTimeout \<in> set (unwrap_chain err))) \<and>
    (\<not> bounded \<longrightarrow>
      (case newest db of
         Some v \<Rightarrow> (highest < v \<longrightarrow> (\<exists>err. up = (Some err, db) \<and> ErrVersionSkew \<in> set (unwrap_chain err))) \<and>
           (v = highest \<longrightarrow> up = (None, db))
       | None \<Rightarrow> True) \<and>
      (newest db = None \<or> the (newest db) < highest \<longrightarrow>
        (case newProvider M (pg_server missing sess) pause NewProvider cfg of
           Inl err \<Rightarrow> up = (Some err, db)
         | Inr go \<Rightarrow> snd up = snd (go db) \<and>
             (case fst (go db) of None \<Rightarrow> fst up = None | Some err \<Rightarrow> \<exists>msg. fst up = Some (Wrapped msg err)))))"
proof (cases bounded)
  case True
  then show ?thesis using up bounded by (auto simp: mg_Up_def cfg checkStatementTimeout_def ErrStatementTimeout_def)
next
  case False
  have t: "checkStatementTimeout (pg_server missing sess) cfg db = (None, db)"
    using False bounded by (auto simp: checkStatementTimeout_def)
  note n = server_newest [OF missing]
  define outcome where "outcome = (case newProvider M (pg_server missing sess) pause NewProvider cfg of
      Inl err \<Rightarrow> (Some err, db)
    | Inr go \<Rightarrow> (case go db of
          (Some err, db) \<Rightarrow> (Some (Wrapped (''goque/goosemigrate: applying migrations: '' @ Error (mgFmt M) err) err), db)
        | (None, db) \<Rightarrow> (None, db)))"
  have run: "up = (case newest db of
      None \<Rightarrow> outcome
    | Some v \<Rightarrow> if highest < v
        then (Some (Wrapped ''goque/goosemigrate: database schema is newer than this binary'' ErrVersionSkew), db)
        else if v = highest then (None, db) else outcome)"
    unfolding up [symmetric] mg_Up_def cfg sum.case t prod.case option.case not_True_eq_False if_False checkVersionSkew_def top n outcome_def
    by (cases "newest db") (simp_all add: n migrationsFullyApplied_def top)
  have oc: "case newProvider M (pg_server missing sess) pause NewProvider cfg of
      Inl err \<Rightarrow> outcome = (Some err, db)
    | Inr go \<Rightarrow> snd outcome = snd (go db) \<and>
        (case fst (go db) of None \<Rightarrow> fst outcome = None | Some err \<Rightarrow> \<exists>msg. fst outcome = Some (Wrapped msg err))"
    unfolding outcome_def by (auto split: sum.split prod.split option.split)
  show ?thesis
  proof (cases "newest db")
    case None
    then have e: "up = outcome" using run by simp
    show ?thesis using oc [folded e] False None by simp
  next
    case (Some v)
    consider "highest < v" | "v = highest" | "v < highest" by linarith
    then show ?thesis
    proof cases
      case 3
      then have e: "up = outcome" using run Some by simp
      show ?thesis using oc [folded e] False Some 3 by simp
    qed (use run False Some in \<open>auto simp: ErrVersionSkew_def\<close>)
  qed
qed

lemma Up_outcome_witness:
  "mg_Up sample_mig (pg_server (ErrorString ''relation does not exist'') ''s'') (\<lambda>db. (None, db)) sample_goose True [] (sample_mdb (Some [(2, True)])) =
    (None, sample_mdb (Some [(2, True)]))"
proof -
  have "highestVersionIn (mgFiles sample_mig) = Inr 2" by code_simp
  from Up_outcome [OF sample_newConfig this _ refl refl, of "ErrorString ''relation does not exist''" "sample_mdb (Some [(2, True)])" "''s''"
      "\<lambda>db. (None, db)" sample_goose]
  show ?thesis by (simp add: newest_def sample_mdb_def isUndefinedTable_def sample_mig_def)
qed

lemma try_free:
  "pg_server missing sess (TryLock i) db = (r, db') \<Longrightarrow> r = Inr (MBool (free sess i db)) \<and> (free sess i db \<or> db' = db)"
  by (auto simp: free_def split: option.splits prod.splits if_splits)

lemma lock_loop_free:
  assumes p: "\<And>db. fst (pause db) = None"
  shows "fst (lock_loop n M (pg_server missing sess) pause i db) = None \<longleftrightarrow> (\<exists>k\<le>n. free sess i (((snd \<circ> pause) ^^ k) db))"
proof (induction n arbitrary: db)
  case 0
  obtain r db' where t: "pg_server missing sess (TryLock i) db = (r, db')" by force
  show ?case using try_free [OF t] unfolding lock_loop.simps [of 0] t by simp
next
  case (Suc n)
  obtain r db' where t: "pg_server missing sess (TryLock i) db = (r, db')" by force
  note f = try_free [OF t]
  show ?case
  proof (cases "free sess i db")
    case True
    then show ?thesis using f unfolding lock_loop.simps [of "Suc n"] t by (auto intro: exI [of _ 0])
  next
    case False
    obtain db2 where d: "pause db = (None, db2)" using p [of db] by (cases "pause db") auto
    have "fst (lock_loop (Suc n) M (pg_server missing sess) pause i db) = None \<longleftrightarrow>
        fst (lock_loop n M (pg_server missing sess) pause i db2) = None"
      using f False unfolding lock_loop.simps [of "Suc n"] t by (simp add: d)
    also have "\<dots> \<longleftrightarrow> (\<exists>k\<le>n. free sess i (((snd \<circ> pause) ^^ Suc k) db))"
      unfolding Suc.IH funpow_Suc_right by (simp only: o_apply d snd_conv)
    also have "\<dots> \<longleftrightarrow> (\<exists>k\<le>Suc n. free sess i (((snd \<circ> pause) ^^ k) db))"
    proof
      assume "\<exists>k\<le>Suc n. free sess i (((snd \<circ> pause) ^^ k) db)"
      then obtain k where k: "k \<le> Suc n" "free sess i (((snd \<circ> pause) ^^ k) db)" by blast
      with False obtain j where "k = Suc j" by (cases k) auto
      with k show "\<exists>k\<le>n. free sess i (((snd \<circ> pause) ^^ Suc k) db)" by auto
    qed (metis Suc_le_mono)
    finally show ?thesis .
  qed
qed

text \<open>C40: The lock is waited for with patience: it is acquired if and only if, of the first attempt and the sixty after the
  pauses, one finds it free of other sessions. Sixty pauses are all there are.\<close>

theorem lock_patience:
  assumes "\<And>db. fst (pause db) = None"
  shows "fst (acquireRecoveryLock M (pg_server missing sess) pause i db) = None \<longleftrightarrow>
    (\<exists>k\<le>60. free sess i (((snd \<circ> pause) ^^ k) db))"
  unfolding acquireRecoveryLock_def lockRetryMaxAttempts_def using assms by (rule lock_loop_free)

lemma lock_patience_witness:
  "fst (acquireRecoveryLock sample_mig (pg_server (ErrorString ''relation does not exist'') ''s'') (\<lambda>db. (None, db\<lparr>mdLocks := \<lambda>_. None\<rparr>))
    7 (sample_mdb None)) = None"
  by (subst lock_patience) (auto simp: free_def intro!: exI [of _ 1])

end
