(* ===== verification/Pgx.thy ===== *)
theory Pgx
  imports Migrate_Spec
begin

text \<open>
  \<^verbatim>\<open>backend/postgres/pgxv5\<close>: the adapter of a pgx pool to the seam of the backend. pgx itself is a parameter, with the
  state of the server and of the pool as \<open>'w\<close>; its transactions and pinned connections are handles.
\<close>

subsection \<open>The library\<close>

datatype target = Pool | OnTx nat | OnConn nat

record ('q, 'r, 'w) pgx =
  pxQuery :: "target \<Rightarrow> 'q \<Rightarrow> 'w \<Rightarrow> (go_error + 'r) \<times> 'w"
  pxExec :: "target \<Rightarrow> 'q \<Rightarrow> 'w \<Rightarrow> (i64 \<times> go_error option) \<times> 'w"
  pxBegin :: "target \<Rightarrow> 'w \<Rightarrow> (go_error + nat) \<times> 'w"
  pxAcquire :: "'w \<Rightarrow> (go_error + nat) \<times> 'w"
  pxCommit :: "nat \<Rightarrow> 'w \<Rightarrow> go_error option \<times> 'w"
  pxRollback :: "nat \<Rightarrow> 'w \<Rightarrow> go_error option \<times> 'w"
  pxRelease :: "nat \<Rightarrow> 'w \<Rightarrow> 'w"
  pxTxClosed :: go_error
  pxCode :: "go_error \<Rightarrow> string option"

subsection \<open>The driver\<close>

text \<open>The pool is always there; \<open>None\<close> is the nil of the other two.\<close>

record pgx_driver =
  dTx :: "nat option"
  dConn :: "nat option"

definition pgx_New :: pgx_driver where
  "pgx_New = \<lparr>dTx = None, dConn = None\<rparr>"

definition target_of :: "pgx_driver \<Rightarrow> target" where
  "target_of d = (case dTx d of Some t \<Rightarrow> OnTx t | None \<Rightarrow> (case dConn d of Some c \<Rightarrow> OnConn c | None \<Rightarrow> Pool))"

definition pgx_Query :: "('q, 'r, 'w) pgx \<Rightarrow> pgx_driver \<Rightarrow> 'q \<Rightarrow> 'w \<Rightarrow> (go_error + 'r) \<times> 'w" where
  "pgx_Query L d q w = pxQuery L (target_of d) q w"

definition pgx_Exec :: "('q, 'r, 'w) pgx \<Rightarrow> pgx_driver \<Rightarrow> 'q \<Rightarrow> 'w \<Rightarrow> (i64 \<times> go_error option) \<times> 'w" where
  "pgx_Exec L d q w = pxExec L (target_of d) q w"

record pgx_tx = pgx_driver +
  txHandle :: nat
  txFinished :: bool

definition pgx_Begin :: "('q, 'r, 'w) pgx \<Rightarrow> pgx_driver \<Rightarrow> 'w \<Rightarrow> (go_error + pgx_tx) \<times> 'w" where
  "pgx_Begin L d w =
     (if dTx d \<noteq> None then (Inl (ErrorString ''goque/pgxv5: Begin on a transaction-scoped driver''), w)
      else case pxBegin L (target_of d) w of
        (Inl err, w) \<Rightarrow> (Inl err, w)
      | (Inr t, w) \<Rightarrow> (Inr \<lparr>dTx = Some t, dConn = None, txHandle = t, txFinished = False\<rparr>, w))"

record pgx_conn = pgx_driver +
  cnHandle :: nat

definition pgx_Conn :: "('q, 'r, 'w) pgx \<Rightarrow> pgx_driver \<Rightarrow> 'w \<Rightarrow> (go_error + pgx_conn) \<times> 'w" where
  "pgx_Conn L d w =
     (if dTx d \<noteq> None \<or> dConn d \<noteq> None then (Inl (ErrorString ''goque/pgxv5: Conn on a scoped driver''), w)
      else case pxAcquire L w of
        (Inl err, w) \<Rightarrow> (Inl err, w)
      | (Inr c, w) \<Rightarrow> (Inr \<lparr>dTx = None, dConn = Some c, cnHandle = c\<rparr>, w))"

text \<open>The caller's transaction may be of another library; then only the name of its type matters.\<close>

datatype any_tx = PgxTx nat | OtherTx string

definition pgx_InTx :: "pgx_driver \<Rightarrow> any_tx \<Rightarrow> go_error + pgx_driver" where
  "pgx_InTx d v =
     (case v of
        OtherTx ty \<Rightarrow> Inl (Wrapped (sentinel_text ErrInvalidTx @ '': pgxv5 needs a pgx.Tx, got '' @ ty) (Sentinel ErrInvalidTx))
      | PgxTx t \<Rightarrow> Inr \<lparr>dTx = Some t, dConn = None\<rparr>)"

definition SQLState :: "('q, 'r, 'w) pgx \<Rightarrow> go_error \<Rightarrow> string" where
  "SQLState L err = (case pxCode L err of Some code \<Rightarrow> code | None \<Rightarrow> [])"

subsection \<open>Transactions and pinned connections\<close>

definition Commit :: "('q, 'r, 'w) pgx \<Rightarrow> pgx_tx \<Rightarrow> 'w \<Rightarrow> go_error option \<times> pgx_tx \<times> 'w" where
  "Commit L t w =
     (if txFinished t then (None, t, w)
      else let (err, w) = pxCommit L (txHandle t) w in (err, t\<lparr>txFinished := True\<rparr>, w))"

definition Rollback :: "('q, 'r, 'w) pgx \<Rightarrow> pgx_tx \<Rightarrow> 'w \<Rightarrow> go_error option \<times> pgx_tx \<times> 'w" where
  "Rollback L t w =
     (if txFinished t then (None, t, w)
      else let (err, w) = pxRollback L (txHandle t) w in
        ((case err of Some e \<Rightarrow> if pxTxClosed L \<in> set (unwrap_chain e) then None else Some e | None \<Rightarrow> None),
         t\<lparr>txFinished := True\<rparr>, w))"

definition Close :: "('q, 'r, 'w) pgx \<Rightarrow> pgx_conn \<Rightarrow> 'w \<Rightarrow> go_error option \<times> 'w" where
  "Close L c w = (None, pxRelease L (cnHandle c) w)"

subsection \<open>What a transaction promises\<close>

datatype tx_end = ToCommit | ToRollback

definition end_tx :: "('q, 'r, 'w) pgx \<Rightarrow> tx_end \<Rightarrow> pgx_tx \<Rightarrow> 'w \<Rightarrow> go_error option \<times> pgx_tx \<times> 'w" where
  "end_tx L e t w = (case e of ToCommit \<Rightarrow> Commit L t w | ToRollback \<Rightarrow> Rollback L t w)"

fun end_calls :: "('q, 'r, 'w) pgx \<Rightarrow> tx_end list \<Rightarrow> pgx_tx \<Rightarrow> 'w \<Rightarrow> go_error option list \<times> 'w" where
  "end_calls L [] t w = ([], w)"
| "end_calls L (e # es) t w =
     (let (r, t, w) = end_tx L e t w; (rs, w) = end_calls L es t w in (r # rs, w))"

lemma end_calls_finished: "txFinished t \<Longrightarrow> end_calls L es t w = (replicate (length es) None, w)"
  by (induction es) (auto simp: end_tx_def Commit_def Rollback_def split: tx_end.split)

text \<open>C21: A transaction that was begun ends once. Whatever sequence of Commit and Rollback follows, pgx sees the first call
  only, its error is the one reported (a rollback of a closed transaction is none) and every later call answers nil,
  so that a deferred Rollback after Commit is harmless. Until then every statement given to the transaction runs in it,
  and it begins no other.\<close>

theorem tx_ends_once:
  assumes "pgx_Begin L d w0 = (Inr t, w)"
  shows "end_calls L (e # es) t w =
      (case e of
         ToCommit \<Rightarrow> let (r, w') = pxCommit L (txHandle t) w in (r # replicate (length es) None, w')
       | ToRollback \<Rightarrow> let (r, w') = pxRollback L (txHandle t) w in
           ((case r of Some err \<Rightarrow> if pxTxClosed L \<in> set (unwrap_chain err) then None else r | None \<Rightarrow> None) # replicate (length es) None, w'))
    \<and> pgx_Query L (pgx_driver.truncate t) = pxQuery L (OnTx (txHandle t))
    \<and> pgx_Exec L (pgx_driver.truncate t) = pxExec L (OnTx (txHandle t))
    \<and> isl (fst (pgx_Begin L (pgx_driver.truncate t) w))"
proof -
  have t: "\<not> txFinished t" "dTx t = Some (txHandle t)"
    using assms by (auto simp: pgx_Begin_def split: if_splits prod.splits sum.splits)
  have dr: "pgx_driver.truncate t = \<lparr>dTx = Some (txHandle t), dConn = dConn t\<rparr>" by (simp add: pgx_driver.truncate_def t)
  have "end_calls L (e # es) t w =
      (case e of
         ToCommit \<Rightarrow> let (r, w') = pxCommit L (txHandle t) w in (r # replicate (length es) None, w')
       | ToRollback \<Rightarrow> let (r, w') = pxRollback L (txHandle t) w in
           ((case r of Some err \<Rightarrow> if pxTxClosed L \<in> set (unwrap_chain err) then None else r | None \<Rightarrow> None) # replicate (length es) None, w'))"
    using t by (cases e)
      (auto simp: end_tx_def Commit_def Rollback_def Let_def end_calls_finished split: prod.split option.split)
  moreover have "pgx_Query L (pgx_driver.truncate t) = pxQuery L (OnTx (txHandle t))"
    "pgx_Exec L (pgx_driver.truncate t) = pxExec L (OnTx (txHandle t))" "isl (fst (pgx_Begin L (pgx_driver.truncate t) w))"
    by (simp_all add: fun_eq_iff pgx_Query_def pgx_Exec_def pgx_Begin_def target_of_def dr)
  ultimately show ?thesis by blast
qed

text \<open>A pgx that keeps a log of the ends of its transactions, and refuses to end one twice.\<close>

definition logging_pgx :: "(unit, unit, (nat \<times> tx_end) list) pgx" where
  "logging_pgx = \<lparr>
     pxQuery = (\<lambda>_ _ w. (Inr (), w)), pxExec = (\<lambda>_ _ w. ((0, None), w)),
     pxBegin = (\<lambda>_ w. (Inr (length w), w)), pxAcquire = (\<lambda>w. (Inr 0, w)),
     pxCommit = (\<lambda>t w. if t \<in> fst ` set w then (Some (ErrorString ''tx is closed''), w) else (None, (t, ToCommit) # w)),
     pxRollback = (\<lambda>t w. if t \<in> fst ` set w then (Some (ErrorString ''tx is closed''), w) else (None, (t, ToRollback) # w)),
     pxRelease = (\<lambda>_ w. w), pxTxClosed = ErrorString ''tx is closed'', pxCode = (\<lambda>_. None)\<rparr>"

lemma tx_ends_once_witness:
  "\<exists>t. pgx_Begin logging_pgx pgx_New [] = (Inr t, []) \<and>
     end_calls logging_pgx [ToCommit, ToRollback, ToRollback] t [] = ([None, None, None], [(0, ToCommit)])"
proof (intro exI conjI)
  show b: "pgx_Begin logging_pgx pgx_New [] = (Inr \<lparr>dTx = Some 0, dConn = None, txHandle = 0, txFinished = False\<rparr>, [])"
    by (simp add: pgx_Begin_def pgx_New_def target_of_def logging_pgx_def)
  show "end_calls logging_pgx [ToCommit, ToRollback, ToRollback] \<lparr>dTx = Some 0, dConn = None, txHandle = 0, txFinished = False\<rparr> []
      = ([None, None, None], [(0, ToCommit)])"
    using tx_ends_once [OF b, of ToCommit "[ToRollback, ToRollback]"] by (simp add: logging_pgx_def)
qed

end
