(* ===== verification/Copies.thy ===== *)
theory Copies
  imports Memory
begin

text \<open>
  Why the store of \<^verbatim>\<open>backend/memory/memory.go\<close> may be read as a map of values. Its rows are pointers and their
  slices share arrays with whoever holds a copy of the slice; the backend copies rows on the way in and on the way out
  (\<^verbatim>\<open>copyRow\<close>) and documents on the way in (\<^verbatim>\<open>mergeMeta\<close>). Here the arrays are explicit: a heap, slices with offset,
  length and capacity, \<^verbatim>\<open>append\<close> in place while there is room, and callers that write to every array they ever saw.
\<close>

subsection \<open>Slices\<close>

type_synonym addr = nat

datatype elem = EByte "8 word" | EStr string | EAttempt attempt_error

record heap =
  arrays :: "addr \<Rightarrow> elem list"
  fresh :: addr

text \<open>A slice: its array, the offset, the length and the capacity.\<close>

datatype slice = NilSlice | Slice addr nat nat nat

fun contents :: "heap \<Rightarrow> slice \<Rightarrow> elem list option" where
  "contents h NilSlice = None"
| "contents h (Slice a p n c) = Some (take n (drop p (arrays h a)))"

fun slice_ok :: "heap \<Rightarrow> slice \<Rightarrow> bool" where
  "slice_ok h NilSlice \<longleftrightarrow> True"
| "slice_ok h (Slice a p n c) \<longleftrightarrow> n \<le> c \<and> (0 < c \<longrightarrow> a < fresh h \<and> p + c \<le> length (arrays h a))"

text \<open>The array that can be read or written through a slice.\<close>

fun grip :: "slice \<Rightarrow> addr set" where
  "grip NilSlice = {}"
| "grip (Slice a p n c) = (if c = 0 then {} else {a})"

text \<open>A new array has what Go's allocator adds beyond its length: \<open>slack\<close>, of which nothing is known.\<close>

definition new_array :: "(nat \<Rightarrow> elem list) \<Rightarrow> elem list \<Rightarrow> heap \<Rightarrow> heap \<times> slice" where
  "new_array slack xs h =
     (let ys = xs @ slack (length xs)
      in (h\<lparr>arrays := (arrays h)(fresh h := ys), fresh := fresh h + 1\<rparr>, Slice (fresh h) 0 (length xs) (length ys)))"

text \<open>\<^verbatim>\<open>slices.Clone\<close>: \<^verbatim>\<open>append(s[:0:0], s...)\<close>, which keeps nil and allocates nothing for an empty slice.\<close>

fun Clone :: "(nat \<Rightarrow> elem list) \<Rightarrow> heap \<Rightarrow> slice \<Rightarrow> heap \<times> slice" where
  "Clone slack h NilSlice = (h, NilSlice)"
| "Clone slack h (Slice a p n c) =
     (if n = 0 then (h, Slice a p 0 0) else new_array slack (take n (drop p (arrays h a))) h)"

text \<open>\<^verbatim>\<open>append(s, x)\<close>.\<close>

fun append_elem :: "(nat \<Rightarrow> elem list) \<Rightarrow> elem \<Rightarrow> heap \<Rightarrow> slice \<Rightarrow> heap \<times> slice" where
  "append_elem slack x h NilSlice = new_array slack [x] h"
| "append_elem slack x h (Slice a p n c) =
     (if n < c then (h\<lparr>arrays := (arrays h)(a := (arrays h a)[p + n := x])\<rparr>, Slice a p (n + 1) c)
      else new_array slack (take n (drop p (arrays h a)) @ [x]) h)"

subsection \<open>Rows\<close>

text \<open>The slices of a row, and the row without them.\<close>

datatype field = FAttemptedBy | FErrors | FPayload | FMetadata | FOutput | FRetryPolicy

definition row_fields :: "field list" where
  "row_fields = [FAttemptedBy, FErrors, FPayload, FMetadata, FOutput, FRetryPolicy]"

record ref_row =
  shape :: job_row
  part :: "field \<Rightarrow> slice"

primrec copy_parts :: "(nat \<Rightarrow> elem list) \<Rightarrow> ref_row \<Rightarrow> field list \<Rightarrow> heap \<Rightarrow> ref_row \<Rightarrow> heap \<times> ref_row" where
  "copy_parts slack r [] h c = (h, c)"
| "copy_parts slack r (f # fs) h c =
     (let (h', s) = Clone slack h (part r f) in copy_parts slack r fs h' (c\<lparr>part := (part c)(f := s)\<rparr>))"

definition copyRow :: "(nat \<Rightarrow> elem list) \<Rightarrow> heap \<Rightarrow> ref_row \<Rightarrow> heap \<times> ref_row" where
  "copyRow slack h r = copy_parts slack r row_fields h r"

definition append_part :: "(nat \<Rightarrow> elem list) \<Rightarrow> field \<Rightarrow> elem \<Rightarrow> heap \<Rightarrow> ref_row \<Rightarrow> heap \<times> ref_row" where
  "append_part slack f x h r = (let (h', s) = append_elem slack x h (part r f) in (h', r\<lparr>part := (part r)(f := s)\<rparr>))"

definition ref_mergeMeta :: "(nat \<Rightarrow> elem list) \<Rightarrow> slice \<Rightarrow> heap \<Rightarrow> ref_row \<Rightarrow> heap \<times> ref_row" where
  "ref_mergeMeta slack m h r =
     (if contents h m \<noteq> None \<and> contents h m \<noteq> Some []
      then let (h', s) = Clone slack h m in (h', r\<lparr>part := (part r)(FMetadata := s)\<rparr>)
      else (h, r))"

subsection \<open>The backend and its callers\<close>

text \<open>\<open>theirs\<close> are the arrays that callers can reach: those they made and those of the rows \<open>handed\<close> to them.\<close>

record shared =
  memory :: heap
  kept :: "int \<rightharpoonup> ref_row"
  theirs :: "addr set"
  handed :: "(int \<times> ref_row) list"

datatype move =
    MakeArray "elem list"
  | WriteElem addr nat elem
  | KeepRow int ref_row
  | ClaimRow int string "job_row \<Rightarrow> job_row"
  | RecordError int attempt_error "job_row \<Rightarrow> job_row"
  | MergeMeta int slice
  | HandOut int
  | ChangeRow int "job_row \<Rightarrow> job_row"
  | DropRow int

definition shown_to_caller :: "shared \<Rightarrow> slice \<Rightarrow> bool" where
  "shown_to_caller s sl \<longleftrightarrow> slice_ok (memory s) sl \<and> grip sl \<subseteq> theirs s"

definition grips :: "ref_row \<Rightarrow> addr set" where
  "grips r = \<Union> (set (map (\<lambda>f. grip (part r f)) row_fields))"

text \<open>The first two moves are the callers'. A move that cannot be made is \<open>None\<close>.\<close>

fun move_on :: "(nat \<Rightarrow> elem list) \<Rightarrow> move \<Rightarrow> shared \<Rightarrow> shared option" where
  "move_on slack (MakeArray xs) s =
     (let (h, sl) = new_array slack xs (memory s) in Some (s\<lparr>memory := h, theirs := insert (fresh (memory s)) (theirs s)\<rparr>))"
| "move_on slack (WriteElem a n x) s =
     (if a \<in> theirs s
      then Some (s\<lparr>memory := (memory s)\<lparr>arrays := (arrays (memory s))(a := (arrays (memory s) a)[n := x])\<rparr>\<rparr>)
      else None)"
| "move_on slack (KeepRow i r) s =
     (if list_all (\<lambda>f. shown_to_caller s (part r f)) row_fields \<and> kept s i = None
      then let (h, c) = copyRow slack (memory s) r in Some (s\<lparr>memory := h, kept := (kept s)(i \<mapsto> c)\<rparr>)
      else None)"
| "move_on slack (ClaimRow i client f) s =
     (case kept s i of
        None \<Rightarrow> None
      | Some r \<Rightarrow>
          (let (h1, r1) = append_part slack FAttemptedBy (EStr client) (memory s) (r\<lparr>shape := f (shape r)\<rparr>);
               (h2, c) = copyRow slack h1 r1
           in Some (s\<lparr>memory := h2, kept := (kept s)(i \<mapsto> r1), theirs := theirs s \<union> grips c, handed := (i, c) # handed s\<rparr>)))"
| "move_on slack (RecordError i e f) s =
     (case kept s i of
        None \<Rightarrow> None
      | Some r \<Rightarrow>
          (let (h1, r1) = append_part slack FErrors (EAttempt e) (memory s) (r\<lparr>shape := f (shape r)\<rparr>)
           in Some (s\<lparr>memory := h1, kept := (kept s)(i \<mapsto> r1)\<rparr>)))"
| "move_on slack (MergeMeta i m) s =
     (case kept s i of
        None \<Rightarrow> None
      | Some r \<Rightarrow>
          (if \<not> shown_to_caller s m then None
           else let (h, r1) = ref_mergeMeta slack m (memory s) r in Some (s\<lparr>memory := h, kept := (kept s)(i \<mapsto> r1)\<rparr>)))"
| "move_on slack (HandOut i) s =
     (case kept s i of
        None \<Rightarrow> None
      | Some r \<Rightarrow> (let (h, c) = copyRow slack (memory s) r in Some (s\<lparr>memory := h, theirs := theirs s \<union> grips c, handed := (i, c) # handed s\<rparr>)))"
| "move_on slack (ChangeRow i f) s =
     (case kept s i of None \<Rightarrow> None | Some r \<Rightarrow> Some (s\<lparr>kept := (kept s)(i \<mapsto> r\<lparr>shape := f (shape r)\<rparr>)\<rparr>))"
| "move_on slack (DropRow i) s = Some (s\<lparr>kept := (kept s)(i := None)\<rparr>)"

definition no_rows :: shared where
  "no_rows = \<lparr>memory = \<lparr>arrays = \<lambda>_. [], fresh = 0\<rparr>, kept = Map.empty, theirs = {}, handed = []\<rparr>"

inductive shared_reach :: "(nat \<Rightarrow> elem list) \<Rightarrow> shared \<Rightarrow> bool" for slack where
  Start: "shared_reach slack no_rows"
| Move: "shared_reach slack s \<Longrightarrow> move_on slack m s = Some s' \<Longrightarrow> shared_reach slack s'"

subsection \<open>The values\<close>

text \<open>What a row is to a reader: its shape and the contents of its slices.\<close>

type_synonym row_value = "job_row \<times> (field \<Rightarrow> elem list option)"

definition value_of :: "heap \<Rightarrow> ref_row \<Rightarrow> row_value" where
  "value_of h r = (shape r, \<lambda>f. contents h (part r f))"

definition values_of :: "shared \<Rightarrow> int \<rightharpoonup> row_value" where
  "values_of s = (\<lambda>i. map_option (value_of (memory s)) (kept s i))"

definition with_elem :: "elem \<Rightarrow> elem list option \<Rightarrow> elem list option" where
  "with_elem x xs = Some ((case xs of None \<Rightarrow> [] | Some ys \<Rightarrow> ys) @ [x])"

text \<open>The same moves on values, as the rest of the development has them. A caller's move is none.\<close>

fun value_move :: "move \<Rightarrow> shared \<Rightarrow> (int \<rightharpoonup> row_value) \<Rightarrow> int \<rightharpoonup> row_value" where
  "value_move (KeepRow i r) s v = v(i \<mapsto> value_of (memory s) r)"
| "value_move (ClaimRow i client g) s v =
     v(i := map_option (\<lambda>(j, p). (g j, p(FAttemptedBy := with_elem (EStr client) (p FAttemptedBy)))) (v i))"
| "value_move (RecordError i e g) s v =
     v(i := map_option (\<lambda>(j, p). (g j, p(FErrors := with_elem (EAttempt e) (p FErrors)))) (v i))"
| "value_move (MergeMeta i m) s v =
     (case contents (memory s) m of
        Some (x # xs) \<Rightarrow> v(i := map_option (\<lambda>(j, p). (j, p(FMetadata := Some (x # xs)))) (v i))
      | _ \<Rightarrow> v)"
| "value_move (ChangeRow i g) s v = v(i := map_option (\<lambda>(j, p). (g j, p)) (v i))"
| "value_move (DropRow i) s v = v(i := None)"
| "value_move _ s v = v"

end
