(* ===== verification/Copies_Spec.thy ===== *)
theory Copies_Spec
  imports Copies
begin

text \<open>
  No array is shared between two slices of the store, or between the store and a caller. So what callers do to the rows
  they hold does not reach the store, what the backend does does not reach them, and the store behaves as a map of values.
\<close>

subsection \<open>Slices\<close>

lemma all_fields: "set row_fields = UNIV" "distinct row_fields"
proof -
  have "f \<in> set row_fields" for f by (cases f) (simp_all add: row_fields_def)
  then show "set row_fields = UNIV" "distinct row_fields" by (auto simp: row_fields_def)
qed

text \<open>A heap grown from another: the old arrays are as they were.\<close>

definition grown :: "heap \<Rightarrow> heap \<Rightarrow> bool" where
  "grown h h' \<longleftrightarrow> fresh h \<le> fresh h' \<and> (\<forall>a < fresh h. arrays h' a = arrays h a)"

lemma grown_refl [simp]: "grown h h"
  by (simp add: grown_def)

lemma grown_trans [trans]: "grown h1 h2 \<Longrightarrow> grown h2 h3 \<Longrightarrow> grown h1 h3"
  by (auto simp: grown_def)

lemma grip_old: "slice_ok h s \<Longrightarrow> grip s \<subseteq> {..<fresh h}"
  by (cases s) auto

lemma slice_kept:
  assumes "slice_ok h s" "\<And>a. a \<in> grip s \<Longrightarrow> arrays h' a = arrays h a" "fresh h \<le> fresh h'"
  shows "slice_ok h' s \<and> contents h' s = contents h s"
proof (cases s)
  case (Slice a p n c)
  then show ?thesis using assms by (cases "c = 0") auto
qed simp

lemma slice_grown: "slice_ok h s \<Longrightarrow> grown h h' \<Longrightarrow> slice_ok h' s \<and> contents h' s = contents h s"
  using grip_old by (intro slice_kept) (auto simp: grown_def)

lemma new_array_spec:
  assumes "new_array slack xs h = (h', s)"
  shows "grown h h' \<and> slice_ok h' s \<and> grip s \<subseteq> {fresh h..<fresh h'} \<and> contents h' s = Some xs"
  using assms by (auto simp: new_array_def grown_def Let_def split: if_splits)

lemma Clone_spec:
  assumes "Clone slack h s = (h', s')" "slice_ok h s"
  shows "grown h h' \<and> slice_ok h' s' \<and> grip s' \<subseteq> {fresh h..<fresh h'} \<and> contents h' s' = contents h s"
proof (cases s)
  case (Slice a p n c)
  then show ?thesis using assms new_array_spec by (auto split: if_splits)
qed (use assms in auto)

text \<open>An append reaches the array it had or a new one.\<close>

lemma append_elem_spec:
  assumes "append_elem slack x h s = (h', s')" "slice_ok h s"
  shows "fresh h \<le> fresh h' \<and> (\<forall>a < fresh h. a \<notin> grip s \<longrightarrow> arrays h' a = arrays h a) \<and> slice_ok h' s' \<and>
    grip s' \<subseteq> grip s \<union> {fresh h..<fresh h'} \<and> contents h' s' = with_elem x (contents h s)"
proof (cases s)
  case (Slice a p n c)
  show ?thesis
  proof (cases "n < c")
    case True
    have "p + n < length (arrays h a)" using True assms(2) Slice by simp
    then have "take (Suc n) (drop p ((arrays h a)[p + n := x])) = take n (drop p (arrays h a)) @ [x]"
      by (simp add: take_Suc_conv_app_nth drop_update_swap)
    then show ?thesis using True assms Slice by (auto simp: with_elem_def)
  next
    case False
    then show ?thesis using assms Slice new_array_spec [of slack _ h h' s'] by (auto simp: with_elem_def grown_def)
  qed
qed (use assms new_array_spec [of slack _ h h' s'] in \<open>auto simp: with_elem_def grown_def\<close>)

subsection \<open>Rows\<close>

definition row_ok :: "heap \<Rightarrow> ref_row \<Rightarrow> bool" where
  "row_ok h r \<longleftrightarrow> (\<forall>f. slice_ok h (part r f))"

lemma copy_parts_spec:
  assumes "copy_parts slack r fs h c = (h', c')" "row_ok h r" "distinct fs"
  shows "grown h h' \<and> shape c' = shape c \<and> (\<forall>f. f \<notin> set fs \<longrightarrow> part c' f = part c f) \<and>
    (\<forall>f\<in>set fs. slice_ok h' (part c' f) \<and> grip (part c' f) \<subseteq> {fresh h..<fresh h'} \<and> contents h' (part c' f) = contents h (part r f)) \<and>
    (\<forall>f\<in>set fs. \<forall>g\<in>set fs. f \<noteq> g \<longrightarrow> grip (part c' f) \<inter> grip (part c' g) = {})"
  using assms
proof (induction fs arbitrary: h c)
  case (Cons f fs)
  obtain h1 s where s: "Clone slack h (part r f) = (h1, s)" by (cases "Clone slack h (part r f)")
  have ok: "slice_ok h (part r g)" for g using Cons.prems(2) by (simp add: row_ok_def)
  note c = Clone_spec [OF s ok]
  have "row_ok h1 r" using slice_grown [OF ok] c unfolding row_ok_def by blast
  have cp: "copy_parts slack r fs h1 (c\<lparr>part := (part c)(f := s)\<rparr>) = (h', c')" using Cons.prems(1) s by simp
  have "distinct fs" using Cons.prems(3) by simp
  note IH = Cons.IH [OF cp \<open>row_ok h1 r\<close> this]
  have rest: "grown h1 h'" "shape c' = shape c" "\<forall>g. g \<notin> set fs \<longrightarrow> part c' g = ((part c)(f := s)) g"
    using IH [THEN conjunct1] IH [THEN conjunct2, THEN conjunct1] IH [THEN conjunct2, THEN conjunct2, THEN conjunct1] by simp_all
  note copied = IH [THEN conjunct2, THEN conjunct2, THEN conjunct2, THEN conjunct1]
    and apart = IH [THEN conjunct2, THEN conjunct2, THEN conjunct2, THEN conjunct2]
  have f: "part c' f = s" using rest(3) Cons.prems(3) by simp
  have same: "contents h1 (part r g) = contents h (part r g)" for g using slice_grown [OF ok] c by blast
  have le: "fresh h \<le> fresh h1" "fresh h1 \<le> fresh h'" using c rest(1) by (simp_all add: grown_def)
  have here: "slice_ok h' s \<and> grip s \<subseteq> {fresh h..<fresh h'} \<and> contents h' s = contents h (part r f)"
    using slice_grown [OF _ rest(1), of s] c le by fastforce
  have there: "slice_ok h' (part c' g) \<and> grip (part c' g) \<subseteq> {fresh h..<fresh h'} \<and> contents h' (part c' g) = contents h (part r g)"
    if "g \<in> set fs" for g using copied that le same by fastforce
  have cross: "grip (part c' g) \<inter> grip s = {}" if "g \<in> set fs" for g using copied that c by fastforce
  show ?case
  proof (intro conjI)
    show "grown h h'" using c rest(1) grown_trans by blast
    show "shape c' = shape c" by (rule rest(2))
    show "\<forall>g. g \<notin> set (f # fs) \<longrightarrow> part c' g = part c g" using rest(3) by simp
    show "\<forall>g\<in>set (f # fs). slice_ok h' (part c' g) \<and> grip (part c' g) \<subseteq> {fresh h..<fresh h'} \<and> contents h' (part c' g) = contents h (part r g)"
      using here there f by simp
    show "\<forall>f'\<in>set (f # fs). \<forall>g\<in>set (f # fs). f' \<noteq> g \<longrightarrow> grip (part c' f') \<inter> grip (part c' g) = {}"
      using apart cross f by (auto simp: Int_commute)
  qed
qed simp

lemma copyRow_spec:
  assumes "copyRow slack h r = (h', c)" "row_ok h r"
  shows "grown h h'" "row_ok h' c" "value_of h' c = value_of h r" "grip (part c f) \<subseteq> {fresh h..<fresh h'}"
    "f \<noteq> g \<Longrightarrow> grip (part c f) \<inter> grip (part c g) = {}"
  using copy_parts_spec [OF assms(1) [unfolded copyRow_def] assms(2) all_fields(2)]
  by (auto simp: all_fields(1) row_ok_def value_of_def)

lemma grips_iff: "a \<in> grips r \<longleftrightarrow> (\<exists>f. a \<in> grip (part r f))"
  using all_fields(1) by (auto simp: grips_def)

subsection \<open>Nothing is shared\<close>

definition slot :: "shared \<Rightarrow> int \<times> field \<Rightarrow> slice" where
  "slot s p = (case kept s (fst p) of None \<Rightarrow> NilSlice | Some r \<Rightarrow> part r (snd p))"

definition apart :: "shared \<Rightarrow> bool" where
  "apart s \<longleftrightarrow> (\<forall>p. slice_ok (memory s) (slot s p) \<and> grip (slot s p) \<inter> theirs s = {}) \<and>
     (\<forall>p q. p \<noteq> q \<longrightarrow> grip (slot s p) \<inter> grip (slot s q) = {}) \<and> theirs s \<subseteq> {..<fresh (memory s)}"

lemma apartD:
  "apart s \<Longrightarrow> slice_ok (memory s) (slot s p)" "apart s \<Longrightarrow> grip (slot s p) \<inter> theirs s = {}"
  "apart s \<Longrightarrow> p \<noteq> q \<Longrightarrow> grip (slot s p) \<inter> grip (slot s q) = {}" "apart s \<Longrightarrow> theirs s \<subseteq> {..<fresh (memory s)}"
  unfolding apart_def by blast+

lemma slot_row: "kept s i = Some r \<Longrightarrow> slot s (i, f) = part r f"
  by (simp add: slot_def)

lemma apart_row: "apart s \<Longrightarrow> kept s i = Some r \<Longrightarrow> row_ok (memory s) r"
  using apartD(1) slot_row by (metis row_ok_def)

text \<open>A move that gives slots new arrays, no two the same, keeps all apart.\<close>

lemma apart_moves:
  assumes "apart s" "fresh (memory s) \<le> fresh (memory s')" "\<And>p. slice_ok (memory s') (slot s' p)"
    and G: "\<And>p. grip (slot s' p) \<subseteq> grip (slot s p) \<union> G p" "\<And>p. G p \<subseteq> {fresh (memory s)..<fresh (memory s')}"
      "\<And>p q. p \<noteq> q \<Longrightarrow> G p \<inter> G q = {}"
    and T: "theirs s' \<subseteq> theirs s \<union> T" "T \<subseteq> {fresh (memory s)..<fresh (memory s')}" "\<And>p. T \<inter> G p = {}"
  shows "apart s'"
proof -
  have old: "grip (slot s p) \<subseteq> {..<fresh (memory s)}" for p by (rule grip_old [OF apartD(1) [OF assms(1)]])
  note th = apartD(4) [OF assms(1)]
  have 1: "grip (slot s' p) \<inter> theirs s' = {}" for p
  proof -
    show ?thesis using apartD(2) [OF assms(1), of p] old [of p] th G(1,2) [of p] T(1,2) T(3) [of p] by fastforce
  qed
  have 2: "grip (slot s' p) \<inter> grip (slot s' q) = {}" if "p \<noteq> q" for p q
  proof -
    show ?thesis using apartD(3) [OF assms(1) that] old [of p] old [of q] G(1,2) [of p] G(1,2) [of q] G(3) [OF that] by fastforce
  qed
  have "theirs s' \<subseteq> {..<fresh (memory s')}" using th T(1,2) assms(2) by fastforce
  then show ?thesis unfolding apart_def using 1 2 assms(3) by blast
qed

text \<open>A move that writes to the arrays \<open>A\<close> only.\<close>

definition touches :: "addr set \<Rightarrow> heap \<Rightarrow> heap \<Rightarrow> bool" where
  "touches A h h' \<longleftrightarrow> fresh h \<le> fresh h' \<and> (\<forall>a < fresh h. a \<notin> A \<longrightarrow> arrays h' a = arrays h a)"

lemma grown_touches: "grown h h' \<Longrightarrow> touches A h h'"
  by (simp add: grown_def touches_def)

lemma untouched:
  assumes "slice_ok h sl" "touches A h h'" "grip sl \<inter> A = {}"
  shows "slice_ok h' sl \<and> contents h' sl = contents h sl"
  using assms grip_old [OF assms(1)] by (intro slice_kept) (auto simp: touches_def)

lemma append_part_spec:
  assumes "append_part slack f x h r = (h', r')" "row_ok h r"
  shows "touches (grip (part r f)) h h' \<and> shape r' = shape r \<and> (\<forall>g. g \<noteq> f \<longrightarrow> part r' g = part r g) \<and>
    slice_ok h' (part r' f) \<and> grip (part r' f) \<subseteq> grip (part r f) \<union> {fresh h..<fresh h'} \<and>
    contents h' (part r' f) = with_elem x (contents h (part r f))"
  using assms append_elem_spec [of slack x h "part r f"] by (auto simp: append_part_def touches_def row_ok_def split: prod.splits)

text \<open>What every move of the backend must keep of a state: all is apart and callers read what they read before.\<close>

definition harmless :: "shared \<Rightarrow> shared \<Rightarrow> bool" where
  "harmless s s' \<longleftrightarrow> apart s' \<and> (\<forall>sl. shown_to_caller s sl \<longrightarrow> shown_to_caller s' sl \<and> contents (memory s') sl = contents (memory s) sl)"

lemma harmless_trans: "harmless s1 s2 \<Longrightarrow> harmless s2 s3 \<Longrightarrow> harmless s1 s3"
  by (simp add: harmless_def)

lemma harmlessI:
  assumes "apart s'" "touches A (memory s) (memory s')" "A \<inter> theirs s = {}" "theirs s \<subseteq> theirs s'"
  shows "harmless s s'"
  using assms untouched [OF _ assms(2)] unfolding harmless_def shown_to_caller_def by blast

text \<open>One slice of one row changes.\<close>

lemma row_moves:
  assumes a: "apart s" "kept s i = Some r" and t: "touches (grip (part r f)) (memory s) h'"
    and r1: "\<forall>g. g \<noteq> f \<longrightarrow> part r1 g = part r g" "slice_ok h' (part r1 f)"
      "grip (part r1 f) \<subseteq> grip (part r f) \<union> {fresh (memory s)..<fresh h'}"
    and s': "memory s' = h'" "kept s' = (kept s)(i \<mapsto> r1)" "theirs s' = theirs s"
  shows "harmless s s'"
    "values_of s' = (values_of s)(i \<mapsto> (shape r1, (\<lambda>g. contents (memory s) (part r g))(f := contents h' (part r1 f))))"
proof -
  have me: "slot s (i, g) = part r g" "slot s' (i, g) = part r1 g" for g using a(2) s'(2) by (simp_all add: slot_def)
  have other: "slot s' p = slot s p" if "p \<noteq> (i, f)" for p
    using that me r1(1) s'(2) by (cases p) (auto simp: slot_def)
  have keep: "slice_ok h' (slot s p) \<and> contents h' (slot s p) = contents (memory s) (slot s p)" if "p \<noteq> (i, f)" for p
    using untouched [OF apartD(1) [OF a(1)] t] apartD(3) [OF a(1) that] me(1) by simp
  have "apart s'"
  proof (rule apart_moves [where G = "\<lambda>p. if p = (i, f) then {fresh (memory s)..<fresh h'} else {}" and T = "{}", OF a(1)])
    show "fresh (memory s) \<le> fresh (memory s')" using t s'(1) by (simp add: touches_def)
    show "slice_ok (memory s') (slot s' p)" for p
      using keep [of p] other [of p] r1(2) me s'(1) by (cases "p = (i, f)") auto
    show "grip (slot s' p) \<subseteq> grip (slot s p) \<union> (if p = (i, f) then {fresh (memory s)..<fresh h'} else {})" for p
      using other [of p] r1(3) me by (cases "p = (i, f)") auto
  qed (use s' in auto)
  moreover have "grip (part r f) \<inter> theirs s = {}" using apartD(2) [OF a(1), of "(i, f)"] me by simp
  ultimately show "harmless s s'" using t s' by (intro harmlessI [where A = "grip (part r f)"]) simp_all
  show "values_of s' = (values_of s)(i \<mapsto> (shape r1, (\<lambda>g. contents (memory s) (part r g))(f := contents h' (part r1 f))))"
  proof
    fix j
    show "values_of s' j = ((values_of s)(i \<mapsto> (shape r1, (\<lambda>g. contents (memory s) (part r g))(f := contents h' (part r1 f))))) j"
    proof (cases "j = i")
      case True
      have "contents h' (part r1 g) = contents (memory s) (part r g)" if "g \<noteq> f" for g
        using keep [of "(i, g)"] me r1(1) that by simp
      then show ?thesis using True s' by (auto simp: values_of_def value_of_def)
    next
      case False
      have "value_of h' q = value_of (memory s) q" if q: "kept s j = Some q" for q
        using keep [of "(j, g)" for g] False slot_row [OF q] by (simp add: value_of_def)
      then show ?thesis using False s' by (cases "kept s j") (simp_all add: values_of_def)
    qed
  qed
qed

text \<open>A copy is handed out.\<close>

lemma copy_out:
  assumes a: "apart s" "kept s i = Some r" and c: "copyRow slack (memory s) r = (h', c)"
    and s': "memory s' = h'" "kept s' = kept s" "theirs s' = theirs s \<union> grips c"
  shows "harmless s s'" "values_of s' = values_of s" "value_of h' c = value_of (memory s) r"
proof -
  note cp = copyRow_spec [OF c apart_row [OF a]]
  have same: "slot s' p = slot s p" for p using s'(2) by (simp add: slot_def)
  have keep: "slice_ok h' (slot s p) \<and> contents h' (slot s p) = contents (memory s) (slot s p)" for p
    using slice_grown [OF apartD(1) [OF a(1)] cp(1)] .
  have "apart s'"
  proof (rule apart_moves [where G = "\<lambda>p. {}" and T = "grips c", OF a(1)])
    show "fresh (memory s) \<le> fresh (memory s')" using cp(1) s'(1) by (simp add: grown_def)
    show "grips c \<subseteq> {fresh (memory s)..<fresh (memory s')}" using subsetD [OF cp(4)] s'(1) by (auto simp: grips_iff)
  qed (use same keep s' in auto)
  then show "harmless s s'" using grown_touches [OF cp(1)] s' by (intro harmlessI [where A = "{}"]) simp_all
  have "value_of h' q = value_of (memory s) q" if "kept s j = Some q" for j q
    using keep [of "(j, g)" for g] slot_row [OF that] by (simp add: value_of_def)
  then have "map_option (value_of h') (kept s j) = map_option (value_of (memory s)) (kept s j)" for j by (cases "kept s j") simp_all
  then show "values_of s' = values_of s" using s' by (simp add: values_of_def)
  show "value_of h' c = value_of (memory s) r" by (rule cp(3))
qed

subsection \<open>Moves\<close>

fun callers :: "move \<Rightarrow> bool" where
  "callers (MakeArray xs) \<longleftrightarrow> True"
| "callers (WriteElem a n x) \<longleftrightarrow> True"
| "callers m \<longleftrightarrow> False"

text \<open>A state with the values a move promises, all apart, and undisturbed callers unless the move was theirs.\<close>

definition promised :: "move \<Rightarrow> shared \<Rightarrow> shared \<Rightarrow> bool" where
  "promised m s s' \<longleftrightarrow> apart s' \<and> values_of s' = value_move m s (values_of s) \<and> (\<not> callers m \<longrightarrow> harmless s s')"

lemma promisedI: "\<not> callers m \<Longrightarrow> harmless s s' \<Longrightarrow> values_of s' = value_move m s (values_of s) \<Longrightarrow> promised m s s'"
  by (simp add: promised_def harmless_def)

lemma caller_promised:
  assumes "apart s" "touches A (memory s) (memory s')" "A \<subseteq> theirs s" "kept s' = kept s" "theirs s' = theirs s \<union> T"
    "T \<subseteq> {fresh (memory s)..<fresh (memory s')}"
  shows "apart s' \<and> values_of s' = values_of s"
proof -
  have same: "slot s' p = slot s p" for p using assms(4) by (simp add: slot_def)
  have "grip (slot s p) \<inter> A = {}" for p using apartD(2) [OF assms(1), of p] assms(3) by blast
  then have keep: "slice_ok (memory s') (slot s p) \<and> contents (memory s') (slot s p) = contents (memory s) (slot s p)" for p
    using untouched [OF apartD(1) [OF assms(1)] assms(2)] by blast
  have "apart s'"
    by (rule apart_moves [where G = "\<lambda>p. {}" and T = T, OF assms(1)]) (use assms same keep in \<open>auto simp: touches_def\<close>)
  moreover have "value_of (memory s') q = value_of (memory s) q" if "kept s j = Some q" for j q
    using keep [of "(j, g)" for g] slot_row [OF that] by (simp add: value_of_def)
  then have "map_option (value_of (memory s')) (kept s j) = map_option (value_of (memory s)) (kept s j)" for j by (cases "kept s j") simp_all
  ultimately show ?thesis using assms(4) by (simp add: values_of_def)
qed

lemma keep_promised:
  assumes a: "apart s" and m: "move_on slack (KeepRow i r) s = Some s'"
  shows "promised (KeepRow i r) s s'"
proof (rule promisedI)
  have g: "list_all (\<lambda>f. shown_to_caller s (part r f)) row_fields" "kept s i = None" using m by (auto split: if_splits)
  obtain h' c where c: "copyRow slack (memory s) r = (h', c)" by (cases "copyRow slack (memory s) r")
  then have s': "memory s' = h'" "kept s' = (kept s)(i \<mapsto> c)" "theirs s' = theirs s" using m g by auto
  have "row_ok (memory s) r" using g(1) all_fields(1) by (simp add: list_all_iff row_ok_def shown_to_caller_def)
  note cp = copyRow_spec [OF c this]
  have keep: "slice_ok h' (slot s p) \<and> contents h' (slot s p) = contents (memory s) (slot s p)" for p
    using slice_grown [OF apartD(1) [OF a] cp(1)] .
  have new: "slot s' p = (if fst p = i then part c (snd p) else slot s p)" for p using s'(2) by (simp add: slot_def)
  let ?G = "\<lambda>p. if fst p = i then grip (part c (snd p)) else {}"
  have "apart s'"
  proof (rule apart_moves [where G = ?G and T = "{}", OF a])
    show "fresh (memory s) \<le> fresh (memory s')" using cp(1) s'(1) by (simp add: grown_def)
    show "slice_ok (memory s') (slot s' p)" for p using keep [of p] cp(2) new s'(1) by (simp add: row_ok_def)
    show "?G p \<inter> ?G q = {}" if "p \<noteq> q" for p q using cp(5) that by (cases p; cases q) auto
  qed (use new cp(4) s' in auto)
  then show "harmless s s'" using grown_touches [OF cp(1)] s' by (intro harmlessI [where A = "{}"]) simp_all
  have "value_of h' q = value_of (memory s) q" if "kept s j = Some q" for j q
    using keep [of "(j, g)" for g] slot_row [OF that] by (simp add: value_of_def)
  then have "map_option (value_of h') (kept s j) = map_option (value_of (memory s)) (kept s j)" for j by (cases "kept s j") simp_all
  then show "values_of s' = value_move (KeepRow i r) s (values_of s)"
    using s' cp(3) by (auto simp: values_of_def fun_eq_iff)
qed simp

lemma append_promised:
  assumes a: "apart s" "kept s i = Some r" and p: "append_part slack f x (memory s) (r\<lparr>shape := g (shape r)\<rparr>) = (h', r1)"
    and s': "memory s' = h'" "kept s' = (kept s)(i \<mapsto> r1)" "theirs s' = theirs s"
  shows "harmless s s'" "values_of s' = (values_of s)(i := map_option (\<lambda>(j, p). (g j, p(f := with_elem x (p f)))) (values_of s i))"
proof -
  have "row_ok (memory s) (r\<lparr>shape := g (shape r)\<rparr>)" using apart_row [OF a] by (simp add: row_ok_def)
  note ap = append_part_spec [OF p this]
  have t: "touches (grip (part r f)) (memory s) h'" "\<forall>g. g \<noteq> f \<longrightarrow> part r1 g = part r g" "slice_ok h' (part r1 f)"
    "grip (part r1 f) \<subseteq> grip (part r f) \<union> {fresh (memory s)..<fresh h'}"
    using ap by simp_all
  show "harmless s s'" by (rule row_moves(1) [OF a t s'])
  show "values_of s' = (values_of s)(i := map_option (\<lambda>(j, p). (g j, p(f := with_elem x (p f)))) (values_of s i))"
    unfolding row_moves(2) [OF a t s'] using ap a(2) by (simp add: values_of_def value_of_def)
qed

lemma claim_promised:
  assumes a: "apart s" and m: "move_on slack (ClaimRow i client g) s = Some s'"
  shows "promised (ClaimRow i client g) s s' \<and>
    (\<exists>c. handed s' = (i, c) # handed s \<and> values_of s' i = Some (value_of (memory s') c))"
proof -
  obtain r where r: "kept s i = Some r" using m by (auto split: option.splits)
  obtain h1 r1 where p: "append_part slack FAttemptedBy (EStr client) (memory s) (r\<lparr>shape := g (shape r)\<rparr>) = (h1, r1)" by force
  obtain h2 c where c: "copyRow slack h1 r1 = (h2, c)" by force
  define s1 where "s1 = s\<lparr>memory := h1, kept := (kept s)(i \<mapsto> r1)\<rparr>"
  have s1: "memory s1 = h1" "kept s1 = (kept s)(i \<mapsto> r1)" "theirs s1 = theirs s" by (simp_all add: s1_def)
  have s': "memory s' = h2" "kept s' = kept s1" "theirs s' = theirs s1 \<union> grips c" "handed s' = (i, c) # handed s"
    using m r p c by (auto simp: s1_def)
  note one = append_promised [where g = g, OF a r p s1]
  have "apart s1" using one(1) by (simp add: harmless_def)
  moreover have "kept s1 i = Some r1" by (simp add: s1)
  ultimately have two: "harmless s1 s'" "values_of s' = values_of s1" "value_of h2 c = value_of h1 r1"
    using copy_out [of s1 i r1 slack h2 c s'] c s' s1(1) by simp_all
  have "promised (ClaimRow i client g) s s'"
    by (rule promisedI) (use one two harmless_trans in auto)
  moreover have "values_of s' i = Some (value_of (memory s') c)"
    unfolding two(2) using two(3) s1 s'(1) by (simp add: values_of_def)
  ultimately show ?thesis using s'(4) by blast
qed

lemma record_promised:
  assumes a: "apart s" and m: "move_on slack (RecordError i e g) s = Some s'"
  shows "promised (RecordError i e g) s s'"
proof -
  obtain r where r: "kept s i = Some r" using m by (auto split: option.splits)
  obtain h1 r1 where p: "append_part slack FErrors (EAttempt e) (memory s) (r\<lparr>shape := g (shape r)\<rparr>) = (h1, r1)" by force
  have "memory s' = h1" "kept s' = (kept s)(i \<mapsto> r1)" "theirs s' = theirs s" using m r p by auto
  from append_promised [where g = g, OF a r p this] show ?thesis by (intro promisedI) simp_all
qed

lemma change_promised:
  assumes a: "apart s" and m: "move_on slack (ChangeRow i g) s = Some s'"
  shows "promised (ChangeRow i g) s s'"
proof -
  obtain r where r: "kept s i = Some r" using m by (auto split: option.splits)
  have s': "memory s' = memory s" "kept s' = (kept s)(i \<mapsto> r\<lparr>shape := g (shape r)\<rparr>)" "theirs s' = theirs s" using m r by auto
  have "slice_ok (memory s) (part r FPayload)" using apart_row [OF a r] by (simp add: row_ok_def)
  then have t: "touches (grip (part r FPayload)) (memory s) (memory s)"
    "\<forall>f. f \<noteq> FPayload \<longrightarrow> part (r\<lparr>shape := g (shape r)\<rparr>) f = part r f" "slice_ok (memory s) (part (r\<lparr>shape := g (shape r)\<rparr>) FPayload)"
    "grip (part (r\<lparr>shape := g (shape r)\<rparr>) FPayload) \<subseteq> grip (part r FPayload) \<union> {fresh (memory s)..<fresh (memory s)}"
    by (simp_all add: touches_def)
  show ?thesis
    by (rule promisedI) (use row_moves [OF a r t s'] r in \<open>auto simp: values_of_def value_of_def fun_eq_iff\<close>)
qed

lemma merge_promised:
  assumes a: "apart s" and m: "move_on slack (MergeMeta i d) s = Some s'"
  shows "promised (MergeMeta i d) s s'"
proof -
  obtain r where r: "kept s i = Some r" using m by (auto split: option.splits)
  have d: "shown_to_caller s d" using m r by (auto split: if_splits)
  obtain h1 r1 where p: "ref_mergeMeta slack d (memory s) r = (h1, r1)" by force
  have s': "memory s' = h1" "kept s' = (kept s)(i \<mapsto> r1)" "theirs s' = theirs s" using m r p d by auto
  show ?thesis
  proof (cases "contents (memory s) d \<noteq> None \<and> contents (memory s) d \<noteq> Some []")
    case False
    then have "r1 = r" "h1 = memory s" using p by (auto simp: ref_mergeMeta_def)
    then have "move_on slack (ChangeRow i id) s = Some s'" using m r p d by auto
    from change_promised [OF a this] have "harmless s s'" "values_of s' = value_move (ChangeRow i id) s (values_of s)"
      by (simp_all add: promised_def)
    then show ?thesis using False by (intro promisedI) (auto split: option.splits list.splits simp: fun_eq_iff option.map_id)
  next
    case True
    obtain sl where c: "Clone slack (memory s) d = (h1, sl)" and r1: "r1 = r\<lparr>part := (part r)(FMetadata := sl)\<rparr>"
      using True p by (auto simp: ref_mergeMeta_def split: prod.splits)
    have cl: "grown (memory s) h1" "slice_ok h1 sl" "grip sl \<subseteq> {fresh (memory s)..<fresh h1}" "contents h1 sl = contents (memory s) d"
      using Clone_spec [OF c] d by (simp_all add: shown_to_caller_def)
    have t: "touches (grip (part r FMetadata)) (memory s) h1" "\<forall>f. f \<noteq> FMetadata \<longrightarrow> part r1 f = part r f" "slice_ok h1 (part r1 FMetadata)"
      "grip (part r1 FMetadata) \<subseteq> grip (part r FMetadata) \<union> {fresh (memory s)..<fresh h1}"
      using cl grown_touches [OF cl(1)] by (auto simp: r1)
    obtain x xs where "contents (memory s) d = Some (x # xs)" using True by (auto simp: neq_Nil_conv)
    then show ?thesis
      by (intro promisedI) (use row_moves [OF a r t s'] r cl(4) in \<open>auto simp: values_of_def value_of_def r1 fun_eq_iff\<close>)
  qed
qed

lemma out_promised:
  assumes a: "apart s" and m: "move_on slack (HandOut i) s = Some s'"
  shows "promised (HandOut i) s s' \<and> (\<exists>c. handed s' = (i, c) # handed s \<and> values_of s' i = Some (value_of (memory s') c))"
proof -
  obtain r where r: "kept s i = Some r" using m by (auto split: option.splits)
  obtain h' c where c: "copyRow slack (memory s) r = (h', c)" by force
  have s': "memory s' = h'" "kept s' = kept s" "theirs s' = theirs s \<union> grips c" "handed s' = (i, c) # handed s" using m r c by auto
  note out = copy_out [OF a r c s'(1-3)]
  have "values_of s' i = Some (value_of (memory s') c)" unfolding out(2) using out(3) r s'(1) by (simp add: values_of_def)
  then show ?thesis using promisedI [of "HandOut i" s s'] out s'(4) by simp
qed

lemma drop_promised:
  assumes a: "apart s" and m: "move_on slack (DropRow i) s = Some s'"
  shows "promised (DropRow i) s s'"
proof (rule promisedI)
  have s': "s' = s\<lparr>kept := (kept s)(i := None)\<rparr>" using m by simp
  have "apart s'"
    by (rule apart_moves [where G = "\<lambda>p. {}" and T = "{}", OF a]) (use apartD(1) [OF a] s' in \<open>auto simp: slot_def\<close>)
  then show "harmless s s'" by (rule harmlessI [where A = "{}"]) (simp_all add: s' touches_def)
  show "values_of s' = value_move (DropRow i) s (values_of s)" by (auto simp: s' values_of_def)
qed simp

lemma move_promised:
  assumes a: "apart s" and m: "move_on slack m s = Some s'"
  shows "promised m s s'"
proof (cases m)
  case (MakeArray xs)
  obtain h sl where n: "new_array slack xs (memory s) = (h, sl)" by force
  have "touches {} (memory s) h" "fresh h = fresh (memory s) + 1"
    using n new_array_spec [OF n] by (auto simp: new_array_def touches_def grown_def Let_def)
  then have "apart s' \<and> values_of s' = values_of s"
    using m n MakeArray by (intro caller_promised [where A = "{}" and T = "{fresh (memory s)}", OF a]) auto
  then show ?thesis by (simp add: promised_def MakeArray)
next
  case (WriteElem b n x)
  have b: "b \<in> theirs s" and s': "s' = s\<lparr>memory := (memory s)\<lparr>arrays := (arrays (memory s))(b := (arrays (memory s) b)[n := x])\<rparr>\<rparr>"
    using m WriteElem by (auto split: if_splits)
  have "apart s' \<and> values_of s' = values_of s"
    using b by (intro caller_promised [where A = "{b}" and T = "{}", OF a]) (auto simp: s' touches_def)
  then show ?thesis by (simp add: promised_def WriteElem)
next
  case KeepRow
  show ?thesis unfolding KeepRow by (rule keep_promised [OF a m [unfolded KeepRow]])
next
  case ClaimRow
  show ?thesis unfolding ClaimRow by (rule claim_promised [OF a m [unfolded ClaimRow], THEN conjunct1])
next
  case RecordError
  show ?thesis unfolding RecordError by (rule record_promised [OF a m [unfolded RecordError]])
next
  case MergeMeta
  show ?thesis unfolding MergeMeta by (rule merge_promised [OF a m [unfolded MergeMeta]])
next
  case HandOut
  show ?thesis unfolding HandOut by (rule out_promised [OF a m [unfolded HandOut], THEN conjunct1])
next
  case ChangeRow
  show ?thesis unfolding ChangeRow by (rule change_promised [OF a m [unfolded ChangeRow]])
next
  case DropRow
  show ?thesis unfolding DropRow by (rule drop_promised [OF a m [unfolded DropRow]])
qed

lemma apart_reachable: "shared_reach slack s \<Longrightarrow> apart s"
proof (induction rule: shared_reach.induct)
  case Start
  show ?case by (simp add: apart_def no_rows_def slot_def)
next
  case (Move s m s')
  then show ?case using move_promised by (auto simp: promised_def)
qed

lemma callers_value: "callers m \<Longrightarrow> value_move m s v = v"
  by (cases m) simp_all

text \<open>C10: Nothing is shared between the stored rows and the callers of the memory backend. Whatever arrays the callers reach
  through the rows they passed in or were handed and write to, and however much room an append finds: a move of a caller
  changes no stored row, a move of the backend changes nothing a caller can read, a row that is handed out reads as the
  stored one, and the stored rows change as values do.\<close>

theorem rows_isolated:
  assumes "shared_reach slack s" "move_on slack m s = Some s'"
  shows "values_of s' = value_move m s (values_of s) \<and> (callers m \<longrightarrow> values_of s' = values_of s) \<and>
    (\<not> callers m \<longrightarrow> (\<forall>sl. shown_to_caller s sl \<longrightarrow> contents (memory s') sl = contents (memory s) sl)) \<and>
    (\<forall>i. m = HandOut i \<or> (\<exists>client g. m = ClaimRow i client g) \<longrightarrow>
       (\<exists>c. handed s' = (i, c) # handed s \<and> values_of s' i = Some (value_of (memory s') c)))"
proof -
  note a = apart_reachable [OF assms(1)]
  have p: "promised m s s'" by (rule move_promised [OF a assms(2)])
  have "values_of s' = value_move m s (values_of s)" "\<not> callers m \<Longrightarrow> harmless s s'" using p by (simp_all add: promised_def)
  moreover have "\<exists>c. handed s' = (i, c) # handed s \<and> values_of s' i = Some (value_of (memory s') c)"
    if "m = HandOut i \<or> (\<exists>client g. m = ClaimRow i client g)" for i
    using that out_promised [OF a] claim_promised [OF a] assms(2) by blast
  ultimately show ?thesis using callers_value by (auto simp: harmless_def)
qed

text \<open>A caller makes a payload, stores a row with it, is handed the row by a claim and writes over what it was handed.\<close>

primrec moves_on :: "(nat \<Rightarrow> elem list) \<Rightarrow> move list \<Rightarrow> shared \<Rightarrow> shared option" where
  "moves_on slack [] s = Some s"
| "moves_on slack (m # ms) s = (case move_on slack m s of None \<Rightarrow> None | Some s' \<Rightarrow> moves_on slack ms s')"

lemma moves_reach: "shared_reach slack s \<Longrightarrow> moves_on slack ms s = Some s' \<Longrightarrow> shared_reach slack s'"
  by (induction ms arbitrary: s) (auto split: option.splits intro: shared_reach.Move)

definition sample_ref :: ref_row where
  "sample_ref = \<lparr>shape = zero_row, part = (\<lambda>f. if f = FPayload then Slice 0 0 2 2 else NilSlice)\<rparr>"

definition sample_shared :: shared where
  "sample_shared = the (moves_on (\<lambda>_. []) [MakeArray [EByte 123, EByte 125], KeepRow 1 sample_ref, ClaimRow 1 ''c'' id] no_rows)"

lemmas sample_moves = no_rows_def new_array_def shown_to_caller_def copyRow_def append_part_def row_fields_def sample_ref_def grips_def

lemma sample_shared_reach: "shared_reach (\<lambda>_. []) sample_shared"
proof (rule moves_reach [OF shared_reach.Start])
  show "moves_on (\<lambda>_. []) [MakeArray [EByte 123, EByte 125], KeepRow 1 sample_ref, ClaimRow 1 ''c'' id] no_rows = Some sample_shared"
    unfolding sample_shared_def by (simp add: sample_moves Let_def)
qed

definition sample_written :: shared where
  "sample_written = the (move_on (\<lambda>_. []) (WriteElem 4 0 (EByte 0)) sample_shared)"

lemma sample_write: "move_on (\<lambda>_. []) (WriteElem 4 0 (EByte 0)) sample_shared = Some sample_written"
  unfolding sample_written_def sample_shared_def by (simp add: sample_moves Let_def)

lemma rows_isolated_witness:
  "values_of sample_written = values_of sample_shared \<and>
    contents (memory sample_written) (Slice 4 0 2 2) = Some [EByte 0, EByte 125] \<and>
    contents (memory sample_shared) (Slice 4 0 2 2) = Some [EByte 123, EByte 125]"
proof -
  have "values_of sample_written = values_of sample_shared"
    using rows_isolated [OF sample_shared_reach sample_write] by simp
  moreover have "contents (memory sample_written) (Slice 4 0 2 2) = Some [EByte 0, EByte 125]"
    "contents (memory sample_shared) (Slice 4 0 2 2) = Some [EByte 123, EByte 125]"
    unfolding sample_written_def sample_shared_def by (simp_all add: sample_moves Let_def)
  ultimately show ?thesis by blast
qed

end
