(* ===== verification/Suite.thy ===== *)
theory Suite
  imports Store
begin

text \<open>
  \<^verbatim>\<open>backendtest/suite.go\<close>: the conformance suite for storage backends. A test is a \<open>script\<close>: the calls it makes, one after
  the other, each with the rest of the test as a function of the reply, down to the end of the test or its \<^verbatim>\<open>t.Fatal\<close>
  (whose message is kept without its values). A script does not know the backend, so one definition is run against all
  of them. Tests that start goroutines take the order in which the backend serves them as an argument.
\<close>

datatype script =
    Pass
  | Failing string
  | Call op "reply \<Rightarrow> script"

subsection \<open>Instants\<close>

definition T0 :: instant where
  "T0 = 1700000000 * 1000000000"

definition nanosecond :: duration where
  "nanosecond = 1"

definition second :: duration where
  "second = 1000000000"

definition minute :: duration where
  "minute = 60 * second"

definition hour :: duration where
  "hour = 60 * minute"

abbreviation after :: "duration \<Rightarrow> instant" where
  "after d \<equiv> time_Add T0 d"

subsection \<open>Calls\<close>

text \<open>The calls as the tests make them. An order of the map is not a test's business and is left empty.\<close>

definition no_reply :: script where
  "no_reply = Failing ''a reply of another call''"

definition rows_of :: "op \<Rightarrow> (go_error + job_row list \<Rightarrow> script) \<Rightarrow> script" where
  "rows_of x k = Call x (\<lambda>r. case r of Enqueued res \<Rightarrow> k res | Fetched res \<Rightarrow> k res | _ \<Rightarrow> no_reply)"

definition error_of :: "op \<Rightarrow> (go_error option \<Rightarrow> script) \<Rightarrow> script" where
  "error_of x k = Call x (\<lambda>r. case r of Finalized err \<Rightarrow> k err | _ \<Rightarrow> no_reply)"

definition count_of :: "op \<Rightarrow> (go_error + int \<Rightarrow> script) \<Rightarrow> script" where
  "count_of x k = Call x (\<lambda>r. case r of Counted res \<Rightarrow> k res | _ \<Rightarrow> no_reply)"

definition beat_of :: "op \<Rightarrow> (go_error + int list \<Rightarrow> script) \<Rightarrow> script" where
  "beat_of x k = Call x (\<lambda>r. case r of Beaten res \<Rightarrow> k res | _ \<Rightarrow> no_reply)"

definition fatal_err :: script where
  "fatal_err = Failing ''err''"

text \<open>\<^verbatim>\<open>if err := ...; err != nil { t.Fatalf(msg) }\<close>, and its forms with a value.\<close>

definition ok_of :: "string \<Rightarrow> op \<Rightarrow> script \<Rightarrow> script" where
  "ok_of msg x k = error_of x (\<lambda>err. if err \<noteq> None then Failing msg else k)"

definition count_ok :: "op \<Rightarrow> (int \<Rightarrow> script) \<Rightarrow> script" where
  "count_ok x k = count_of x (\<lambda>res. case res of Inl err \<Rightarrow> fatal_err | Inr n \<Rightarrow> k n)"

definition check :: "bool \<Rightarrow> string \<Rightarrow> script \<Rightarrow> script" where
  "check c msg k = (if c then k else Failing msg)"

fun is_error :: "go_error option \<Rightarrow> sentinel \<Rightarrow> bool" where
  "is_error None s = False"
| "is_error (Some err) s = errors_Is err s"

fun stale_ids :: "go_error option \<Rightarrow> int list option" where
  "stale_ids None = None"
| "stale_ids (Some err) = errors_As (\<lambda>e. case e of StaleError ids \<Rightarrow> Some ids | _ \<Rightarrow> None) err"

subsection \<open>Helpers of the suite\<close>

definition suite_enqueue :: "job_row list \<Rightarrow> (job_row list \<Rightarrow> script) \<Rightarrow> script" where
  "suite_enqueue rows k =
     rows_of (OpEnqueue \<lparr>ep_Jobs = rows, ep_Now = T0\<rparr>) (\<lambda>res. case res of Inl err \<Rightarrow> fatal_err | Inr rows \<Rightarrow> k rows)"

definition suite_row :: "string \<Rightarrow> string \<Rightarrow> job_row" where
  "suite_row kind queue =
     zero_row\<lparr>Kind := kind, Queue := queue, Payload := RawJson (JObj []), MaxAttempts := 3, ScheduledAt := T0\<rparr>"

definition call_fetch :: "string \<Rightarrow> int \<Rightarrow> string \<Rightarrow> instant \<Rightarrow> op" where
  "call_fetch queue limit client now = OpFetch [] \<lparr>fp_Queue = queue, fp_Limit = limit, fp_ClientID = client, fp_Now = now\<rparr>"

definition fetch_ok :: "op \<Rightarrow> (job_row list \<Rightarrow> script) \<Rightarrow> script" where
  "fetch_ok x k = rows_of x (\<lambda>res. case res of Inl err \<Rightarrow> fatal_err | Inr rows \<Rightarrow> k rows)"

definition suite_fetch :: "string \<Rightarrow> int \<Rightarrow> instant \<Rightarrow> (job_row list \<Rightarrow> script) \<Rightarrow> script" where
  "suite_fetch queue limit now k = fetch_ok (call_fetch queue limit ''c1'' now) k"

definition call_move :: "instant \<Rightarrow> int \<Rightarrow> op" where
  "call_move now limit = OpMoveDue [] \<lparr>mp_Now = now, mp_Limit = limit\<rparr>"

definition call_rescue :: "instant \<Rightarrow> duration \<Rightarrow> int \<Rightarrow> op" where
  "call_rescue now ttl limit = OpRescueStale [] \<lparr>sr_Now = now, sr_TTL = ttl, sr_Limit = limit\<rparr>"

definition call_clean :: "instant \<Rightarrow> duration \<Rightarrow> duration \<Rightarrow> duration \<Rightarrow> int \<Rightarrow> op" where
  "call_clean now completed cancelled dead limit =
     OpClean [] \<lparr>cl_Now = now, cl_CompletedRetention = completed, cl_CancelledRetention = cancelled,
       cl_DeadRetention = dead, cl_Limit = limit\<rparr>"

definition claimOne :: "string \<Rightarrow> (job_row \<Rightarrow> script) \<Rightarrow> script" where
  "claimOne queue k = suite_fetch queue 1 T0 (\<lambda>got. case got of [c] \<Rightarrow> k c | _ \<Rightarrow> Failing ''expected one claim'')"

definition refetchAfterRetry :: "string \<Rightarrow> instant \<Rightarrow> (job_row \<Rightarrow> script) \<Rightarrow> script" where
  "refetchAfterRetry queue now k =
     count_ok (call_move now 100) (\<lambda>_.
     fetch_ok (call_fetch queue 1 ''c2'' now) (\<lambda>rows. case rows of [c] \<Rightarrow> k c | _ \<Rightarrow> Failing ''expected refetch of one job''))"

text \<open>Entries of the finalizations, with the fields a test leaves out at their zero value.\<close>

definition attempt_err :: "instant \<Rightarrow> int \<Rightarrow> string \<Rightarrow> attempt_error" where
  "attempt_err now n msg = \<lparr>ae_at = now, ae_attempt = n, ae_err = msg, ae_stack = []\<rparr>"

definition call_complete :: "instant \<Rightarrow> (int \<times> int) list \<Rightarrow> op" where
  "call_complete now es = OpComplete \<lparr>cp_Jobs = map (\<lambda>(i, g). \<lparr>jf_ID = i, jf_Generation = g, jf_Metadata = RawNil\<rparr>) es, cp_Now = now\<rparr>"

definition call_retry :: "instant \<Rightarrow> (int \<times> int \<times> instant \<times> attempt_error) list \<Rightarrow> op" where
  "call_retry now es = OpRetry \<lparr>rp_Jobs = map (\<lambda>(i, g, t, err).
     \<lparr>jr_ID = i, jr_Generation = g, jr_At = t, jr_Err = err, jr_Metadata = RawNil\<rparr>) es, rp_Now = now\<rparr>"

definition call_cancel :: "instant \<Rightarrow> (int \<times> int \<times> string) list \<Rightarrow> op" where
  "call_cancel now es = OpCancel \<lparr>xp_Jobs = map (\<lambda>(i, g, err).
     \<lparr>jc_ID = i, jc_Generation = g, jc_Err = err, jc_Metadata = RawNil\<rparr>) es, xp_Now = now\<rparr>"

definition call_kill :: "instant \<Rightarrow> (int \<times> int \<times> attempt_error) list \<Rightarrow> op" where
  "call_kill now es = OpKill \<lparr>kp_Jobs = map (\<lambda>(i, g, err).
     \<lparr>jk_ID = i, jk_Generation = g, jk_Err = err, jk_Metadata = RawNil\<rparr>) es, kp_Now = now\<rparr>"

definition call_snooze :: "instant \<Rightarrow> (int \<times> int \<times> instant \<times> raw) list \<Rightarrow> op" where
  "call_snooze now es = OpSnooze \<lparr>sp_Jobs = map (\<lambda>(i, g, t, m).
     \<lparr>js_ID = i, js_Generation = g, js_At = t, js_Metadata = m\<rparr>) es, sp_Now = now\<rparr>"

definition call_heartbeat :: "string \<Rightarrow> instant \<Rightarrow> (int \<times> int) list \<Rightarrow> op" where
  "call_heartbeat client now es = OpHeartbeat \<lparr>hp_ClientID = client, hp_Jobs = map (\<lambda>(i, g). \<lparr>jh_ID = i, jh_Generation = g\<rparr>) es, hp_Now = now\<rparr>"

abbreviation tok :: "job_row \<Rightarrow> int \<times> int" where
  "tok c \<equiv> (ID c, Generation c)"

text \<open>\<open>n\<close> claims in a row.\<close>

primrec claims_then :: "nat \<Rightarrow> string \<Rightarrow> (job_row list \<Rightarrow> script) \<Rightarrow> script" where
  "claims_then 0 queue k = k []"
| "claims_then (Suc n) queue k = claimOne queue (\<lambda>c. claims_then n queue (\<lambda>cs. k (c # cs)))"

subsection \<open>Enqueue and Fetch\<close>

definition testEnqueueFillsRow :: script where
  "testEnqueueFillsRow =
     suite_enqueue [(suite_row ''a'' ''q'')\<lparr>PriorityBoost := 10 * second\<rparr>, (suite_row ''b'' ''q'')\<lparr>ScheduledAt := after hour\<rparr>] (\<lambda>rows.
     let j = rows ! 0; future = rows ! 1 in
     check (\<not> (ID j = 0 \<or> ID future = 0 \<or> ID j = ID future)) ''ids not filled uniquely'' (
     check (State j = StateAvailable) ''due job state'' (
     check (State future = StateScheduled) ''future job state'' (
     check (CreatedAt j = T0) ''CreatedAt'' (
     check (PriorityAt j = after (- (10 * second))) ''PriorityAt'' Pass)))))"

definition testFetchClaimsExclusively :: script where
  "testFetchClaimsExclusively =
     suite_enqueue [suite_row ''a'' ''q''] (\<lambda>rows.
     let j = rows ! 0 in
     suite_fetch ''q'' 10 T0 (\<lambda>got.
     check (length got = 1 \<and> ID (got ! 0) = ID j) ''fetch got'' (
     let c = got ! 0 in
     check (State c = StateRunning \<and> Attempt c = 1 \<and> Generation c = 1 \<and> AttemptedAt c = T0 \<and> HeartbeatAt c = T0)
       ''claim fields wrong'' (
     check (AttemptedBy c = [''c1'']) ''AttemptedBy'' (
     suite_fetch ''q'' 10 T0 (\<lambda>again. check (again = []) ''second fetch must be empty'' Pass))))))"

definition testFetchOrdersByEffectiveTime :: script where
  "testFetchOrdersByEffectiveTime =
     suite_enqueue [suite_row ''early'' ''q'', (suite_row ''boosted'' ''q'')\<lparr>ScheduledAt := after (5 * second), PriorityBoost := minute\<rparr>,
       (suite_row ''late'' ''q'')\<lparr>ScheduledAt := after (10 * second)\<rparr>] (\<lambda>_.
     let now = after (15 * second) in
     count_ok (call_move now 100) (\<lambda>_.
     suite_fetch ''q'' 3 now (\<lambda>got.
     check (map Kind got = [''boosted'', ''early'', ''late'']) ''order'' Pass)))"

definition testFetchSkipsOtherQueuesAndFuture :: script where
  "testFetchSkipsOtherQueuesAndFuture =
     suite_enqueue [suite_row ''a'' ''other''] (\<lambda>_.
     suite_enqueue [(suite_row ''b'' ''q'')\<lparr>ScheduledAt := after hour\<rparr>] (\<lambda>_.
     suite_fetch ''q'' 10 T0 (\<lambda>got. check (got = []) ''expected empty fetch'' Pass)))"

text \<open>
  The workers make the same call until it is answered by no rows, so an interleaving is a sequence of that call, and all
  that shows of it is how many workers are still at it. \<open>fuel\<close> bounds the calls; a backend that needs more fails.
\<close>

primrec fetch_workers :: "nat \<Rightarrow> nat \<Rightarrow> int list \<Rightarrow> (int list \<Rightarrow> script) \<Rightarrow> script" where
  "fetch_workers 0 workers seen k = (if workers = 0 then k seen else Failing ''the workers do not end'')"
| "fetch_workers (Suc fuel) workers seen k =
     (if workers = 0 then k seen
      else fetch_ok (call_fetch ''q'' 7 ''c'' T0) (\<lambda>got.
        if got = [] then fetch_workers fuel (workers - 1) seen k
        else fetch_workers fuel workers (map ID got @ seen) k))"

definition testConcurrentFetch :: "nat \<Rightarrow> nat \<Rightarrow> script" where
  "testConcurrentFetch n workers =
     suite_enqueue (replicate n (suite_row ''k'' ''q'')) (\<lambda>_.
     fetch_workers (n + workers) workers [] (\<lambda>seen.
     check (card (set seen) = n) ''claimed unique jobs'' (
     check (list_all (\<lambda>i. count_list seen i = 1) seen) ''job delivered'' Pass)))"

definition testConcurrentFetchNoDoubleDelivery :: script where
  "testConcurrentFetchNoDoubleDelivery = testConcurrentFetch 200 10"

definition testEnqueueBatchFillsEachRow :: script where
  "testEnqueueBatchFillsEachRow =
     suite_enqueue [suite_row ''k0'' ''q'', suite_row ''k1'' ''q'', suite_row ''k2'' ''q''] (\<lambda>rows.
     check (length rows = 3 \<and> list_all (\<lambda>r. ID r \<noteq> 0) rows) ''row was not assigned an ID'' (
     check (distinct (map ID rows)) ''row reuses ID'' (
     check (map Kind rows = [''k0'', ''k1'', ''k2'']) ''Enqueue filled the rows out of order'' (
     check (list_all (\<lambda>r. \<not> IsZero (CreatedAt r)) rows) ''row has no CreatedAt'' (
     suite_fetch ''q'' (int (length rows)) T0 (\<lambda>got.
     check (length got = length rows) ''fetched rows'' (
     let stored = map_of (rev (map (\<lambda>r. (ID r, Kind r)) got)) in
     check (list_all (\<lambda>r. stored (ID r) = Some (Kind r)) rows) ''Enqueue mapped IDs onto the wrong rows'' Pass)))))))"

definition testSubMicrosecondBoostsOrder :: script where
  "testSubMicrosecondBoostsOrder =
     suite_enqueue [(suite_row ''late'' ''q'')\<lparr>PriorityBoost := nanosecond\<rparr>, (suite_row ''early'' ''q'')\<lparr>PriorityBoost := 2 * nanosecond\<rparr>] (\<lambda>rows.
     suite_fetch ''q'' 2 T0 (\<lambda>got.
     check (length got = 2) ''fetched rows'' (
     check (ID (got ! 0) = ID (rows ! 1)) ''a one-nanosecond difference in boost must order the fetch'' Pass)))"

end
