(* ===== verification/Suite_Tests.thy ===== *)
theory Suite_Tests
  imports Suite
begin

text \<open>
  The tests of the conformance suite on finalization, heartbeats, maintenance, the range of instants, metadata and
  error history.
\<close>

primrec for_each :: "'a list \<Rightarrow> ('a \<Rightarrow> script \<Rightarrow> script) \<Rightarrow> script \<Rightarrow> script" where
  "for_each [] body k = k"
| "for_each (x # xs) body k = body x (for_each xs body k)"

subsection \<open>Finalization\<close>

definition testFinalizationsAreFenced :: script where
  "testFinalizationsAreFenced =
     suite_enqueue [suite_row ''a'' ''q''] (\<lambda>_.
     claimOne ''q'' (\<lambda>c.
     error_of (call_complete T0 [(ID c, Generation c + 1)]) (\<lambda>err.
     check (stale_ids err = Some [ID c]) ''stale complete must report StaleError'' (
     let okay = OpComplete \<lparr>cp_Jobs = [\<lparr>jf_ID = ID c, jf_Generation = Generation c, jf_Metadata = RawJson (JObj [(''k'', JInt 1)])\<rparr>],
                            cp_Now = after second\<rparr> in
     ok_of ''err'' okay (
     error_of okay (\<lambda>err. check (is_error err ErrStaleAttempt) ''double complete must be stale'' Pass))))))"

definition testRetrySchedulesBackoff :: script where
  "testRetrySchedulesBackoff =
     suite_enqueue [suite_row ''a'' ''q''] (\<lambda>_.
     claimOne ''q'' (\<lambda>c.
     let t = after (30 * second) in
     ok_of ''err'' (call_retry T0 [(ID c, Generation c, t, attempt_err T0 (Attempt c) ''boom'')]) (
     suite_fetch ''q'' 1 (after second) (\<lambda>got.
     check (got = []) ''retryable job must not be fetchable before backoff'' (
     refetchAfterRetry ''q'' t (\<lambda>r.
     check (Attempt r = 2 \<and> map ae_err (Errors r) = [''boom'']) ''after retry'' Pass))))))"

definition testSnoozeDoesNotConsumeAttempt :: script where
  "testSnoozeDoesNotConsumeAttempt =
     suite_enqueue [suite_row ''a'' ''q''] (\<lambda>_.
     claimOne ''q'' (\<lambda>c.
     let t = after minute in
     ok_of ''err'' (call_snooze T0 [(ID c, Generation c, t, RawNil)]) (
     refetchAfterRetry ''q'' t (\<lambda>r.
     check (Attempt r = 1) ''snooze consumed an attempt'' (
     check (Errors r = []) ''snooze must not append errors'' Pass)))))"

definition testKillAndCancelAreTerminal :: script where
  "testKillAndCancelAreTerminal =
     suite_enqueue [suite_row ''a'' ''q'', suite_row ''b'' ''q''] (\<lambda>_.
     claimOne ''q'' (\<lambda>c1. claimOne ''q'' (\<lambda>c2.
     ok_of ''err'' (call_kill T0 [(ID c1, Generation c1, attempt_err zero_time 0 ''dead'')]) (
     ok_of ''err'' (call_cancel T0 [(ID c2, Generation c2, ''stop'')]) (
     count_ok (call_move (after hour) 100) (\<lambda>_.
     suite_fetch ''q'' 10 (after hour) (\<lambda>got.
     check (got = []) ''terminal jobs must never be refetched'' Pass)))))))"

definition testSnoozeReplayIsFenced :: script where
  "testSnoozeReplayIsFenced =
     suite_enqueue [suite_row ''a'' ''q''] (\<lambda>_.
     claimOne ''q'' (\<lambda>first.
     let snooze = call_snooze T0 [(ID first, Generation first, after second, RawNil)] in
     ok_of ''err'' snooze (
     refetchAfterRetry ''q'' (after (2 * second)) (\<lambda>snd.
     check (Attempt snd = 1 \<and> Generation snd = 2) ''reclaim after snooze'' (
     error_of snooze (\<lambda>err.
     check (is_error err ErrStaleAttempt) ''replayed snooze must be fenced'' (
     ok_of ''live execution must still finalize'' (call_complete (after (3 * second)) [tok snd]) Pass)))))))"

text \<open>The five finalizers at the same entries.\<close>

definition finalizerCalls :: "(string \<times> ((int \<times> int) list \<Rightarrow> op)) list" where
  "finalizerCalls = [
     (''complete'', \<lambda>es. call_complete T0 es),
     (''retry'', \<lambda>es. call_retry T0 (map (\<lambda>(i, g). (i, g, after minute, attempt_err T0 1 ''boom'')) es)),
     (''cancel'', \<lambda>es. call_cancel T0 (map (\<lambda>(i, g). (i, g, ''cancelled'')) es)),
     (''kill'', \<lambda>es. call_kill T0 (map (\<lambda>(i, g). (i, g, attempt_err T0 1 ''fatal'')) es)),
     (''snooze'', \<lambda>es. call_snooze T0 (map (\<lambda>(i, g). (i, g, after minute, RawNil)) es))]"

definition testPartialBatchesApplyLiveEntries :: script where
  "testPartialBatchesApplyLiveEntries =
     for_each finalizerCalls (\<lambda>(name, call) next.
       suite_enqueue [suite_row ''live'' ''q'', suite_row ''untouched'' ''q''] (\<lambda>_.
       claimOne ''q'' (\<lambda>live. claimOne ''q'' (\<lambda>other.
       error_of (call [tok live, (ID other, Generation other + 1)]) (\<lambda>err.
       check (stale_ids err \<noteq> None) (name @ '': a batch with one stale entry must return a StaleError'') (
       check (stale_ids err = Some [ID other]) (name @ '': StaleError names'') (
       error_of (call [tok live]) (\<lambda>err.
       check (is_error err ErrStaleAttempt) (name @ '': the live entry in a partial batch was not applied'') (
       ok_of (name @ '': a stale entry must leave its job untouched'') (call [tok other]) next))))))))) Pass"

definition testDuplicateEntriesApplyOnce :: script where
  "testDuplicateEntriesApplyOnce =
     for_each finalizerCalls (\<lambda>(name, call) next.
       for_each [False, True] (\<lambda>staleFirst next.
         suite_enqueue [suite_row ''dup'' ''q''] (\<lambda>_.
         claimOne ''q'' (\<lambda>c.
         let live = tok c; stale = (ID c, Generation c + 1) in
         error_of (call (if staleFirst then [stale, live] else [live, stale])) (\<lambda>err.
         check (stale_ids err = Some [ID c]) (name @ '': want a StaleError naming job'') (
         error_of (call [live]) (\<lambda>err.
         check (is_error err ErrStaleAttempt) (name @ '': the live entry of a duplicated pair was not applied'') next)))))) next) Pass"

definition testBatchAppliesPerRowValues :: script where
  "testBatchAppliesPerRowValues =
     suite_enqueue [suite_row ''soon'' ''q'', suite_row ''later'' ''q''] (\<lambda>_.
     claimOne ''q'' (\<lambda>soon. claimOne ''q'' (\<lambda>later.
     ok_of ''err'' (call_retry T0 [(ID soon, Generation soon, after minute, attempt_err T0 1 ''first''),
                                 (ID later, Generation later, after hour, attempt_err T0 1 ''second'')]) (
     refetchAfterRetry ''q'' (after minute) (\<lambda>got.
     check (ID got = ID soon) ''each row carries its own At'' (
     check (map ae_err (Errors got) = [''first'']) ''each row carries its own Err'' (
     suite_fetch ''q'' 1 (after minute) (\<lambda>extra.
     check (extra = []) ''each row must keep its own At'' (
     suite_enqueue [suite_row ''s1'' ''s'', suite_row ''s2'' ''s''] (\<lambda>_.
     claimOne ''s'' (\<lambda>s1. claimOne ''s'' (\<lambda>s2.
     ok_of ''err'' (call_snooze T0 [(ID s1, Generation s1, after (2 * minute), RawNil), (ID s2, Generation s2, after (3 * hour), RawNil)]) (
     refetchAfterRetry ''s'' (after (2 * minute)) (\<lambda>got.
     check (ID got = ID s1) ''each row carries its own At'' (
     suite_fetch ''s'' 1 (after (2 * minute)) (\<lambda>extra.
     check (extra = []) ''each row must keep its own At'' Pass))))))))))))))))"

subsection \<open>Heartbeats and maintenance\<close>

definition beat_ok :: "op \<Rightarrow> (int list \<Rightarrow> script) \<Rightarrow> script" where
  "beat_ok x k = beat_of x (\<lambda>res. case res of Inl err \<Rightarrow> fatal_err | Inr ids \<Rightarrow> k ids)"

definition testHeartbeatRenewsOnlyRunning :: script where
  "testHeartbeatRenewsOnlyRunning =
     suite_enqueue [suite_row ''a'' ''q''] (\<lambda>_.
     claimOne ''q'' (\<lambda>c.
     let later = after (45 * second) in
     beat_ok (call_heartbeat ''c1'' later [tok c, (999999, 1)]) (\<lambda>ids.
     check (ids = []) ''no cancels requested'' (
     count_ok (call_rescue (time_Add later (59 * second)) minute 100) (\<lambda>rescued.
     check (rescued = 0) ''freshly heartbeated job must not be rescued'' Pass)))))"

text \<open>The calls of the goroutines are all the same, so they are served one after the other.\<close>

primrec counts_then :: "nat \<Rightarrow> op \<Rightarrow> int \<Rightarrow> (int \<Rightarrow> script) \<Rightarrow> script" where
  "counts_then 0 x acc k = k acc"
| "counts_then (Suc n) x acc k = count_ok x (\<lambda>m. counts_then n x (acc + m) k)"

definition testMoveDueIdempotent :: script where
  "testMoveDueIdempotent =
     suite_enqueue (replicate 50 ((suite_row ''k'' ''q'')\<lparr>ScheduledAt := after second\<rparr>)) (\<lambda>_.
     counts_then 4 (call_move (after minute) 1000) 0 (\<lambda>moved.
     check (moved = 50) ''concurrent MoveDue moved'' Pass))"

definition testRescueStaleRespectsTTL :: script where
  "testRescueStaleRespectsTTL =
     suite_enqueue [suite_row ''a'' ''q'', suite_row ''b'' ''q''] (\<lambda>_.
     claimOne ''q'' (\<lambda>c1. claimOne ''q'' (\<lambda>_.
     beat_ok (call_heartbeat ''c1'' (after (40 * second)) [tok c1]) (\<lambda>_.
     count_ok (call_rescue (after (70 * second)) minute 100) (\<lambda>n.
     check (n = 1) ''rescued, want 1 (only the silent job)'' Pass)))))"

definition testRescueFencing :: script where
  "testRescueFencing =
     suite_enqueue [suite_row ''a'' ''q''] (\<lambda>_.
     claimOne ''q'' (\<lambda>c.
     count_ok (call_rescue (after (2 * minute)) minute 10) (\<lambda>_.
     error_of (call_complete (after (3 * minute)) [tok c]) (\<lambda>err.
     check (is_error err ErrStaleAttempt) ''finalize after rescue must be stale'' (
     refetchAfterRetry ''q'' (after (4 * minute)) (\<lambda>r.
     check (Attempt r = 2 \<and> Generation r = 2) ''re-claim after rescue'' Pass))))))"

definition testCleanHonorsRetention :: script where
  "testCleanHonorsRetention =
     suite_enqueue [suite_row ''a'' ''q'', suite_row ''b'' ''q''] (\<lambda>_.
     claimOne ''q'' (\<lambda>c1. claimOne ''q'' (\<lambda>c2.
     ok_of ''err'' (call_complete T0 [tok c1]) (
     ok_of ''err'' (call_complete (after (20 * hour)) [tok c2]) (
     count_ok (call_clean (after (25 * hour)) (24 * hour) (7 * 24 * hour) (7 * 24 * hour) 100) (\<lambda>n.
     check (n = 1) ''cleaned, want 1 (only the 25h-old completed job)'' Pass))))))"

definition testStaleHeartbeatDoesNotRenew :: script where
  "testStaleHeartbeatDoesNotRenew =
     suite_enqueue [suite_row ''a'' ''q''] (\<lambda>_.
     claimOne ''q'' (\<lambda>first.
     count_of (call_rescue (after (2 * minute)) minute 10) (\<lambda>res.
     check (res = Inr 1) ''rescue'' (
     refetchAfterRetry ''q'' (after (3 * minute)) (\<lambda>snd.
     beat_ok (call_heartbeat ''old'' (after (10 * minute)) [tok first]) (\<lambda>_.
     count_ok (call_rescue (after (10 * minute)) minute 10) (\<lambda>rescued.
     check (rescued = 1) ''stale heartbeat must not keep the reclaimed job alive'' (
     error_of (call_complete (after (11 * minute)) [tok snd]) (\<lambda>err.
     check (is_error err ErrStaleAttempt) ''rescued execution finalize must be fenced'' Pass)))))))))"

definition testHeartbeatIgnoresStaleEntries :: script where
  "testHeartbeatIgnoresStaleEntries =
     suite_enqueue [suite_row ''renewed'' ''q'', suite_row ''ignored'' ''q''] (\<lambda>_.
     claimOne ''q'' (\<lambda>renewed. claimOne ''q'' (\<lambda>ignored.
     beat_ok (call_heartbeat ''c1'' (after minute) [tok renewed, (ID ignored, Generation ignored + 1)]) (\<lambda>_.
     count_ok (call_rescue (after (90 * second)) minute 10) (\<lambda>n.
     check (n = 1) ''a heartbeat at the wrong generation must renew nothing'' Pass)))))"

definition testCleanLimitIsGlobal :: script where
  "testCleanLimitIsGlobal =
     for_each [0..<6] (\<lambda>_ next. suite_enqueue [suite_row ''sweep'' ''q''] (\<lambda>_. next)) (
     claims_then 6 ''q'' (\<lambda>claims.
     ok_of ''err'' (call_complete T0 (map tok (take 2 claims))) (
     ok_of ''err'' (call_cancel T0 (map (\<lambda>c. (ID c, Generation c, [])) (take 2 (drop 2 claims)))) (
     ok_of ''err'' (call_kill T0 (map (\<lambda>c. (ID c, Generation c, attempt_err T0 3 ''fatal'')) (drop 4 claims))) (
     for_each [3, 3, 0] (\<lambda>want next.
       count_ok (call_clean (after (48 * hour)) hour hour hour 3) (\<lambda>n.
       check (n = want) ''Limit is one global cap across all terminal states'' next)) Pass)))))"

text \<open>Four rescuers and four cleaners; \<open>order\<close> says whose call is served next.\<close>

primrec sweeps_then :: "bool list \<Rightarrow> int \<Rightarrow> int \<Rightarrow> (int \<Rightarrow> int \<Rightarrow> script) \<Rightarrow> script" where
  "sweeps_then [] rescued cleaned k = k rescued cleaned"
| "sweeps_then (s # order) rescued cleaned k =
     (if s then count_ok (call_rescue (after hour) minute 100) (\<lambda>n. sweeps_then order (rescued + n) cleaned k)
      else count_ok (call_clean (after (48 * hour)) hour hour hour 100) (\<lambda>n. sweeps_then order rescued (cleaned + n) k))"

definition testConcurrentSweepsDoNotDoubleCount :: "bool list \<Rightarrow> script" where
  "testConcurrentSweepsDoNotDoubleCount order =
     for_each [0..<20] (\<lambda>_ next. suite_enqueue [suite_row ''sweep'' ''q''] (\<lambda>_. next)) (
     claims_then 20 ''q'' (\<lambda>claims.
     for_each (take 10 claims) (\<lambda>c next. ok_of ''err'' (call_complete T0 [tok c]) next) (
     sweeps_then order 0 0 (\<lambda>rescued cleaned.
     check (rescued = 10) ''no job may be rescued twice'' (
     check (cleaned = 10) ''no row may be deleted twice'' Pass)))))"

definition testRescuedJobKeepsPriorityBoost :: script where
  "testRescuedJobKeepsPriorityBoost =
     suite_enqueue [(suite_row ''boosted'' ''q'')\<lparr>PriorityBoost := hour\<rparr>] (\<lambda>rows.
     claimOne ''q'' (\<lambda>_.
     let rescueAt = after (2 * hour) in
     count_ok (call_rescue rescueAt minute 10) (\<lambda>_.
     rows_of (OpEnqueue \<lparr>ep_Jobs = [(suite_row ''fresh'' ''q'')\<lparr>ScheduledAt := time_Add rescueAt (- (30 * minute))\<rparr>], ep_Now = rescueAt\<rparr>) (\<lambda>res.
     check (\<not> isl res) ''err'' (
     count_ok (call_move rescueAt 100) (\<lambda>_.
     suite_fetch ''q'' 2 rescueAt (\<lambda>got.
     check (length got = 2) ''fetched rows'' (
     check (ID (got ! 0) = ID (rows ! 0)) ''a rescue must re-apply the job's boost to its new priority instant'' (
     check (PriorityBoost (got ! 0) = hour) ''a rescue must not clear it'' Pass)))))))))"

definition finalize_as :: "job_state \<Rightarrow> job_row \<Rightarrow> op" where
  "finalize_as st c =
     (case st of
        StateCancelled \<Rightarrow> call_cancel T0 [(ID c, Generation c, ''stop'')]
      | StateDead \<Rightarrow> call_kill T0 [(ID c, Generation c, attempt_err T0 (Attempt c) ''fatal'')]
      | _ \<Rightarrow> call_complete T0 [tok c])"

definition testCleanDistinguishesTerminalStates :: script where
  "testCleanDistinguishesTerminalStates =
     (let states = [StateCompleted, StateCancelled, StateDead] in
      for_each states (\<lambda>short next.
        for_each states (\<lambda>st next.
          suite_enqueue [suite_row ''term'' ''q''] (\<lambda>_.
          claimOne ''q'' (\<lambda>c. ok_of ''err'' (finalize_as st c) next))) (
        let retention = (\<lambda>st. if st = short then hour else 100 * hour) in
        count_ok (call_clean (after (2 * hour)) (retention StateCompleted) (retention StateCancelled) (retention StateDead) 100) (\<lambda>n.
        check (n = 1) ''Complete, Cancel, and Kill must each record their own terminal State'' (
        count_ok (call_clean (after (1000 * hour)) hour hour hour 100) (\<lambda>n.
        check (n = 2) ''the other two terminal jobs must still exist'' next))))) Pass)"

subsection \<open>The range of instants\<close>

definition rejected :: "op \<Rightarrow> string \<Rightarrow> script \<Rightarrow> script" where
  "rejected x msg k = rows_of x (\<lambda>res. check (case res of Inl err \<Rightarrow> errors_Is err ErrTimeOutOfRange | Inr _ \<Rightarrow> False) msg k)"

definition testRejectsInstantsOutsideRange :: script where
  "testRejectsInstantsOutsideRange =
     (let far = time_Add MaxInstant hour; bad = (suite_row ''bad'' ''q'')\<lparr>ScheduledAt := far\<rparr> in
      rejected (OpEnqueue \<lparr>ep_Jobs = [(suite_row ''beyond'' ''q'')\<lparr>ScheduledAt := far\<rparr>], ep_Now = T0\<rparr>) ''enqueue scheduled beyond MaxInstant'' (
      rejected (OpEnqueue \<lparr>ep_Jobs = [(suite_row ''underflow'' ''q'')\<lparr>ScheduledAt := MinInstant, PriorityBoost := hour\<rparr>], ep_Now = T0\<rparr>)
        ''enqueue whose boost underflows MinInstant'' (
      rejected (OpEnqueue \<lparr>ep_Jobs = [suite_row ''good'' ''q'', bad], ep_Now = T0\<rparr>) ''a batch containing an unstorable row'' (
      suite_fetch ''q'' 10 T0 (\<lambda>got.
      check (got = []) ''a rejected batch must store none of its rows'' (
      suite_enqueue [suite_row ''live'' ''q''] (\<lambda>_. claimOne ''q'' (\<lambda>c.
      suite_enqueue [suite_row ''other'' ''q''] (\<lambda>_. claimOne ''q'' (\<lambda>other.
      error_of (call_retry T0 [(ID other, Generation other, after minute, attempt_err zero_time 0 []),
                             (ID c, Generation c, far, attempt_err zero_time 0 [])]) (\<lambda>err.
      check (is_error err ErrTimeOutOfRange) ''retry batch containing an unstorable entry'' (
      ok_of ''a valid entry in a rejected retry batch must remain running and finalizable'' (call_complete T0 [tok other]) (
      error_of (call_snooze T0 [(ID c, Generation c, far, RawNil)]) (\<lambda>err.
      check (is_error err ErrTimeOutOfRange) ''snooze scheduled beyond MaxInstant'' (
      ok_of ''a rejected finalization must leave the job running and its generation intact''
        (call_retry T0 [(ID c, Generation c, after minute, attempt_err T0 1 ''boom'')]) Pass)))))))))))))))"

definition testAcceptsRangeBoundaries :: script where
  "testAcceptsRangeBoundaries =
     suite_enqueue [(suite_row ''lo'' ''q'')\<lparr>ScheduledAt := MinInstant\<rparr>, (suite_row ''hi'' ''q'')\<lparr>ScheduledAt := MaxInstant\<rparr>] (\<lambda>rows.
     suite_fetch ''q'' 10 T0 (\<lambda>loGot.
     check (map ID loGot = [ID (rows ! 0)]) ''at T0 only the MinInstant job is due'' (
     check (PriorityAt (loGot ! 0) = MinInstant) ''the stored MinInstant job has PriorityAt'' (
     refetchAfterRetry ''q'' MaxInstant (\<lambda>hiGot.
     check (ID hiGot = ID (rows ! 1)) ''at MaxInstant the due job is'' (
     check (PriorityAt hiGot = MaxInstant) ''the stored MaxInstant job has PriorityAt'' Pass))))))"

definition testDerivedPriorityClamps :: script where
  "testDerivedPriorityClamps =
     (let near = time_Add MinInstant hour; boosted = (\<lambda>kind queue. (suite_row kind queue)\<lparr>PriorityBoost := 2 * hour\<rparr>) in
      suite_enqueue [boosted ''retried'' ''q''] (\<lambda>_. claimOne ''q'' (\<lambda>c.
      ok_of ''a retry whose stored boost underflows the range must succeed''
        (call_retry T0 [(ID c, Generation c, near, attempt_err T0 1 ''boom'')]) (
      refetchAfterRetry ''q'' T0 (\<lambda>got.
      check (PriorityAt got = MinInstant) ''retried job's PriorityAt, want it pinned to MinInstant'' (
      suite_enqueue [boosted ''snoozed'' ''s''] (\<lambda>_. claimOne ''s'' (\<lambda>s.
      ok_of ''a snooze whose stored boost underflows the range must succeed'' (call_snooze T0 [(ID s, Generation s, near, RawNil)]) (
      refetchAfterRetry ''s'' T0 (\<lambda>got.
      check (PriorityAt got = MinInstant) ''snoozed job's PriorityAt, want it pinned to MinInstant'' (
      suite_enqueue [boosted ''rescued'' ''r''] (\<lambda>_. claimOne ''r'' (\<lambda>rc.
      ok_of ''err'' (call_retry T0 [(ID rc, Generation rc, near, attempt_err T0 1 ''boom'')]) (
      refetchAfterRetry ''r'' near (\<lambda>_.
      count_of (call_rescue (time_Add near (2 * minute)) minute 10) (\<lambda>res.
      check (\<not> isl res) ''a rescue whose stored boost underflows the range must succeed'' (
      check (res = Inr 1) ''the stale job must be recoverable'' (
      refetchAfterRetry ''r'' (time_Add near (2 * minute)) (\<lambda>got.
      check (PriorityAt got = MinInstant) ''rescued job's PriorityAt, want it pinned to MinInstant'' Pass)))))))))))))))))))"

subsection \<open>Metadata and history\<close>

definition testNilMetadataRoundTrips :: script where
  "testNilMetadataRoundTrips =
     suite_enqueue [(suite_row ''meta'' ''q'')\<lparr>Metadata := RawNil\<rparr>] (\<lambda>_.
     claimOne ''q'' (\<lambda>c.
     let (err, m) = Unmarshal_map (Metadata c) None; present = has_bytes (Metadata c) in
     check (\<not> (present \<and> err \<noteq> None)) ''nil metadata came back as invalid JSON'' (
     check (\<not> (present \<and> m = None)) ''want an absent value or an empty JSON object, not a JSON null'' (
     check (\<not> (present \<and> m \<noteq> Some [])) ''nil metadata came back carrying keys'' (
     ok_of ''a job with no metadata must still finalize'' (call_complete T0 [tok c]) Pass)))))"

text \<open>A number of a document as the \<^verbatim>\<open>float64\<close> that decoding into \<^verbatim>\<open>any\<close> gives.\<close>

fun is_number :: "int \<Rightarrow> json option \<Rightarrow> bool" where
  "is_number v (Some (JInt n)) \<longleftrightarrow> n = v"
| "is_number v (Some (JFloat q)) \<longleftrightarrow> q = of_int v"
| "is_number v _ \<longleftrightarrow> False"

definition requireMetaEquals :: "string \<Rightarrow> raw \<Rightarrow> (string \<times> int) list \<Rightarrow> script \<Rightarrow> script" where
  "requireMetaEquals when got want k =
     (let (err, m) = Unmarshal_map got None; kvs = (case m of None \<Rightarrow> [] | Some kvs \<Rightarrow> kvs) in
      check (err = None) (when @ '': metadata is not valid JSON'') (
      check (length kvs = length want \<and> list_all (\<lambda>(key, v). is_number v (map_of kvs key)) want) (when @ '': metadata is'') k))"

definition testMetadataRoundTripsThroughLifecycle :: script where
  "testMetadataRoundTripsThroughLifecycle =
     suite_enqueue [(suite_row ''meta'' ''q'')\<lparr>Metadata := RawJson (JObj [(''a'', JInt 1)])\<rparr>] (\<lambda>_.
     claimOne ''q'' (\<lambda>c.
     requireMetaEquals ''after enqueue'' (Metadata c) [(''a'', 1)] (
     ok_of ''err'' (call_snooze T0 [(ID c, Generation c, after minute, RawJson (JObj [(''b'', JInt 2)]))]) (
     refetchAfterRetry ''q'' (after minute) (\<lambda>c2.
     requireMetaEquals ''after a snooze that supplied new metadata'' (Metadata c2) [(''b'', 2)] (
     ok_of ''err'' (call_retry (after minute) [(ID c2, Generation c2, after (2 * minute), attempt_err (after minute) (Attempt c2) ''boom'')]) (
     refetchAfterRetry ''q'' (after (2 * minute)) (\<lambda>c3.
     requireMetaEquals ''after a retry with empty Metadata'' (Metadata c3) [(''b'', 2)] Pass))))))))"

definition testErrorHistoryAccumulates :: script where
  "testErrorHistoryAccumulates =
     suite_enqueue [suite_row ''retried'' ''q''] (\<lambda>_.
     claimOne ''q'' (\<lambda>c.
     ok_of ''err'' (call_retry T0 [(ID c, Generation c, after minute, attempt_err T0 (Attempt c) ''first failure'')]) (
     refetchAfterRetry ''q'' (after minute) (\<lambda>c2.
     ok_of ''err'' (call_retry (after minute) [(ID c2, Generation c2, after (2 * minute), attempt_err (after minute) (Attempt c2) ''second failure'')]) (
     refetchAfterRetry ''q'' (after (2 * minute)) (\<lambda>c3.
     check (map ae_err (Errors c3) = [''first failure'', ''second failure'']) ''the history must accumulate, not be replaced'' Pass))))))"

end
