(* ===== verification/Suite_Run.thy ===== *)
theory Suite_Run
  imports Suite_Tests Postgres_Spec
begin

text \<open>
  The memory backend on a list of rows, in the order of their IDs: an executable stand-in for the map, equal to
  it call by call, on which the scripts of the conformance suite are evaluated.
\<close>

subsection \<open>Rows as a list\<close>

definition lookup :: "job_row list \<Rightarrow> int \<Rightarrow> job_row option" where
  "lookup xs = map_of (map (\<lambda>j. (ID j, j)) xs)"

type_synonym lstore = "int \<times> job_row list"

definition abs_of :: "lstore \<Rightarrow> mem" where
  "abs_of l = \<lparr>nextID = fst l, jobs = lookup (snd l)\<rparr>"

definition listed :: "lstore \<Rightarrow> bool" where
  "listed l \<longleftrightarrow> 0 \<le> fst l \<and> distinct (map ID (snd l)) \<and> (\<forall>j\<in>set (snd l). 1 \<le> ID j \<and> ID j \<le> fst l)"

lemma abs_of_sel [simp]: "nextID (abs_of l) = fst l" "jobs (abs_of l) = lookup (snd l)"
  by (simp_all add: abs_of_def)

lemma lookup_Nil [simp]: "lookup [] i = None"
  by (simp add: lookup_def)

lemma lookup_Cons [simp]: "lookup (j # xs) i = (if i = ID j then Some j else lookup xs i)"
  by (simp add: lookup_def)

lemma lookup_Some: "distinct (map ID xs) \<Longrightarrow> lookup xs i = Some j \<longleftrightarrow> j \<in> set xs \<and> ID j = i"
  by (induction xs) (auto simp: rev_image_eqI)

lemma lookup_None: "lookup xs i = None \<longleftrightarrow> i \<notin> ID ` set xs"
  by (induction xs) auto

lemma lookup_map: "(\<And>j. j \<in> set xs \<Longrightarrow> ID (g j) = ID j) \<Longrightarrow> lookup (map g xs) i = map_option g (lookup xs i)"
  by (induction xs) auto

lemma lookup_ID: "lookup xs i = Some j \<Longrightarrow> ID j = i"
  by (induction xs) (auto split: if_splits)

lemma lookup_update:
  assumes "\<And>j. ID (g j) = ID j" "lookup xs i = Some j"
  shows "lookup (map (\<lambda>j. if ID j = i then g j else j) xs) = (lookup xs)(i \<mapsto> g j)"
proof
  fix k
  show "lookup (map (\<lambda>j. if ID j = i then g j else j) xs) k = ((lookup xs)(i \<mapsto> g j)) k"
  proof (cases "lookup xs k")
    case (Some j')
    then show ?thesis using assms lookup_ID [OF Some] by (subst lookup_map) auto
  qed (use assms in \<open>subst lookup_map; auto\<close>)
qed

lemma lookup_append: "i \<notin> ID ` set ys \<Longrightarrow> lookup (xs @ ys) i = lookup xs i"
  by (induction xs) (auto simp: lookup_None)

lemma lookup_snoc: "ID j \<notin> ID ` set xs \<Longrightarrow> lookup (xs @ [j]) = (lookup xs)(ID j \<mapsto> j)"
  by (induction xs) (auto simp: fun_eq_iff)

lemma lookup_filter:
  "distinct (map ID xs) \<Longrightarrow> lookup (filter P xs) i = (case lookup xs i of None \<Rightarrow> None | Some j \<Rightarrow> if P j then Some j else None)"
  by (induction xs) (auto simp: lookup_None split: option.split)

lemma hit_lookup: "distinct (map ID xs) \<Longrightarrow> hit P (lookup xs) i \<longleftrightarrow> (\<exists>j\<in>set xs. ID j = i \<and> P j)"
  by (auto simp: hit_iff lookup_Some)

lemma listed_ids_ok: "listed l \<Longrightarrow> ids_ok (abs_of l)"
  by (auto simp: listed_def ids_ok_def lookup_Some)

lemma abs_of_New: "abs_of (0, []) = New"
  by (simp add: abs_of_def New_def lookup_def)

lemma listed_ranges: "listed l \<Longrightarrow> ranges (map ID (snd l)) (abs_of l)"
  by (simp add: ranges_def listed_def dom_def lookup_None)

subsection \<open>The calls\<close>

fun l_store :: "instant \<Rightarrow> (job_row \<times> instant) list \<Rightarrow> lstore \<Rightarrow> job_row list \<times> lstore" where
  "l_store now [] l = ([], l)"
| "l_store now ((j, p) # js) (n, xs) =
     (let j' = stamp_row now (n + 1) p j; (rows, l) = l_store now js (n + 1, xs @ [j']) in (j' # rows, l))"

fun l_final :: "('e \<Rightarrow> int) \<Rightarrow> ('e \<Rightarrow> int) \<Rightarrow> instant \<Rightarrow> ('e \<Rightarrow> job_row \<Rightarrow> job_row) \<Rightarrow> 'e list \<Rightarrow> job_row list
    \<Rightarrow> int list \<times> job_row list" where
  "l_final idf gen now app [] xs = ([], xs)"
| "l_final idf gen now app (f # fs) xs =
     (if list_ex (\<lambda>j. ID j = idf f \<and> running_at (gen f) j) xs
      then l_final idf gen now app fs (map (\<lambda>j. if ID j = idf f then app f (j\<lparr>FinalizedAt := now\<rparr>) else j) xs)
      else (let (stale, xs') = l_final idf gen now app fs xs in (idf f # stale, xs')))"

definition l_finalize ::
  "('e \<Rightarrow> int) \<Rightarrow> ('e \<Rightarrow> int) \<Rightarrow> instant \<Rightarrow> ('e \<Rightarrow> job_row \<Rightarrow> job_row) \<Rightarrow> 'e list \<Rightarrow> lstore \<Rightarrow> reply \<times> lstore" where
  "l_finalize idf gen now app fs l =
     (let (stale, xs) = l_final idf gen now app fs (snd l)
      in (Finalized (if stale \<noteq> [] then Some (StaleError stale) else None), (fst l, xs)))"

fun l_beat :: "instant \<Rightarrow> job_heartbeat list \<Rightarrow> job_row list \<Rightarrow> int list \<times> job_row list" where
  "l_beat now [] xs = ([], xs)"
| "l_beat now (hb # hbs) xs =
     (if list_ex (\<lambda>j. ID j = jh_ID hb \<and> running_at (jh_Generation hb) j) xs
      then (let (res, xs') = l_beat now hbs (map (\<lambda>j. if ID j = jh_ID hb then j\<lparr>HeartbeatAt := now\<rparr> else j) xs)
            in (if list_ex (\<lambda>j. ID j = jh_ID hb \<and> CancelRequested j) xs then jh_ID hb # res else res, xs'))
      else l_beat now hbs xs)"

text \<open>The IDs a sweep picks in the order \<open>ord\<close>, and in the order of the list when the limit cuts nothing.\<close>

definition l_sweep :: "(job_row \<Rightarrow> bool) \<Rightarrow> (job_row \<Rightarrow> job_row) \<Rightarrow> int list \<Rightarrow> lstore \<Rightarrow> reply \<times> lstore" where
  "l_sweep P f ids l = (Counted (Inr (int (length ids))), (fst l, map (\<lambda>j. if ID j \<in> set ids then f j else j) (snd l)))"

fun lexec :: "op \<Rightarrow> lstore \<Rightarrow> reply \<times> lstore" where
  "lexec (OpEnqueue p) l =
     (case enqueue_prio (ep_Now p) (ep_Jobs p) of
        Inl err \<Rightarrow> (Enqueued (Inl err), l)
      | Inr prio \<Rightarrow> (let (rows, l') = l_store (ep_Now p) (zip (ep_Jobs p) prio) l in (Enqueued (Inr rows), l')))"
| "lexec (OpFetch ord p) l =
     (if fp_Limit p < 0 then (Fetched (Inl (PanicError ''slice bounds out of range'' [])), l)
      else (let got = take (nat (fp_Limit p)) (sort_key prio_key (filter (due p) (snd l))); ids = map ID got
            in (Fetched (Inr (map (claim p) got)), (fst l, map (\<lambda>j. if ID j \<in> set ids then claim p j else j) (snd l)))))"
| "lexec (OpComplete p) l = l_finalize jf_ID jf_Generation (cp_Now p) apply_complete (cp_Jobs p) l"
| "lexec (OpRetry p) l =
     (case validate_all (map jr_At (rp_Jobs p)) of
        Some err \<Rightarrow> (Finalized (Some err), l)
      | None \<Rightarrow> l_finalize jr_ID jr_Generation (rp_Now p) apply_retry (rp_Jobs p) l)"
| "lexec (OpCancel p) l = l_finalize jc_ID jc_Generation (xp_Now p) (apply_cancel (xp_Now p)) (xp_Jobs p) l"
| "lexec (OpKill p) l = l_finalize jk_ID jk_Generation (kp_Now p) apply_kill (kp_Jobs p) l"
| "lexec (OpSnooze p) l =
     (case validate_all (map js_At (sp_Jobs p)) of
        Some err \<Rightarrow> (Finalized (Some err), l)
      | None \<Rightarrow> l_finalize js_ID js_Generation (sp_Now p) apply_snooze (sp_Jobs p) l)"
| "lexec (OpHeartbeat p) l = (let (res, xs) = l_beat (hp_Now p) (hp_Jobs p) (snd l) in (Beaten (Inr res), (fst l, xs)))"
| "lexec (OpMoveDue ord p) l =
     l_sweep (movable (mp_Now p)) (\<lambda>j. j\<lparr>State := StateAvailable\<rparr>) (picked (movable (mp_Now p)) (mp_Limit p) ord (lookup (snd l))) l"
| "lexec (OpRescueStale ord p) l =
     l_sweep (stale_since (rescue_cutoff p)) (rescue_row (sr_Now p)) (picked (stale_since (rescue_cutoff p)) (sr_Limit p) ord (lookup (snd l))) l"
| "lexec (OpClean ord p) l =
     (let ids = picked (expired p) (cl_Limit p) ord (lookup (snd l))
      in (Counted (Inr (int (length ids))), (fst l, filter (\<lambda>j. ID j \<notin> set ids) (snd l))))"
| "lexec (OpSetCancelRequested i) l = (Done, (fst l, map (\<lambda>j. if ID j = i then j\<lparr>CancelRequested := True\<rparr> else j) (snd l)))"
| "lexec OpReset l = (Done, (fst l, []))"

subsection \<open>Agreement\<close>

lemma l_store_agrees:
  "listed l \<Longrightarrow> enqueue_store now js (abs_of l) = (let (rows, l') = l_store now js l in (rows, abs_of l')) \<and> listed (snd (l_store now js l))"
proof (induction now js l rule: l_store.induct)
  case (2 now j p js n xs)
  have i: "ID (stamp_row now (n + 1) p j) = n + 1" by (simp add: stamp_row_def Let_def)
  have l: "listed (n + 1, xs @ [stamp_row now (n + 1) p j])" using "2.prems" by (auto simp: listed_def i)
  have "ID (stamp_row now (n + 1) p j) \<notin> ID ` set xs" using "2.prems" by (auto simp: listed_def i)
  from lookup_snoc [OF this]
  have "abs_of (n + 1, xs @ [stamp_row now (n + 1) p j]) = (abs_of (n, xs))\<lparr>nextID := n + 1, jobs := (lookup xs)(n + 1 \<mapsto> stamp_row now (n + 1) p j)\<rparr>"
    by (simp add: abs_of_def i)
  with "2.IH" [OF refl l] l show ?case by (simp add: Let_def case_prod_beta)
qed simp

lemma held_lookup:
  assumes "distinct (map ID xs)"
  shows "hit (running_at g) (lookup xs) i \<longleftrightarrow> list_ex (\<lambda>j. ID j = i \<and> running_at g j) xs"
  using assms by (simp add: hit_lookup list_ex_iff)

lemma lookup_upd:
  assumes "\<And>j. ID (g j) = ID j" "hit P (lookup xs) i"
  shows "lookup (map (\<lambda>j. if ID j = i then g j else j) xs) = (lookup xs)(i \<mapsto> g (the (lookup xs i)))"
  using assms lookup_update [where g = g, OF assms(1)] by (auto simp: hit_iff)

lemma map_ID_upd: "(\<And>j. ID (g j) = ID j) \<Longrightarrow> map ID (map (\<lambda>j. if P j then g j else j) xs) = map ID xs"
  by simp

lemma l_final_agrees:
  assumes app: "\<And>f j. ID (app f j) = ID j"
  shows "distinct (map ID xs) \<Longrightarrow>
    finalize_loop idf gen now app fs (lookup xs) = (let (stale, xs') = l_final idf gen now app fs xs in (stale, lookup xs')) \<and>
    map ID (snd (l_final idf gen now app fs xs)) = map ID xs"
proof (induction fs arbitrary: xs)
  case (Cons f fs)
  have g: "ID (app f (j\<lparr>FinalizedAt := now\<rparr>)) = ID j" for j by (simp add: app)
  define ys where "ys = map (\<lambda>j. if ID j = idf f then app f (j\<lparr>FinalizedAt := now\<rparr>) else j) xs"
  have ids: "map ID ys = map ID xs" unfolding ys_def by (rule map_ID_upd [OF g])
  note h = held_lookup [OF Cons.prems, of "gen f" "idf f"]
  show ?case
  proof (cases "hit (running_at (gen f)) (lookup xs) (idf f)")
    case True
    note u = lookup_upd [where g = "\<lambda>j. app f (j\<lparr>FinalizedAt := now\<rparr>)", OF g True, folded ys_def]
    have "finalize_loop idf gen now app (f # fs) (lookup xs) = finalize_loop idf gen now app fs (lookup ys)"
      using True by (simp add: u)
    moreover have "l_final idf gen now app (f # fs) xs = l_final idf gen now app fs ys" using True h by (simp add: ys_def)
    ultimately show ?thesis using Cons.IH [of ys] Cons.prems by (simp only: ids)
  next
    case False
    then show ?thesis using Cons.IH [OF Cons.prems] h by (simp add: case_prod_beta Let_def)
  qed
qed simp

lemma l_beat_agrees:
  "distinct (map ID xs) \<Longrightarrow>
    heartbeat_loop now hbs (lookup xs) = (let (res, xs') = l_beat now hbs xs in (res, lookup xs')) \<and>
    map ID (snd (l_beat now hbs xs)) = map ID xs"
proof (induction hbs arbitrary: xs)
  case (Cons hb hbs)
  have g: "ID (j\<lparr>HeartbeatAt := now\<rparr>) = ID j" for j by simp
  define ys where "ys = map (\<lambda>j. if ID j = jh_ID hb then j\<lparr>HeartbeatAt := now\<rparr> else j) xs"
  have ids: "map ID ys = map ID xs" unfolding ys_def by (rule map_ID_upd [OF g])
  note h = held_lookup [OF Cons.prems, of "jh_Generation hb" "jh_ID hb"]
  show ?case
  proof (cases "hit (running_at (jh_Generation hb)) (lookup xs) (jh_ID hb)")
    case True
    note u = lookup_upd [where g = "\<lambda>j. j\<lparr>HeartbeatAt := now\<rparr>", OF g True, folded ys_def]
    obtain j where j: "lookup xs (jh_ID hb) = Some j" using True by (auto simp: hit_iff)
    have c: "list_ex (\<lambda>j. ID j = jh_ID hb \<and> CancelRequested j) xs \<longleftrightarrow> CancelRequested j"
    proof -
      have "(\<exists>x\<in>set xs. ID x = jh_ID hb \<and> CancelRequested x) \<longleftrightarrow> hit CancelRequested (lookup xs) (jh_ID hb)"
        using hit_lookup [OF Cons.prems, of CancelRequested "jh_ID hb"] by simp
      then show ?thesis by (simp add: list_ex_iff j hit_def)
    qed
    have "heartbeat_loop now (hb # hbs) (lookup xs) =
        (let (res, m') = heartbeat_loop now hbs (lookup ys) in (if CancelRequested j then jh_ID hb # res else res, m'))"
      using True by (simp add: u j)
    moreover have "l_beat now (hb # hbs) xs =
        (let (res, xs') = l_beat now hbs ys in (if CancelRequested j then jh_ID hb # res else res, xs'))"
      using True h c by (simp add: ys_def)
    ultimately show ?thesis using Cons.IH [of ys] Cons.prems unfolding ids by (simp add: case_prod_beta Let_def)
  next
    case False
    then show ?thesis using Cons.IH [OF Cons.prems] h by simp
  qed
qed simp

lemma listed_map: "listed l \<Longrightarrow> map ID xs = map ID (snd l) \<Longrightarrow> listed (fst l, xs)"
proof -
  assume l: "listed l" "map ID xs = map ID (snd l)"
  from arg_cong [OF l(2), of set] have "ID ` set xs = ID ` set (snd l)" by simp
  then show ?thesis using l unfolding listed_def fst_conv snd_conv by (metis (no_types, lifting) imageE image_eqI)
qed

lemma abs_of_map:
  "(\<And>j. ID (g j) = ID j) \<Longrightarrow>
   abs_of (fst l, map (\<lambda>j. if P (ID j) then g j else j) (snd l)) = (abs_of l)\<lparr>jobs := \<lambda>i. if P i then map_option g (lookup (snd l) i) else lookup (snd l) i\<rparr>"
  by (auto simp: abs_of_def fun_eq_iff lookup_map map_option_case lookup_ID split: option.split)

lemma l_sweep_agrees:
  "(\<And>j. ID (g j) = ID j) \<Longrightarrow> l_sweep P g ids l = (r, l') \<Longrightarrow>
   r = Counted (Inr (int (length ids))) \<and>
   abs_of l' = (abs_of l)\<lparr>jobs := \<lambda>i. if i \<in> set ids then map_option g (lookup (snd l) i) else lookup (snd l) i\<rparr> \<and> (listed l \<longrightarrow> listed l')"
  using abs_of_map [where P = "\<lambda>i. i \<in> set ids" and g = g and l = l] listed_map [of l]
  by (auto simp: l_sweep_def)

lemma map_insort_key: "map f (insort_key (\<lambda>x. k (f x)) x xs) = insort_key k (f x) (map f xs)"
  by (induction xs) auto

lemma map_sort_key: "map f (sort_key (\<lambda>x. k (f x)) xs) = sort_key k (map f xs)"
  by (induction xs) (simp_all add: map_insort_key)

lemma chosen_listed:
  assumes "listed l"
  shows "chosen (map ID (snd l)) p (abs_of l) = map ID (take (nat (fp_Limit p)) (sort_key prio_key (filter (due p) (snd l))))"
proof -
  have d: "distinct (map ID (snd l))" using assms by (simp add: listed_def)
  have r: "lookup (snd l) (ID j) = Some j" if "j \<in> set (snd l)" for j using that d by (simp add: lookup_Some)
  have f: "filter (hit (due p) (lookup (snd l))) (map ID (snd l)) = map ID (filter (due p) (snd l))"
    unfolding filter_map comp_def by (intro arg_cong [where f = "map ID"] filter_cong) (auto simp: hit_def r)
  have "sort_key (\<lambda>k. prio_key (the (lookup (snd l) k))) (map ID (filter (due p) (snd l))) = map ID (sort_key prio_key (filter (due p) (snd l)))"
    unfolding map_sort_key [symmetric] by (intro arg_cong [where f = "map ID"] sort_key_agree) (auto simp: r)
  then show ?thesis by (simp add: chosen_def candidates_def f take_map)
qed

fun order_ok :: "op \<Rightarrow> mem \<Rightarrow> bool" where
  "order_ok (OpFetch ord p) b \<longleftrightarrow> ranges ord b"
| "order_ok x b \<longleftrightarrow> orders_ok x"

lemma finalize_listed:
  assumes "\<And>f j. ID (app f j) = ID j" "listed l"
  shows "l_finalize idf gen now app fs l = (r, l') \<Longrightarrow>
    (let (err, b') = finalize idf gen now app fs (abs_of l) in (Finalized err, b')) = (r, abs_of l') \<and> listed l'"
  using l_final_agrees [where app = app, OF assms(1), of "snd l" idf gen now fs] assms(2) listed_map [OF assms(2)]
  by (auto simp: l_finalize_def finalize_def listed_def abs_of_def case_prod_beta Let_def)

lemma app_ID:
  "ID (apply_complete f1 j) = ID j" "ID (apply_retry f2 j) = ID j" "ID (apply_cancel now f3 j) = ID j"
  "ID (apply_kill f4 j) = ID j" "ID (apply_snooze f5 j) = ID j" "ID (claim p j) = ID j" "ID (rescue_row now j) = ID j"
  by (simp_all add: step_defs)

lemma lexec_agrees:
  assumes "listed l" "order_ok x (abs_of l)" "lexec x l = (r, l')"
  shows "exec x (abs_of l) = (r, abs_of l') \<and> listed l'"
proof (cases x)
  case (OpEnqueue p)
  then show ?thesis using assms l_store_agrees [OF assms(1)]
    by (auto simp: mem_Enqueue_def case_prod_beta Let_def split: sum.splits)
next
  case (OpFetch ord p)
  define got where "got = take (nat (fp_Limit p)) (sort_key prio_key (filter (due p) (snd l)))"
  have e: "mem_Fetch ord p (abs_of l) = mem_Fetch (map ID (snd l)) p (abs_of l)"
    using assms(2) OpFetch by (intro Fetch_order_irrelevant listed_ranges listed_ids_ok assms(1)) simp
  show ?thesis
  proof (cases "fp_Limit p < 0")
    case False
    have sub: "set got \<subseteq> set (snd l)" by (auto simp: got_def dest: in_set_takeD)
    have m: "map (\<lambda>k. claim p (the (lookup (snd l) k))) (map ID got) = map (claim p) got"
    proof -
      have "lookup (snd l) (ID j) = Some j" if "j \<in> set got" for j
        using that sub assms(1) by (auto simp: listed_def lookup_Some)
      then show ?thesis by simp
    qed
    have "distinct (map ID (snd l))" using assms(1) by (simp add: listed_def)
    from Fetch_eq [OF this, of p "abs_of l"] False
    have "mem_Fetch (map ID (snd l)) p (abs_of l) = (Inr (map (claim p) got),
        (abs_of l)\<lparr>jobs := \<lambda>k. if k \<in> set (map ID got) then map_option (claim p) (lookup (snd l) k) else lookup (snd l) k\<rparr>)"
      by (simp only: chosen_listed [OF assms(1)] got_def [symmetric] abs_of_sel m not_less)
    moreover have "lexec x l = (Fetched (Inr (map (claim p) got)), (fst l, map (\<lambda>j. if ID j \<in> set (map ID got) then claim p j else j) (snd l)))"
      using False by (simp add: OpFetch Let_def got_def)
    ultimately show ?thesis
      using assms(3) e listed_map [OF assms(1)] abs_of_map [where P = "\<lambda>i. i \<in> set (map ID got)" and g = "claim p" and l = l, OF app_ID(6)]
      by (auto simp: OpFetch app_ID)
  qed (use assms e in \<open>auto simp: OpFetch mem_Fetch_def\<close>)
next
  case (OpComplete p)
  then show ?thesis using assms finalize_listed [where app = apply_complete, OF app_ID(1) assms(1)] by (simp add: mem_Complete_def)
next
  case (OpRetry p)
  then show ?thesis using assms finalize_listed [where app = apply_retry, OF app_ID(2) assms(1)]
    by (auto simp: mem_Retry_def split: option.splits)
next
  case (OpCancel p)
  then show ?thesis using assms finalize_listed [where app = "apply_cancel (xp_Now p)", OF app_ID(3) assms(1)] by (simp add: mem_Cancel_def)
next
  case (OpKill p)
  then show ?thesis using assms finalize_listed [where app = apply_kill, OF app_ID(4) assms(1)] by (simp add: mem_Kill_def)
next
  case (OpSnooze p)
  then show ?thesis using assms finalize_listed [where app = apply_snooze, OF app_ID(5) assms(1)]
    by (auto simp: mem_Snooze_def split: option.splits)
next
  case (OpHeartbeat p)
  have "distinct (map ID (snd l))" using assms(1) by (simp add: listed_def)
  from l_beat_agrees [OF this, of "hp_Now p" "hp_Jobs p"] listed_map [OF assms(1)] assms(3)
  show ?thesis by (auto simp: OpHeartbeat mem_Heartbeat_def abs_of_def case_prod_beta Let_def)
next
  case (OpMoveDue ord p)
  then show ?thesis
    using assms l_sweep_agrees [where g = "\<lambda>j. j\<lparr>State := StateAvailable\<rparr>" and r = r and l' = l'] by (simp add: MoveDue_eq cong: if_cong)
next
  case (OpRescueStale ord p)
  then show ?thesis
    using assms l_sweep_agrees [where g = "rescue_row (sr_Now p)" and r = r and l' = l', OF app_ID(7)] by (simp add: RescueStale_eq cong: if_cong)
next
  case (OpClean ord p)
  define ids where "ids = picked (expired p) (cl_Limit p) ord (lookup (snd l))"
  have d: "distinct (map ID (snd l))" using assms(1) by (simp add: listed_def)
  have "lookup (filter (\<lambda>j. ID j \<notin> set ids) (snd l)) i = (if i \<in> set ids then None else lookup (snd l) i)" for i
    using d by (auto simp: lookup_filter dest: lookup_ID split: option.split)
  then have "abs_of l' = (abs_of l)\<lparr>jobs := \<lambda>i. if i \<in> set ids then None else lookup (snd l) i\<rparr>"
    using assms(3) by (auto simp: OpClean ids_def [symmetric] Let_def abs_of_def fun_eq_iff)
  moreover have "listed l'" using assms(1,3) by (auto simp: OpClean Let_def listed_def distinct_map_filter)
  ultimately show ?thesis using assms(2,3) by (auto simp: OpClean Clean_eq ids_def Let_def cong: if_cong)
next
  case (OpSetCancelRequested i)
  have "lookup (map (\<lambda>j. if ID j = i then j\<lparr>CancelRequested := True\<rparr> else j) (snd l)) k =
      (case lookup (snd l) i of None \<Rightarrow> lookup (snd l) | Some j \<Rightarrow> (lookup (snd l))(i \<mapsto> j\<lparr>CancelRequested := True\<rparr>)) k" for k
  proof (cases "lookup (snd l) k")
    case (Some a)
    moreover have "ID a = k" using lookup_ID [OF Some] .
    ultimately show ?thesis by (subst lookup_map) (auto split: option.split dest: lookup_ID)
  next
    case None
    then show ?thesis by (subst lookup_map) (auto split: option.split)
  qed
  then show ?thesis using assms listed_map [OF assms(1)]
    by (auto simp: OpSetCancelRequested SetCancelRequested_def abs_of_def fun_eq_iff split: option.splits)
next
  case OpReset
  then show ?thesis using assms by (auto simp: Reset_def abs_of_def listed_def lookup_def)
qed

end
