(* ===== verification/Suite_Spec.thy ===== *)
theory Suite_Spec
  imports Suite_Run
begin

text \<open>
  The conformance suite is run: over the memory backend for every order in which Go may range over its map, and
  over the PostgreSQL backend through the refinement of one by the other.
\<close>

subsection \<open>Running a script\<close>

fun with_order :: "int list \<Rightarrow> op \<Rightarrow> op" where
  "with_order ord (OpFetch _ p) = OpFetch ord p"
| "with_order ord (OpMoveDue _ p) = OpMoveDue ord p"
| "with_order ord (OpRescueStale _ p) = OpRescueStale ord p"
| "with_order ord (OpClean _ p) = OpClean ord p"
| "with_order ord x = x"

text \<open>Over the memory backend call number \<open>n\<close> ranges over the map in the order \<open>ord n\<close> of its keys.\<close>

primrec mem_play :: "(nat \<Rightarrow> mem \<Rightarrow> int list) \<Rightarrow> script \<Rightarrow> nat \<Rightarrow> mem \<Rightarrow> string option" where
  "mem_play ord Pass = (\<lambda>n b. None)"
| "mem_play ord (Failing msg) = (\<lambda>n b. Some msg)"
| "mem_play ord (Call x k) = (\<lambda>n b. let (r, b') = exec (with_order (ord n b) x) b in mem_play ord (k r) (n + 1) b')"

definition keys_of :: "(nat \<Rightarrow> mem \<Rightarrow> int list) \<Rightarrow> bool" where
  "keys_of ord \<longleftrightarrow> (\<forall>n b. ids_ok b \<longrightarrow> ranges (ord n b) b)"

primrec pg_play :: "fmt \<Rightarrow> driver \<Rightarrow> script \<Rightarrow> table \<Rightarrow> string option" where
  "pg_play F d Pass = (\<lambda>t. None)"
| "pg_play F d (Failing msg) = (\<lambda>t. Some msg)"
| "pg_play F d (Call x k) = (\<lambda>t. let (r, t') = pg_exec F d x t in pg_play F d (k r) t')"

subsection \<open>A run that stands for all\<close>

text \<open>A call that its limit does not cut short does the same in every order.\<close>

definition fits :: "(job_row \<Rightarrow> bool) \<Rightarrow> int \<Rightarrow> lstore \<Rightarrow> bool" where
  "fits P limit l \<longleftrightarrow> int (length (filter P (snd l))) \<le> limit"

fun uncut :: "op \<Rightarrow> lstore \<Rightarrow> bool" where
  "uncut (OpMoveDue _ p) l \<longleftrightarrow> fits (movable (mp_Now p)) (mp_Limit p) l"
| "uncut (OpRescueStale _ p) l \<longleftrightarrow> fits (stale_since (rescue_cutoff p)) (sr_Limit p) l"
| "uncut (OpClean _ p) l \<longleftrightarrow> fits (expired p) (cl_Limit p) l"
| "uncut x l \<longleftrightarrow> True"

primrec probe :: "(nat \<Rightarrow> op \<Rightarrow> lstore \<Rightarrow> op option) \<Rightarrow> (reply \<Rightarrow> reply option) \<Rightarrow> script \<Rightarrow> nat \<Rightarrow> lstore \<Rightarrow> string option option" where
  "probe pick view Pass = (\<lambda>n l. Some None)"
| "probe pick view (Failing msg) = (\<lambda>n l. Some (Some msg))"
| "probe pick view (Call x k) = (\<lambda>n l.
     case pick n x l of
       None \<Rightarrow> None
     | Some y \<Rightarrow> (let (r, l') = lexec y l in case view r of None \<Rightarrow> None | Some r' \<Rightarrow> probe pick view (k r') (n + 1) l'))"

definition mem_pick :: "(nat \<Rightarrow> mem \<Rightarrow> int list) \<Rightarrow> nat \<Rightarrow> op \<Rightarrow> lstore \<Rightarrow> op option" where
  "mem_pick ord n x l = Some (with_order (if uncut x l then map ID (snd l) else ord n (abs_of l)) x)"

text \<open>Whether the call can be made of either backend in a state, read off the list of rows.\<close>

fun agreed_list :: "pg_env \<Rightarrow> op \<Rightarrow> lstore \<Rightarrow> bool" where
  "agreed_list E (OpRescueStale ord p) l \<longleftrightarrow> storable (sr_Now p) \<and>
     list_all (\<lambda>j. State j = StateRunning \<longrightarrow>
       (pgTime E (HeartbeatAt j) < pgTime E (rescue_cutoff p) \<longleftrightarrow> HeartbeatAt j < rescue_cutoff p)) (snd l)"
| "agreed_list E x l \<longleftrightarrow> portable E x"

lemma agreed_list_agreed: "listed l \<Longrightarrow> agreed_list E x l \<Longrightarrow> agreed E x (abs_of l)"
  by (cases x) (auto simp: tells_apart_def list_all_iff listed_def lookup_Some)

lemma portable_agreed_list: "cuts E \<Longrightarrow> portable E x \<Longrightarrow> agreed_list E x l"
  by (cases x) (auto simp: cuts_def list_all_iff)

definition pg_pick :: "pg_env \<Rightarrow> nat \<Rightarrow> op \<Rightarrow> lstore \<Rightarrow> op option" where
  "pg_pick E n x l =
     (if \<not> agreed_list E x l then None else Some (if uncut x l then with_order (map ID (snd l)) x else in_order E (abs_of l) x))"

text \<open>What PostgreSQL answers where the memory backend answers \<open>r\<close>.\<close>

fun image_of :: "pg_env \<Rightarrow> reply \<Rightarrow> reply option" where
  "image_of E (Enqueued r) = Some (Enqueued (map_sum id (map default_version) r))"
| "image_of E (Fetched r) = Some (Fetched (map_sum id (map (canon E)) r))"
| "image_of E (Finalized r) = Some (Finalized r)"
| "image_of E (Beaten (Inr [])) = Some (Beaten (Inr []))"
| "image_of E (Counted r) = Some (Counted r)"
| "image_of E _ = None"

lemma image_unique: "image_of E r = Some s \<Longrightarrow> same_reply E r r' \<Longrightarrow> r' = s"
  by (cases "(E, r)" rule: image_of.cases; cases r') (auto simp: map_sum_def split: sum.splits)

lemma picked_uncut:
  assumes "listed l" "ranges ord (abs_of l)" "fits P limit l"
  shows "set (picked P limit ord (lookup (snd l))) = {i. hit P (lookup (snd l)) i} \<and>
    length (picked P limit ord (lookup (snd l))) = card {i. hit P (lookup (snd l)) i}"
proof -
  have d: "distinct (map ID (snd l))" using assms(1) by (simp add: listed_def)
  have o: "distinct ord" "set (filter (hit P (lookup (snd l))) ord) = {i. hit P (lookup (snd l)) i}"
    using assms(2) by (auto simp: ranges_def hit_iff)
  have h: "{i. hit P (lookup (snd l)) i} = set (map ID (filter P (snd l)))" using d by (auto simp: hit_lookup)
  have "distinct (map ID (filter P (snd l)))" using d by (rule distinct_map_filter)
  from distinct_card [OF this] have c: "card {i. hit P (lookup (snd l)) i} = length (filter P (snd l))" unfolding h by simp
  have "length (filter (hit P (lookup (snd l))) ord) = card {i. hit P (lookup (snd l)) i}"
    using distinct_card [of "filter (hit P (lookup (snd l))) ord"] o by simp
  then show ?thesis using assms(3) o(2) c by (simp add: picked_def fits_def)
qed

lemma uncut_order:
  assumes l: "listed l" and r: "ranges o1 (abs_of l)" "ranges o2 (abs_of l)" and u: "uncut x l"
  shows "exec (with_order o1 x) (abs_of l) = exec (with_order o2 x) (abs_of l)"
proof -
  have d: "distinct o1" "distinct o2" using r by (simp_all add: ranges_def)
  note p = picked_uncut [OF l r(1)] picked_uncut [OF l r(2)]
  show ?thesis
  proof (cases x)
    case (OpFetch ord q)
    then show ?thesis using Fetch_order_irrelevant [OF r listed_ids_ok [OF l]] by simp
  qed (use u d p in \<open>simp_all add: MoveDue_eq RescueStale_eq Clean_eq\<close>)
qed

lemma with_order_ok: "ranges ord b \<Longrightarrow> order_ok (with_order ord x) b"
  by (cases x) (simp_all add: ranges_def)

lemma probe_mem:
  assumes ord: "keys_of ord"
  shows "probe (mem_pick ord) Some s n l = Some v \<Longrightarrow> listed l \<Longrightarrow> mem_play ord s n (abs_of l) = v"
proof (induction s arbitrary: n l)
  case (Call x k)
  note rs = listed_ranges [OF Call.prems(2)]
  have ro: "ranges (ord n (abs_of l)) (abs_of l)" using ord listed_ids_ok [OF Call.prems(2)] by (simp add: keys_of_def)
  define o' where "o' = (if uncut x l then map ID (snd l) else ord n (abs_of l))"
  have o': "ranges o' (abs_of l)" using rs ro by (simp add: o'_def)
  obtain r l' where e: "lexec (with_order o' x) l = (r, l')" by (cases "lexec (with_order o' x) l")
  have a: "exec (with_order o' x) (abs_of l) = (r, abs_of l')" "listed l'"
    using lexec_agrees [OF Call.prems(2) with_order_ok [OF o'] e] by simp_all
  have "exec (with_order (ord n (abs_of l)) x) (abs_of l) = exec (with_order o' x) (abs_of l)"
    using uncut_order [OF Call.prems(2) ro rs, of x] by (simp add: o'_def)
  moreover have "mem_pick ord n x l = Some (with_order o' x)" by (simp add: mem_pick_def o'_def)
  then have "probe (mem_pick ord) Some (k r) (n + 1) l' = Some v" using Call.prems(1) e by simp
  ultimately show ?case using Call.IH [OF rangeI _ a(2), of r "n + 1"] a(1) by simp
qed auto

lemma in_order_ranges:
  assumes "serves E b"
  shows "\<exists>ord. ranges ord b \<and> in_order E b x = with_order ord x"
proof -
  have r: "ranges (pgScan E (table_of E b)) b" "ranges (by_schedule E b) b" "ranges (by_heartbeat E b) b" "ranges (by_finalized E b) b"
    using assms by (simp_all add: serves_def ranges_def by_schedule_def by_heartbeat_def by_finalized_def)
  then show ?thesis by (cases x; auto)
qed

lemma fresh_order: "fresh_op (with_order ord x) \<longleftrightarrow> fresh_op x"
  by (cases x) simp_all

lemma agreed_order: "agreed E (with_order ord x) b \<longleftrightarrow> agreed E x b"
  by (cases x) simp_all

lemma orders_ok_order: "ranges ord b \<Longrightarrow> orders_ok (with_order ord x)"
  by (cases x) (simp_all add: ranges_def)

lemma probe_pg:
  assumes sc: "\<forall>b. ids_ok b \<longrightarrow> serves E b"
  shows "probe (pg_pick E) (image_of E) s n l = Some v \<Longrightarrow> listed l \<Longrightarrow> timed (abs_of l) \<Longrightarrow> rows_ok (abs_of l) \<Longrightarrow>
    pg_play F (run_stmt E) s (table_of E (abs_of l)) = v"
proof (induction s arbitrary: n l)
  case (Call x k)
  let ?b = "abs_of l"
  have ids: "ids_ok ?b" using Call.prems(2) by (rule listed_ids_ok)
  then have s: "serves E ?b" using sc by blast
  obtain y where y: "pg_pick E n x l = Some y" using Call.prems(1) by (cases "pg_pick E n x l") auto
  then have a: "agreed_list E x l" by (auto simp: pg_pick_def split: if_splits)
  note p = agreed_list_agreed [OF Call.prems(2) a]
  obtain ord where o: "ranges ord ?b" "in_order E ?b x = with_order ord x" using in_order_ranges [OF s] by blast
  obtain ord' where o': "ranges ord' ?b" "y = with_order ord' x" "exec (in_order E ?b x) ?b = exec y ?b"
  proof (cases "uncut x l")
    case True
    then have "y = with_order (map ID (snd l)) x" using y a by (simp add: pg_pick_def)
    then show ?thesis using that [OF listed_ranges [OF Call.prems(2)]] uncut_order [OF Call.prems(2) o(1) listed_ranges [OF Call.prems(2)] True] o(2)
      by simp
  next
    case False
    then show ?thesis using that [OF o(1)] y a o(2) by (simp add: pg_pick_def)
  qed
  obtain r l' where e: "lexec y l = (r, l')" by (cases "lexec y l")
  have run: "exec y ?b = (r, abs_of l')" "listed l'"
    using lexec_agrees [OF Call.prems(2) with_order_ok [OF o'(1)], of x r l'] e o'(2) by simp_all
  obtain r' where pg: "pg_exec F (run_stmt E) x (table_of E ?b) = (r', table_of E (abs_of l'))" "same_reply E r r'"
    using pg_exec_refines [OF p s Call.prems(3) ids Call.prems(4), of F] o'(3) run(1) by auto
  obtain r'' where r: "image_of E r = Some r''" "probe (pg_pick E) (image_of E) (k r'') (n + 1) l' = Some v"
    using Call.prems(1) y e by (cases "image_of E r") auto
  have "r'' = r'" using image_unique [OF r(1) pg(2)] by simp
  have f: "fresh_op y" "agreed E y ?b" "orders_ok y"
    using in_order_ok [OF p s] o' o(2) by (simp_all add: fresh_order agreed_order orders_ok_order)
  have "timed (abs_of l')" using exec_timed [OF f(2,3) Call.prems(3)] run(1) by simp
  moreover have "rows_ok (abs_of l')" using exec_rows_ok [OF f(3,1) ids Call.prems(4)] run(1) by simp
  ultimately show ?case using Call.IH [OF rangeI r(2) run(2)] pg(1) \<open>r'' = r'\<close> by simp
qed auto

subsection \<open>Evaluation\<close>

lemma pick_uncut:
  "uncut x l \<Longrightarrow> mem_pick ord n x l = Some (with_order (map ID (snd l)) x)"
  "agreed_list E x l \<Longrightarrow> uncut x l \<Longrightarrow> pg_pick E n x l = Some (with_order (map ID (snd l)) x)"
  by (simp_all add: mem_pick_def pg_pick_def)

text \<open>The rest of a test is left alone until the reply before it is known.\<close>

lemma weak_congs:
  "rows = rows' \<Longrightarrow> suite_enqueue rows k = suite_enqueue rows' k"
  "x = x' \<Longrightarrow> rows_of x kr = rows_of x' kr"
  "x = x' \<Longrightarrow> error_of x ke = error_of x' ke"
  "x = x' \<Longrightarrow> count_of x kc = count_of x' kc"
  "x = x' \<Longrightarrow> beat_of x kb = beat_of x' kb"
  "x = x' \<Longrightarrow> ok_of msg x s = ok_of msg x' s"
  "x = x' \<Longrightarrow> count_ok x kn = count_ok x' kn"
  "x = x' \<Longrightarrow> fetch_ok x kf = fetch_ok x' kf"
  "x = x' \<Longrightarrow> beat_ok x ki = beat_ok x' ki"
  "c = c' \<Longrightarrow> check c msg s = check c' msg s"
  "q = q' \<Longrightarrow> suite_fetch q n t kf = suite_fetch q' n t kf"
  "q = q' \<Longrightarrow> claimOne q kj = claimOne q' kj"
  "q = q' \<Longrightarrow> refetchAfterRetry q t kj = refetchAfterRetry q' t kj"
  "n = n' \<Longrightarrow> claims_then n q kf = claims_then n' q kf"
  "x = x' \<Longrightarrow> Call x kk = Call x' kk"
  "xs = xs' \<Longrightarrow> for_each xs body s = for_each xs' body s"
  "x = x' \<Longrightarrow> rejected x msg s = rejected x' msg s"
  "m = m' \<Longrightarrow> requireMetaEquals msg m w s = requireMetaEquals msg m' w s"
  by simp_all

lemmas suite_calls = suite_enqueue_def rows_of_def error_of_def count_of_def beat_of_def ok_of_def count_ok_def fetch_ok_def beat_ok_def
  check_def suite_fetch_def claimOne_def refetchAfterRetry_def rejected_def requireMetaEquals_def call_fetch_def call_move_def
  call_rescue_def call_clean_def call_complete_def call_retry_def call_cancel_def call_kill_def call_snooze_def call_heartbeat_def
  attempt_err_def finalizerCalls_def finalize_as_def T0_def nanosecond_def second_def minute_def hour_def time_Add_def

lemmas suite_rows = suite_row_def zero_row_def zero_time_def IsZero_def storable_iff min_i64_def max_i64_def stamp_row_def Let_def
  due_def claim_def prio_key_def SubDuration_spec SubDurationClamped_spec clamp_instant_def ValidateInstant_def fits_def l_finalize_def
  running_at_def apply_complete_def apply_retry_def apply_cancel_def apply_kill_def apply_snooze_def mergeMeta_def errors_Is_def
  errors_As_def picked_def hit_def movable_def stale_since_def rescue_cutoff_def rescue_row_def expired_def l_sweep_def Terminal_def

lemmas suite_images = portable_row_def fresh_row_def bad_raw_def dated_def canon_def scanJobRow_def enc_row_def
  default_version_def rawOrNull_def UnixNano_def raw_json_def null_time_def null_string_def null_json_def enc_time_def fromNanos_def Unix0_def

end
