(* ===== verification/Suite_Memory.thy ===== *)
theory Suite_Memory
  imports Suite_Spec
begin

text \<open>The sequential tests of the conformance suite but those on finalizations, over the memory backend, in every order of its map.\<close>

lemma mem_EnqueueFillsRow: "probe (mem_pick ord) Some testEnqueueFillsRow 0 (0, []) = Some None"
  by (simp add: testEnqueueFillsRow_def pick_uncut suite_calls suite_rows cong: weak_congs)

lemma mem_FetchClaimsExclusively: "probe (mem_pick ord) Some testFetchClaimsExclusively 0 (0, []) = Some None"
  by (simp add: testFetchClaimsExclusively_def pick_uncut suite_calls suite_rows cong: weak_congs)

lemma mem_FetchOrdersByEffectiveTime: "probe (mem_pick ord) Some testFetchOrdersByEffectiveTime 0 (0, []) = Some None"
  by (simp add: testFetchOrdersByEffectiveTime_def pick_uncut suite_calls suite_rows cong: weak_congs)

lemma mem_FetchSkipsOtherQueuesAndFuture: "probe (mem_pick ord) Some testFetchSkipsOtherQueuesAndFuture 0 (0, []) = Some None"
  by (simp add: testFetchSkipsOtherQueuesAndFuture_def pick_uncut suite_calls suite_rows cong: weak_congs)

lemma mem_EnqueueBatchFillsEachRow: "probe (mem_pick ord) Some testEnqueueBatchFillsEachRow 0 (0, []) = Some None"
  by (simp add: testEnqueueBatchFillsEachRow_def pick_uncut suite_calls suite_rows cong: weak_congs)

lemma mem_SubMicrosecondBoostsOrder: "probe (mem_pick ord) Some testSubMicrosecondBoostsOrder 0 (0, []) = Some None"
  by (simp add: testSubMicrosecondBoostsOrder_def pick_uncut suite_calls suite_rows cong: weak_congs)

lemma mem_HeartbeatRenewsOnlyRunning: "probe (mem_pick ord) Some testHeartbeatRenewsOnlyRunning 0 (0, []) = Some None"
  by (simp add: testHeartbeatRenewsOnlyRunning_def pick_uncut suite_calls suite_rows cong: weak_congs)

lemma mem_RescueStaleRespectsTTL: "probe (mem_pick ord) Some testRescueStaleRespectsTTL 0 (0, []) = Some None"
  by (simp add: testRescueStaleRespectsTTL_def pick_uncut suite_calls suite_rows cong: weak_congs)

lemma mem_RescueFencing: "probe (mem_pick ord) Some testRescueFencing 0 (0, []) = Some None"
  by (simp add: testRescueFencing_def pick_uncut suite_calls suite_rows cong: weak_congs)

lemma mem_CleanHonorsRetention: "probe (mem_pick ord) Some testCleanHonorsRetention 0 (0, []) = Some None"
  by (simp add: testCleanHonorsRetention_def pick_uncut suite_calls suite_rows cong: weak_congs)

lemma mem_StaleHeartbeatDoesNotRenew: "probe (mem_pick ord) Some testStaleHeartbeatDoesNotRenew 0 (0, []) = Some None"
  by (simp add: testStaleHeartbeatDoesNotRenew_def pick_uncut suite_calls suite_rows cong: weak_congs)

lemma mem_HeartbeatIgnoresStaleEntries: "probe (mem_pick ord) Some testHeartbeatIgnoresStaleEntries 0 (0, []) = Some None"
  by (simp add: testHeartbeatIgnoresStaleEntries_def pick_uncut suite_calls suite_rows cong: weak_congs)

lemma mem_RescuedJobKeepsPriorityBoost: "probe (mem_pick ord) Some testRescuedJobKeepsPriorityBoost 0 (0, []) = Some None"
  by (simp add: testRescuedJobKeepsPriorityBoost_def pick_uncut suite_calls suite_rows cong: weak_congs)

lemma mem_CleanDistinguishesTerminalStates: "probe (mem_pick ord) Some testCleanDistinguishesTerminalStates 0 (0, []) = Some None"
  by (simp add: testCleanDistinguishesTerminalStates_def pick_uncut suite_calls suite_rows cong: weak_congs)

lemma mem_RejectsInstantsOutsideRange: "probe (mem_pick ord) Some testRejectsInstantsOutsideRange 0 (0, []) = Some None"
  by (simp add: testRejectsInstantsOutsideRange_def pick_uncut suite_calls suite_rows cong: weak_congs)

lemma mem_AcceptsRangeBoundaries: "probe (mem_pick ord) Some testAcceptsRangeBoundaries 0 (0, []) = Some None"
  by (simp add: testAcceptsRangeBoundaries_def pick_uncut suite_calls suite_rows cong: weak_congs)

lemma mem_DerivedPriorityClamps: "probe (mem_pick ord) Some testDerivedPriorityClamps 0 (0, []) = Some None"
  by (simp add: testDerivedPriorityClamps_def pick_uncut suite_calls suite_rows cong: weak_congs)

lemma mem_NilMetadataRoundTrips: "probe (mem_pick ord) Some testNilMetadataRoundTrips 0 (0, []) = Some None"
  by (simp add: testNilMetadataRoundTrips_def pick_uncut suite_calls suite_rows cong: weak_congs)

lemma mem_MetadataRoundTripsThroughLifecycle: "probe (mem_pick ord) Some testMetadataRoundTripsThroughLifecycle 0 (0, []) = Some None"
  by (simp add: testMetadataRoundTripsThroughLifecycle_def pick_uncut suite_calls suite_rows cong: weak_congs)

lemma mem_ErrorHistoryAccumulates: "probe (mem_pick ord) Some testErrorHistoryAccumulates 0 (0, []) = Some None"
  by (simp add: testErrorHistoryAccumulates_def pick_uncut suite_calls suite_rows cong: weak_congs)

end
