(* ===== verification/Suite_Memory_Finalize.thy ===== *)
theory Suite_Memory_Finalize
  imports Suite_Spec
begin

text \<open>The tests of the conformance suite on finalizations over the memory backend, in every order of its map.\<close>

lemma mem_FinalizationsAreFenced: "probe (mem_pick ord) Some testFinalizationsAreFenced 0 (0, []) = Some None"
  by (simp add: testFinalizationsAreFenced_def pick_uncut suite_calls suite_rows cong: weak_congs)

lemma mem_RetrySchedulesBackoff: "probe (mem_pick ord) Some testRetrySchedulesBackoff 0 (0, []) = Some None"
  by (simp add: testRetrySchedulesBackoff_def pick_uncut suite_calls suite_rows cong: weak_congs)

lemma mem_SnoozeDoesNotConsumeAttempt: "probe (mem_pick ord) Some testSnoozeDoesNotConsumeAttempt 0 (0, []) = Some None"
  by (simp add: testSnoozeDoesNotConsumeAttempt_def pick_uncut suite_calls suite_rows cong: weak_congs)

lemma mem_KillAndCancelAreTerminal: "probe (mem_pick ord) Some testKillAndCancelAreTerminal 0 (0, []) = Some None"
  by (simp add: testKillAndCancelAreTerminal_def pick_uncut suite_calls suite_rows cong: weak_congs)

lemma mem_SnoozeReplayIsFenced: "probe (mem_pick ord) Some testSnoozeReplayIsFenced 0 (0, []) = Some None"
  by (simp add: testSnoozeReplayIsFenced_def pick_uncut suite_calls suite_rows cong: weak_congs)

lemma mem_PartialBatchesApplyLiveEntries: "probe (mem_pick ord) Some testPartialBatchesApplyLiveEntries 0 (0, []) = Some None"
  by (simp add: testPartialBatchesApplyLiveEntries_def pick_uncut suite_calls suite_rows cong: weak_congs)

lemma mem_DuplicateEntriesApplyOnce: "probe (mem_pick ord) Some testDuplicateEntriesApplyOnce 0 (0, []) = Some None"
  by (simp add: testDuplicateEntriesApplyOnce_def pick_uncut suite_calls suite_rows cong: weak_congs)

lemma mem_BatchAppliesPerRowValues: "probe (mem_pick ord) Some testBatchAppliesPerRowValues 0 (0, []) = Some None"
  by (simp add: testBatchAppliesPerRowValues_def pick_uncut suite_calls suite_rows cong: weak_congs)

end
