(* ===== verification/Suite_Server.thy ===== *)
theory Suite_Server
  imports Suite_Spec
begin

text \<open>The server on which the conformance suite is run: it keeps instants to the microsecond and scans by ID.\<close>

definition micro_pg :: pg_env where
  "micro_pg = \<lparr>pgTime = (\<lambda>t. t - t mod 1000), pgTimeText = (\<lambda>t. t - t mod 1000), pgJsonb = (\<lambda>j. j),
     pgScan = (\<lambda>t. filter (\<lambda>i. tbRows t i \<noteq> None) [1..tbSeq t])\<rparr>"

lemma micro_cuts: "cuts micro_pg"
proof -
  have "s - s mod 1000 < t \<longleftrightarrow> s < t" if "t - t mod 1000 = t" for s t :: int
  proof -
    define a b where "a = s div 1000" and "b = t div 1000"
    have "s = 1000 * a + s mod 1000" "t = 1000 * b" using that div_mult_mod_eq [of t 1000] by (simp_all add: a_def b_def)
    moreover have "0 \<le> s mod 1000" "s mod 1000 < 1000" by simp_all
    moreover have "1000 * a < 1000 * b \<longleftrightarrow> a + 1 \<le> b" by linarith
    ultimately show ?thesis by linarith
  qed
  then show ?thesis by (simp only: cuts_def micro_pg_def pg_env.simps) blast
qed

lemma micro_serves: "\<forall>b. ids_ok b \<longrightarrow> serves micro_pg b"
  using micro_cuts by (auto simp: serves_def micro_pg_def dest: ids_ok_row)

end
