(* ===== verification/Suite_Postgres.thy ===== *)
theory Suite_Postgres
  imports Suite_Server
begin

text \<open>The tests of the conformance suite on enqueueing, fetching, the range of instants and metadata, over the PostgreSQL backend.\<close>

lemma pg_EnqueueFillsRow: "probe (pg_pick micro_pg) (image_of micro_pg) testEnqueueFillsRow 0 (0, []) = Some None"
  by (simp add: testEnqueueFillsRow_def pick_uncut micro_pg_def suite_images suite_calls suite_rows cong: weak_congs)

lemma pg_FetchClaimsExclusively: "probe (pg_pick micro_pg) (image_of micro_pg) testFetchClaimsExclusively 0 (0, []) = Some None"
  by (simp add: testFetchClaimsExclusively_def pick_uncut micro_pg_def suite_images suite_calls suite_rows cong: weak_congs)

lemma pg_FetchOrdersByEffectiveTime: "probe (pg_pick micro_pg) (image_of micro_pg) testFetchOrdersByEffectiveTime 0 (0, []) = Some None"
  by (simp add: testFetchOrdersByEffectiveTime_def pick_uncut micro_pg_def suite_images suite_calls suite_rows cong: weak_congs)

lemma pg_FetchSkipsOtherQueuesAndFuture: "probe (pg_pick micro_pg) (image_of micro_pg) testFetchSkipsOtherQueuesAndFuture 0 (0, []) = Some None"
  by (simp add: testFetchSkipsOtherQueuesAndFuture_def pick_uncut micro_pg_def suite_images suite_calls suite_rows cong: weak_congs)

lemma pg_EnqueueBatchFillsEachRow: "probe (pg_pick micro_pg) (image_of micro_pg) testEnqueueBatchFillsEachRow 0 (0, []) = Some None"
  by (simp add: testEnqueueBatchFillsEachRow_def pick_uncut micro_pg_def suite_images suite_calls suite_rows cong: weak_congs)

lemma pg_SubMicrosecondBoostsOrder: "probe (pg_pick micro_pg) (image_of micro_pg) testSubMicrosecondBoostsOrder 0 (0, []) = Some None"
  by (simp add: testSubMicrosecondBoostsOrder_def pick_uncut micro_pg_def suite_images suite_calls suite_rows cong: weak_congs)

lemma pg_RejectsInstantsOutsideRange: "probe (pg_pick micro_pg) (image_of micro_pg) testRejectsInstantsOutsideRange 0 (0, []) = Some None"
  by (simp add: testRejectsInstantsOutsideRange_def pick_uncut micro_pg_def suite_images suite_calls suite_rows cong: weak_congs)

lemma pg_DerivedPriorityClamps: "probe (pg_pick micro_pg) (image_of micro_pg) testDerivedPriorityClamps 0 (0, []) = Some None"
  by (simp add: testDerivedPriorityClamps_def pick_uncut micro_pg_def suite_images suite_calls suite_rows cong: weak_congs)

lemma pg_NilMetadataRoundTrips: "probe (pg_pick micro_pg) (image_of micro_pg) testNilMetadataRoundTrips 0 (0, []) = Some None"
  by (simp add: testNilMetadataRoundTrips_def pick_uncut micro_pg_def suite_images suite_calls suite_rows cong: weak_congs)

lemma pg_MetadataRoundTripsThroughLifecycle: "probe (pg_pick micro_pg) (image_of micro_pg) testMetadataRoundTripsThroughLifecycle 0 (0, []) = Some None"
  by (simp add: testMetadataRoundTripsThroughLifecycle_def pick_uncut micro_pg_def suite_images suite_calls suite_rows cong: weak_congs)

lemma pg_ErrorHistoryAccumulates: "probe (pg_pick micro_pg) (image_of micro_pg) testErrorHistoryAccumulates 0 (0, []) = Some None"
  by (simp add: testErrorHistoryAccumulates_def pick_uncut micro_pg_def suite_images suite_calls suite_rows cong: weak_congs)

lemma pg_AcceptsRangeBoundaries: "probe (pg_pick micro_pg) (image_of micro_pg) testAcceptsRangeBoundaries 0 (0, []) = Some None"
  by (simp add: testAcceptsRangeBoundaries_def pick_uncut micro_pg_def suite_images suite_calls suite_rows cong: weak_congs)

end
