(* ===== verification/Suite_Postgres_Finalize.thy ===== *)
theory Suite_Postgres_Finalize
  imports Suite_Server
begin

text \<open>The tests of the conformance suite on finalizations over the PostgreSQL backend.\<close>

lemma pg_FinalizationsAreFenced: "probe (pg_pick micro_pg) (image_of micro_pg) testFinalizationsAreFenced 0 (0, []) = Some None"
  by (simp add: testFinalizationsAreFenced_def pick_uncut micro_pg_def suite_images suite_calls suite_rows cong: weak_congs)

lemma pg_RetrySchedulesBackoff: "probe (pg_pick micro_pg) (image_of micro_pg) testRetrySchedulesBackoff 0 (0, []) = Some None"
  by (simp add: testRetrySchedulesBackoff_def pick_uncut micro_pg_def suite_images suite_calls suite_rows cong: weak_congs)

lemma pg_SnoozeDoesNotConsumeAttempt: "probe (pg_pick micro_pg) (image_of micro_pg) testSnoozeDoesNotConsumeAttempt 0 (0, []) = Some None"
  by (simp add: testSnoozeDoesNotConsumeAttempt_def pick_uncut micro_pg_def suite_images suite_calls suite_rows cong: weak_congs)

lemma pg_KillAndCancelAreTerminal: "probe (pg_pick micro_pg) (image_of micro_pg) testKillAndCancelAreTerminal 0 (0, []) = Some None"
  by (simp add: testKillAndCancelAreTerminal_def pick_uncut micro_pg_def suite_images suite_calls suite_rows cong: weak_congs)

lemma pg_SnoozeReplayIsFenced: "probe (pg_pick micro_pg) (image_of micro_pg) testSnoozeReplayIsFenced 0 (0, []) = Some None"
  by (simp add: testSnoozeReplayIsFenced_def pick_uncut micro_pg_def suite_images suite_calls suite_rows cong: weak_congs)

lemma pg_PartialBatchesApplyLiveEntries: "probe (pg_pick micro_pg) (image_of micro_pg) testPartialBatchesApplyLiveEntries 0 (0, []) = Some None"
  by (simp add: testPartialBatchesApplyLiveEntries_def pick_uncut micro_pg_def suite_images suite_calls suite_rows cong: weak_congs)

lemma pg_DuplicateEntriesApplyOnce: "probe (pg_pick micro_pg) (image_of micro_pg) testDuplicateEntriesApplyOnce 0 (0, []) = Some None"
  by (simp add: testDuplicateEntriesApplyOnce_def pick_uncut micro_pg_def suite_images suite_calls suite_rows cong: weak_congs)

lemma pg_BatchAppliesPerRowValues: "probe (pg_pick micro_pg) (image_of micro_pg) testBatchAppliesPerRowValues 0 (0, []) = Some None"
  by (simp add: testBatchAppliesPerRowValues_def pick_uncut micro_pg_def suite_images suite_calls suite_rows cong: weak_congs)

end
