(* ===== verification/Suite_Postgres_Maint.thy ===== *)
theory Suite_Postgres_Maint
  imports Suite_Server
begin

text \<open>The tests of the conformance suite on heartbeats and maintenance over the PostgreSQL backend.\<close>

lemma pg_HeartbeatRenewsOnlyRunning: "probe (pg_pick micro_pg) (image_of micro_pg) testHeartbeatRenewsOnlyRunning 0 (0, []) = Some None"
  by (simp add: testHeartbeatRenewsOnlyRunning_def pick_uncut micro_pg_def suite_images suite_calls suite_rows cong: weak_congs)

lemma pg_RescueStaleRespectsTTL: "probe (pg_pick micro_pg) (image_of micro_pg) testRescueStaleRespectsTTL 0 (0, []) = Some None"
  by (simp add: testRescueStaleRespectsTTL_def pick_uncut micro_pg_def suite_images suite_calls suite_rows cong: weak_congs)

lemma pg_RescueFencing: "probe (pg_pick micro_pg) (image_of micro_pg) testRescueFencing 0 (0, []) = Some None"
  by (simp add: testRescueFencing_def pick_uncut micro_pg_def suite_images suite_calls suite_rows cong: weak_congs)

lemma pg_CleanHonorsRetention: "probe (pg_pick micro_pg) (image_of micro_pg) testCleanHonorsRetention 0 (0, []) = Some None"
  by (simp add: testCleanHonorsRetention_def pick_uncut micro_pg_def suite_images suite_calls suite_rows cong: weak_congs)

lemma pg_StaleHeartbeatDoesNotRenew: "probe (pg_pick micro_pg) (image_of micro_pg) testStaleHeartbeatDoesNotRenew 0 (0, []) = Some None"
  by (simp add: testStaleHeartbeatDoesNotRenew_def pick_uncut micro_pg_def suite_images suite_calls suite_rows cong: weak_congs)

lemma pg_HeartbeatIgnoresStaleEntries: "probe (pg_pick micro_pg) (image_of micro_pg) testHeartbeatIgnoresStaleEntries 0 (0, []) = Some None"
  by (simp add: testHeartbeatIgnoresStaleEntries_def pick_uncut micro_pg_def suite_images suite_calls suite_rows cong: weak_congs)

lemma pg_RescuedJobKeepsPriorityBoost: "probe (pg_pick micro_pg) (image_of micro_pg) testRescuedJobKeepsPriorityBoost 0 (0, []) = Some None"
  by (simp add: testRescuedJobKeepsPriorityBoost_def pick_uncut micro_pg_def suite_images suite_calls suite_rows cong: weak_congs)

lemma pg_CleanDistinguishesTerminalStates: "probe (pg_pick micro_pg) (image_of micro_pg) testCleanDistinguishesTerminalStates 0 (0, []) = Some None"
  by (simp add: testCleanDistinguishesTerminalStates_def pick_uncut micro_pg_def suite_images suite_calls suite_rows cong: weak_congs)

end
