(* ===== verification/Suite_Concurrent.thy ===== *)
theory Suite_Concurrent
  imports Suite_Spec
begin

text \<open>
  The tests of the conformance suite that start goroutines, for every interleaving and any number of jobs. They see of a
  backend only the law below, which the memory backend and the PostgreSQL backend both keep.
\<close>

subsection \<open>Rows that are due\<close>

definition avail :: "fetch_params \<Rightarrow> lstore \<Rightarrow> int set" where
  "avail p l = ID ` set (filter (due p) (snd l))"

definition first_due :: "fetch_params \<Rightarrow> lstore \<Rightarrow> job_row list" where
  "first_due p l = take (nat (fp_Limit p)) (sort_key prio_key (filter (due p) (snd l)))"

definition after_fetch :: "fetch_params \<Rightarrow> lstore \<Rightarrow> lstore" where
  "after_fetch p l = (fst l, map (\<lambda>j. if ID j \<in> ID ` set (first_due p l) then claim p j else j) (snd l))"

lemma first_due_sub: "j \<in> set (first_due p l) \<Longrightarrow> j \<in> set (snd l) \<and> due p j"
  unfolding first_due_def by (drule in_set_takeD) simp

lemma listed_after_fetch [simp]: "listed l \<Longrightarrow> listed (after_fetch p l)"
  unfolding after_fetch_def by (rule listed_map) (simp_all add: app_ID)

lemma distinct_first_due: "listed l \<Longrightarrow> distinct (map ID (first_due p l))"
proof -
  assume "listed l"
  then have "distinct (map ID (filter (due p) (snd l)))" by (simp add: listed_def distinct_map_filter)
  then have "distinct (map ID (sort_key prio_key (filter (due p) (snd l))))" by (simp add: distinct_map)
  then show ?thesis unfolding first_due_def take_map [symmetric] by (rule distinct_take)
qed

lemma avail_after_fetch:
  assumes "listed l"
  shows "avail p (after_fetch p l) = avail p l - ID ` set (first_due p l)"
proof -
  have "\<not> due p (claim p j)" for j by (simp add: due_def claim_def)
  then show ?thesis by (auto simp: avail_def after_fetch_def app_ID)
qed

lemma card_less_diff: "A \<noteq> {} \<Longrightarrow> A \<subseteq> B \<Longrightarrow> finite B \<Longrightarrow> card (B - A) < card B"
  by (rule psubset_card_mono) auto

lemma sort_key_Nil: "sort_key k xs = [] \<longleftrightarrow> xs = []"
  by (metis set_empty set_sort)

lemma first_due_Nil: "0 < fp_Limit p \<Longrightarrow> first_due p l = [] \<longleftrightarrow> avail p l = {}"
  by (auto simp: first_due_def avail_def sort_key_Nil filter_empty_conv)

subsection \<open>What the tests see of a backend\<close>

locale suite_backend =
  fixes pick :: "nat \<Rightarrow> op \<Rightarrow> lstore \<Rightarrow> op option"
    and view :: "reply \<Rightarrow> reply option"
    and fine :: "op \<Rightarrow> bool"
    and shown stored :: "job_row \<Rightarrow> job_row"
  assumes pick_free: "fine x \<Longrightarrow> uncut x l \<Longrightarrow> pick n x l = Some (with_order (map ID (snd l)) x)"
    and pick_cut: "fine x \<Longrightarrow> listed l \<Longrightarrow> \<exists>ord. ranges ord (abs_of l) \<and> pick n x l = Some (with_order ord x)"
    and view_rows: "view (Enqueued (Inr rows)) = Some (Enqueued (Inr (map shown rows)))"
      "view (Fetched (Inr rows)) = Some (Fetched (Inr (map stored rows)))"
    and view_rest: "view (Counted res) = Some (Counted res)" "view (Finalized err) = Some (Finalized err)"
    and stored_token: "ID (stored j) = ID j" "Generation (stored j) = Generation j"
begin

lemma run_call:
  assumes "fine x" "uncut x l" "lexec (with_order (map ID (snd l)) x) l = (r, l')" "view r = Some r'"
  shows "probe pick view (Call x k) n l = probe pick view (k r') (n + 1) l'"
  using assms by (simp add: pick_free)

lemma run_fetch:
  assumes "fine (OpFetch [] p)" "0 \<le> fp_Limit p"
  shows "probe pick view (fetch_ok (OpFetch [] p) k) n l =
    probe pick view (k (map (\<lambda>j. stored (claim p j)) (first_due p l))) (n + 1) (after_fetch p l)"
proof -
  have "lexec (with_order (map ID (snd l)) (OpFetch [] p)) l = (Fetched (Inr (map (claim p) (first_due p l))), after_fetch p l)"
    using assms(2) by (simp add: first_due_def after_fetch_def Let_def)
  from run_call [OF assms(1) _ this view_rows(2)] show ?thesis by (simp add: fetch_ok_def rows_of_def comp_def)
qed

lemma run_count:
  assumes "fine x" "uncut x l" "lexec (with_order (map ID (snd l)) x) l = (Counted (Inr m), l')"
  shows "probe pick view (count_ok x k) n l = probe pick view (k m) (n + 1) l'"
  using run_call [OF assms view_rest(1)] by (simp add: count_ok_def count_of_def)

text \<open>The workers end when all of what was due is claimed, and each ID is seen once.\<close>

lemma run_workers:
  assumes f: "fine (call_fetch ''q'' 7 ''c'' T0)"
  defines "p \<equiv> \<lparr>fp_Queue = ''q'', fp_Limit = 7, fp_ClientID = ''c'', fp_Now = T0\<rparr>"
  shows "listed l \<Longrightarrow> distinct seen \<Longrightarrow> set seen \<inter> avail p l = {} \<Longrightarrow> card (avail p l) + w \<le> fuel \<Longrightarrow> (w = 0 \<Longrightarrow> avail p l = {}) \<Longrightarrow>
    \<exists>seen' n' l'. probe pick view (fetch_workers fuel w seen k) n l = probe pick view (k seen') n' l' \<and>
      distinct seen' \<and> set seen' = set seen \<union> avail p l"
proof (induction fuel arbitrary: w seen n l)
  case 0
  then show ?case by (intro exI [of _ seen] exI [of _ n] exI [of _ l]) simp
next
  case (Suc fuel)
  have op: "call_fetch ''q'' 7 ''c'' T0 = OpFetch [] p" by (simp add: call_fetch_def p_def)
  have lim: "0 \<le> fp_Limit p" "0 < fp_Limit p" by (simp_all add: p_def)
  note run = run_fetch [OF f [unfolded op] lim(1)]
  let ?got = "first_due p l"
  show ?case
  proof (cases "w = 0")
    case True
    then show ?thesis using Suc.prems by (intro exI [of _ seen] exI [of _ n] exI [of _ l]) simp
  next
    case w: False
    show ?thesis
    proof (cases "?got = []")
      case True
      then have a: "avail p l = {}" "after_fetch p l = l" unfolding first_due_Nil [OF lim(2)] by (simp_all add: after_fetch_def True)
      have "probe pick view (fetch_workers (Suc fuel) w seen k) n l = probe pick view (fetch_workers fuel (w - 1) seen k) (n + 1) l"
        using w run True a(2) by (simp add: op)
      then show ?thesis using Suc.IH [of l seen "w - 1" "n + 1"] Suc.prems w a(1) by simp
    next
      case False
      define seen1 where "seen1 = map ID ?got @ seen"
      have sub: "ID ` set ?got \<subseteq> avail p l" using first_due_sub [of _ p l] by (auto simp: avail_def)
      have av: "avail p (after_fetch p l) = avail p l - ID ` set ?got" by (rule avail_after_fetch [OF Suc.prems(1)])
      have fin: "finite (avail p l)" by (simp add: avail_def)
      have "ID ` set ?got \<noteq> {}" using False by simp
      from card_less_diff [OF this sub fin] have "card (avail p (after_fetch p l)) < card (avail p l)" unfolding av .
      then have c: "card (avail p (after_fetch p l)) + w \<le> fuel" using Suc.prems(4) by simp
      have d: "distinct seen1" "set seen1 \<inter> avail p (after_fetch p l) = {}" "set seen1 \<union> avail p (after_fetch p l) = set seen \<union> avail p l"
        using Suc.prems(2,3) distinct_first_due [OF Suc.prems(1)] sub unfolding seen1_def av by auto
      have "probe pick view (fetch_workers (Suc fuel) w seen k) n l = probe pick view (fetch_workers fuel w seen1 k) (n + 1) (after_fetch p l)"
        using w run False by (simp add: op seen1_def comp_def stored_token app_ID)
      then show ?thesis using Suc.IH [OF listed_after_fetch [OF Suc.prems(1)] d(1,2) c, of "n + 1"] w unfolding d(3) by simp
    qed
  qed
qed

text \<open>\<open>m\<close> equal rows, enqueued at once.\<close>

lemma run_enqueue:
  assumes "fine (OpEnqueue \<lparr>ep_Jobs = replicate m r, ep_Now = T0\<rparr>)" "\<not> IsZero (ScheduledAt r)" "storable (ScheduledAt r)" "PriorityBoost r = 0"
  shows "probe pick view (suite_enqueue (replicate m r) k) n (i, xs) =
    probe pick view (k (map (\<lambda>d. shown (stamp_row T0 (i + 1 + int d) (ScheduledAt r) r)) [0..<m])) (n + 1)
      (i + int m, xs @ map (\<lambda>d. stamp_row T0 (i + 1 + int d) (ScheduledAt r) r) [0..<m])"
proof -
  have prio: "enqueue_prio T0 (replicate m r) = Inr (replicate m (ScheduledAt r))" for m
    using assms(2-4) by (induction m) (simp_all add: SubDuration_spec Let_def)
  have st: "l_store T0 (replicate m (r, ScheduledAt r)) (i, xs) =
      (map (\<lambda>d. stamp_row T0 (i + 1 + int d) (ScheduledAt r) r) [0..<m],
       (i + int m, xs @ map (\<lambda>d. stamp_row T0 (i + 1 + int d) (ScheduledAt r) r) [0..<m]))" for m i xs
  proof (induction m arbitrary: i xs)
    case (Suc m)
    have "map (\<lambda>d. stamp_row T0 (i + 1 + int d) (ScheduledAt r) r) [0..<Suc m] =
        stamp_row T0 (i + 1) (ScheduledAt r) r # map (\<lambda>d. stamp_row T0 (i + 1 + 1 + int d) (ScheduledAt r) r) [0..<m]"
      unfolding map_upt_Suc by (simp add: ac_simps)
    then show ?case using Suc.IH [of "i + 1" "xs @ [stamp_row T0 (i + 1) (ScheduledAt r) r]"] by (simp add: Let_def)
  qed simp
  have "lexec (with_order (map ID (snd (i, xs))) (OpEnqueue \<lparr>ep_Jobs = replicate m r, ep_Now = T0\<rparr>)) (i, xs) =
      (Enqueued (Inr (map (\<lambda>d. stamp_row T0 (i + 1 + int d) (ScheduledAt r) r) [0..<m])),
       (i + int m, xs @ map (\<lambda>d. stamp_row T0 (i + 1 + int d) (ScheduledAt r) r) [0..<m]))"
    by (simp add: prio st)
  from run_call [OF assms(1) _ this view_rows(1)] show ?thesis by (simp add: suite_enqueue_def rows_of_def comp_def)
qed

end

text \<open>A sweep whose limit is not reached takes all there is and leaves nothing for the next one.\<close>

lemma listed_batch:
  "ID r = 0 \<Longrightarrow> listed (int m, map (\<lambda>d. stamp_row T0 (1 + int d) t r) [0..<m])"
  by (auto simp: listed_def stamp_row_def Let_def comp_def distinct_map inj_on_def)

lemma lookup_row: "distinct (map ID xs) \<Longrightarrow> j \<in> set xs \<Longrightarrow> lookup xs (ID j) = Some j"
  by (simp add: lookup_Some)

lemma picked_order:
  assumes "listed l" "fits P limit l"
  shows "picked P limit (map ID (snd l)) (lookup (snd l)) = map ID (filter P (snd l))"
proof -
  have "distinct (map ID (snd l))" using assms(1) by (simp add: listed_def)
  then have "filter (hit P (lookup (snd l))) (map ID (snd l)) = map ID (filter P (snd l))"
    unfolding filter_map comp_def by (intro arg_cong [where f = "map ID"] filter_cong) (simp_all add: hit_def lookup_row)
  then show ?thesis using assms(2) by (simp add: picked_def fits_def)
qed

lemma l_sweep_all:
  assumes "listed l" "fits P limit l"
  shows "l_sweep P g (picked P limit (map ID (snd l)) (lookup (snd l))) l =
    (Counted (Inr (int (length (filter P (snd l))))), (fst l, map (\<lambda>j. if P j then g j else j) (snd l)))"
proof -
  have d: "distinct (map ID (snd l))" using assms(1) by (simp add: listed_def)
  have "ID j \<in> ID ` set (filter P (snd l)) \<longleftrightarrow> P j" if "j \<in> set (snd l)" for j
    using that d by (auto simp: distinct_map dest: inj_onD)
  then show ?thesis by (simp add: l_sweep_def picked_order [OF assms])
qed

lemma distinct_count: "distinct xs \<Longrightarrow> list_all (\<lambda>x. count_list xs x = Suc 0) xs"
  by (simp add: list_all_iff distinct_count_atmost_1 flip: count_mset)

context suite_backend
begin

text \<open>\<open>testConcurrentFetch\<close> for any number of jobs and of workers.\<close>

lemma run_testConcurrentFetch:
  assumes "fine (OpEnqueue \<lparr>ep_Jobs = replicate m (suite_row ''k'' ''q''), ep_Now = T0\<rparr>)" "fine (call_fetch ''q'' 7 ''c'' T0)" "0 < w"
  shows "probe pick view (testConcurrentFetch m w) 0 (0, []) = Some None"
proof -
  let ?r = "suite_row ''k'' ''q''"
  define p where "p = \<lparr>fp_Queue = ''q'', fp_Limit = 7, fp_ClientID = ''c'', fp_Now = T0\<rparr>"
  have r: "ScheduledAt ?r = T0" "PriorityBoost ?r = 0" "ID ?r = 0" "\<not> IsZero T0" "storable T0" "Queue ?r = ''q''"
    by (simp_all add: suite_row_def zero_row_def IsZero_def T0_def zero_time_def storable_iff min_i64_def max_i64_def)
  define l where "l = (int m, map (\<lambda>d. stamp_row T0 (1 + int d) T0 ?r) [0..<m])"
  have l: "listed l" unfolding l_def using r(3) by (rule listed_batch)
  have "due p (stamp_row T0 i T0 ?r)" for i by (simp add: due_def stamp_row_def p_def Let_def r)
  then have "filter (due p) (snd l) = snd l" by (simp add: l_def filter_map comp_def)
  then have av: "avail p l = ID ` set (snd l)" by (simp add: avail_def)
  have card: "card (avail p l) = m" using l distinct_card [of "map ID (snd l)"] unfolding av by (simp add: listed_def) (simp add: l_def)
  note e = run_enqueue [OF assms(1), of _ 0 0 "[]"]
  have "\<exists>seen n l'. probe pick view (testConcurrentFetch m w) 0 (0, []) =
      probe pick view (check (card (set seen) = m) ''claimed unique jobs'' (check (list_all (\<lambda>i. count_list seen i = 1) seen) ''job delivered'' Pass)) n l' \<and>
      distinct seen \<and> set seen = {} \<union> avail p l"
    unfolding testConcurrentFetch_def using e r(1,2,4,5) run_workers [OF assms(2) l, of "[]" w "m + w", folded p_def] card assms(3)
    by (simp add: l_def)
  then show ?thesis using card by (auto simp: check_def distinct_count)
qed

text \<open>The first \<open>MoveDue\<close> moves all that is due and the calls after it find nothing.\<close>

lemma run_move:
  assumes "fine (OpMoveDue [] p)" "listed l" "fits (movable (mp_Now p)) (mp_Limit p) l"
  shows "probe pick view (count_ok (OpMoveDue [] p) k) n l =
    probe pick view (k (int (length (filter (movable (mp_Now p)) (snd l))))) (n + 1)
      (fst l, map (\<lambda>j. if movable (mp_Now p) j then j\<lparr>State := StateAvailable\<rparr> else j) (snd l))"
  by (rule run_count [OF assms(1)]) (use assms(3) l_sweep_all [OF assms(2,3)] in simp_all)

lemma run_moves_none:
  assumes "fine (OpMoveDue [] p)" "listed l" "filter (movable (mp_Now p)) (snd l) = []" "0 \<le> mp_Limit p"
  shows "\<exists>n'. probe pick view (counts_then m (OpMoveDue [] p) acc k) n l = probe pick view (k acc) n' l"
proof (induction m arbitrary: n)
  case (Suc m)
  have "map (\<lambda>j. if movable (mp_Now p) j then j\<lparr>State := StateAvailable\<rparr> else j) (snd l) = snd l"
    using assms(3) by (simp add: filter_empty_conv map_idI)
  then show ?case using Suc.IH [of "n + 1"] run_move [OF assms(1,2), of _ n] assms(3,4) by (simp add: fits_def)
qed auto

lemma run_testMoveDueIdempotent:
  assumes "fine (OpEnqueue \<lparr>ep_Jobs = replicate 50 ((suite_row ''k'' ''q'')\<lparr>ScheduledAt := after second\<rparr>), ep_Now = T0\<rparr>)"
    "fine (call_move (after minute) 1000)"
  shows "probe pick view testMoveDueIdempotent 0 (0, []) = Some None"
proof -
  let ?r = "(suite_row ''k'' ''q'')\<lparr>ScheduledAt := after second\<rparr>"
  define t where "t = after second"
  define p where "p = \<lparr>mp_Now = after minute, mp_Limit = 1000\<rparr>"
  have op: "call_move (after minute) 1000 = OpMoveDue [] p" by (simp add: call_move_def p_def)
  have r: "ScheduledAt ?r = t" "PriorityBoost ?r = 0" "ID ?r = 0" by (simp_all add: suite_row_def zero_row_def t_def)
  have t: "\<not> IsZero t" "storable t" "T0 < t" "\<not> after minute < t"
    by (simp_all add: t_def IsZero_def T0_def zero_time_def storable_iff min_i64_def max_i64_def second_def minute_def time_Add_def nanosecond_def)
  define l where "l = (50::int, map (\<lambda>d. stamp_row T0 (1 + int d) t ?r) [0..<50])"
  have l: "listed l" using listed_batch [OF r(3), of 50 t] by (simp add: l_def)
  have mv: "movable (mp_Now p) (stamp_row T0 i t ?r)" for i using t [unfolded t_def] by (simp add: movable_def stamp_row_def p_def Let_def t_def)
  then have all: "filter (movable (mp_Now p)) (snd l) = snd l" "length (snd l) = 50" by (simp_all add: l_def filter_map comp_def)
  define l' where "l' = (fst l, map (\<lambda>j. if movable (mp_Now p) j then j\<lparr>State := StateAvailable\<rparr> else j) (snd l))"
  have l': "listed l'" unfolding l'_def by (rule listed_map [OF l]) simp
  have none: "filter (movable (mp_Now p)) (snd l') = []" by (auto simp: l'_def filter_empty_conv movable_def)
  have m: "probe pick view (counts_then 4 (OpMoveDue [] p) 0 k) n l = probe pick view (counts_then 3 (OpMoveDue [] p) 50 k) (n + 1) l'" for k n
    using run_move [OF assms(2) [unfolded op] l, of "\<lambda>m. counts_then 3 (OpMoveDue [] p) m k" n] all by (simp add: fits_def l'_def numeral_eq_Suc p_def)
  obtain n' where z: "probe pick view (counts_then 3 (OpMoveDue [] p) 50 k) (Suc (Suc 0)) l' = probe pick view (k 50) n' l'"
    if "k = (\<lambda>moved. check (moved = 50) ''concurrent MoveDue moved'' Pass)" for k
    using run_moves_none [OF assms(2) [unfolded op] l' none] by (fastforce simp: p_def)
  show ?thesis
    using run_enqueue [OF assms(1), of _ 0 0 "[]"] r t m z
    by (simp add: testMoveDueIdempotent_def op l_def check_def)
qed

end

end
