(* ===== verification/Suite_Sweeps.thy ===== *)
theory Suite_Sweeps
  imports Suite_Concurrent
begin

text \<open>
  The tests of the conformance suite that sweep: rescuers and cleaners side by side, for every order in which their calls are
  served, and a cleaner whose limit leaves rows behind.
\<close>

subsection \<open>Twenty jobs, claimed and half of them completed\<close>

definition sweep_row :: "nat \<Rightarrow> job_row" where
  "sweep_row d = stamp_row T0 (1 + int d) T0 (suite_row ''sweep'' ''q'')"

definition one_claim :: fetch_params where
  "one_claim = \<lparr>fp_Queue = ''q'', fp_Limit = 1, fp_ClientID = ''c1'', fp_Now = T0\<rparr>"

text \<open>Of \<open>n\<close> jobs the first \<open>a\<close> are claimed and of these the first \<open>c\<close> completed.\<close>

definition staged :: "nat \<Rightarrow> nat \<Rightarrow> nat \<Rightarrow> job_row" where
  "staged a c d =
     (if d < c then (claim one_claim (sweep_row d))\<lparr>FinalizedAt := T0, State := StateCompleted\<rparr>
      else if d < a then claim one_claim (sweep_row d) else sweep_row d)"

definition stage :: "nat \<Rightarrow> nat \<Rightarrow> nat \<Rightarrow> lstore" where
  "stage n a c = (int n, map (staged a c) [0..<n])"

lemma sweep_row_sel:
  "ID (sweep_row d) = 1 + int d" "PriorityAt (sweep_row d) = T0" "Generation (sweep_row d) = 0" "due one_claim (sweep_row d)"
  by (simp_all add: sweep_row_def stamp_row_def suite_row_def zero_row_def due_def one_claim_def IsZero_def T0_def zero_time_def Let_def)

lemma staged_ID [simp]: "ID (staged a c d) = 1 + int d"
  by (simp add: staged_def sweep_row_sel)

lemma listed_stage: "listed (stage n a c)"
  by (auto simp: listed_def stage_def comp_def distinct_map inj_on_def)

lemma first_due_stage:
  assumes "a < n"
  shows "first_due one_claim (stage n a 0) = [sweep_row a]"
proof -
  have "\<not> due one_claim (claim one_claim j)" for j by (simp add: due_def claim_def)
  then have d: "due one_claim (staged a 0 d) \<longleftrightarrow> a \<le> d" for d using sweep_row_sel(4) [of d] by (simp add: staged_def)
  have s: "[0..<n] = [0..<a] @ a # [Suc a..<n]" using assms upt_add_eq_append [of 0 a "n - a"] upt_conv_Cons [of a n] by simp
  have "filter (due one_claim) (snd (stage n a 0)) = map sweep_row (a # [Suc a..<n])"
    by (simp add: stage_def s filter_map comp_def d) (simp add: staged_def)
  moreover have "sort_key prio_key (map sweep_row (a # [Suc a..<n])) = map sweep_row (a # [Suc a..<n])"
  proof (rule sort_key_id_if_sorted)
    have "map prio_key (map sweep_row (a # [Suc a..<n])) = map (\<lambda>d. (T0, 1 + int d)) [a..<n]"
      using assms by (simp add: prio_key_def sweep_row_sel upt_conv_Cons)
    moreover have "sorted (map (\<lambda>d. (T0, 1 + int d)) [a..<n])"
      unfolding sorted_map by (rule sorted_wrt_mono_rel [OF _ sorted_wrt_upt]) simp
    ultimately show "sorted (map prio_key (map sweep_row (a # [Suc a..<n])))" by simp
  qed
  moreover have "fp_Limit one_claim = 1" by (simp add: one_claim_def)
  ultimately show ?thesis unfolding first_due_def by (simp only:) simp
qed

lemma after_fetch_stage:
  assumes "a < n"
  shows "after_fetch one_claim (stage n a 0) = stage n (Suc a) 0"
  by (simp add: after_fetch_def first_due_stage [OF assms]) (simp add: stage_def sweep_row_sel staged_def less_Suc_eq)

lemma complete_stage:
  assumes "c < a" "a \<le> n"
  shows "lexec (call_complete T0 [(1 + int c, 1)]) (stage n a c) = (Finalized None, stage n a (Suc c))"
proof -
  have "running_at 1 (staged a c c)" using assms by (simp add: staged_def running_at_def claim_def sweep_row_sel)
  moreover have "staged a c c \<in> set (snd (stage n a c))" using assms by (simp add: stage_def)
  ultimately have "list_ex (\<lambda>j. ID j = 1 + int c \<and> running_at 1 j) (snd (stage n a c))" unfolding list_ex_iff by (intro bexI [of _ "staged a c c"]) simp_all
  moreover have "map (\<lambda>j. if ID j = 1 + int c then apply_complete \<lparr>jf_ID = 1 + int c, jf_Generation = 1, jf_Metadata = RawNil\<rparr> (j\<lparr>FinalizedAt := T0\<rparr>) else j)
      (map (staged a c) [0..<n]) = map (staged a (Suc c)) [0..<n]"
    using assms by (simp add: staged_def apply_complete_def mergeMeta_def less_Suc_eq sweep_row_sel)
  ultimately show ?thesis by (simp add: call_complete_def l_finalize_def stage_def)
qed

context suite_backend
begin

lemma run_final:
  assumes "fine x" "uncut x l" "lexec (with_order (map ID (snd l)) x) l = (Finalized None, l')"
  shows "probe pick view (ok_of msg x k) n l = probe pick view k (n + 1) l'"
  using run_call [OF assms view_rest(2)] by (simp add: ok_of_def error_of_def)

lemma run_enqueues:
  assumes f: "fine (OpEnqueue \<lparr>ep_Jobs = [suite_row ''sweep'' ''q''], ep_Now = T0\<rparr>)"
  shows "probe pick view (for_each xs (\<lambda>_ next. suite_enqueue [suite_row ''sweep'' ''q''] (\<lambda>_. next)) k) c (stage n 0 0) =
    probe pick view k (c + length xs) (stage (n + length xs) 0 0)"
proof (induction xs arbitrary: c n)
  case (Cons x xs)
  have r: "ScheduledAt (suite_row ''sweep'' ''q'') = T0" "PriorityBoost (suite_row ''sweep'' ''q'') = 0" "\<not> IsZero T0" "storable T0"
    by (simp_all add: suite_row_def zero_row_def IsZero_def T0_def zero_time_def storable_iff min_i64_def max_i64_def)
  have s: "(int n + 1, snd (stage n 0 0) @ [stamp_row T0 (int n + 1) T0 (suite_row ''sweep'' ''q'')]) = stage (Suc n) 0 0"
    by (simp add: stage_def staged_def sweep_row_def add.commute)
  show ?case using run_enqueue [of 1 "suite_row ''sweep'' ''q''" _ c "int n" "snd (stage n 0 0)"] f r s Cons.IH [of "Suc c" "Suc n"]
    by (simp add: stage_def ac_simps)
qed simp

lemma run_claimOnes:
  assumes "fine (call_fetch ''q'' 1 ''c1'' T0)"
  shows "a + m \<le> n \<Longrightarrow> probe pick view (claims_then m ''q'' k) i (stage n a 0) =
    probe pick view (k (map (\<lambda>d. stored (claim one_claim (sweep_row d))) [a..<a + m])) (i + m) (stage n (a + m) 0)"
proof (induction m arbitrary: a i k)
  case (Suc m)
  have op: "call_fetch ''q'' 1 ''c1'' T0 = OpFetch [] one_claim" by (simp add: call_fetch_def one_claim_def)
  have a: "a < n" using Suc.prems by simp
  have "[a..<a + Suc m] = a # [Suc a..<Suc a + m]" by (simp add: upt_conv_Cons)
  moreover have "0 \<le> fp_Limit one_claim" by (simp add: one_claim_def)
  ultimately show ?case
    using run_fetch [OF assms [unfolded op], of _ i "stage n a 0"] Suc.IH [of "Suc a" _ "i + 1"] Suc.prems
    by (simp add: claimOne_def suite_fetch_def op first_due_stage [OF a] after_fetch_stage [OF a])
qed simp

lemma run_completes:
  assumes "\<And>es. fine (call_complete T0 es)"
  shows "c + m \<le> a \<Longrightarrow> a \<le> n \<Longrightarrow>
    probe pick view (for_each (map (\<lambda>d. stored (claim one_claim (sweep_row d))) [c..<c + m]) (\<lambda>j next. ok_of msg (call_complete T0 [tok j]) next) k) i (stage n a c) =
    probe pick view k (i + m) (stage n a (c + m))"
proof (induction m arbitrary: c i)
  case (Suc m)
  have t: "tok (stored (claim one_claim (sweep_row c))) = (1 + int c, 1)" by (simp add: stored_token claim_def sweep_row_sel)
  have w: "uncut (call_complete T0 es) l" "with_order ord (call_complete T0 es) = call_complete T0 es" for es l ord
    by (simp_all add: call_complete_def)
  have "[c..<c + Suc m] = c # [Suc c..<Suc c + m]" by (simp add: upt_conv_Cons)
  then show ?case
    using run_final [OF assms w(1), unfolded w(2), OF complete_stage, of c a n] Suc.IH [of "Suc c" "i + 1"] Suc.prems
    by (simp add: t)
qed simp

end


subsection \<open>Sweeps that their limit does not cut\<close>

definition the_rescue :: rescue_params where
  "the_rescue = \<lparr>sr_Now = after hour, sr_TTL = minute, sr_Limit = 100\<rparr>"

definition the_clean :: "int \<Rightarrow> clean_params" where
  "the_clean limit = \<lparr>cl_Now = after (48 * hour), cl_CompletedRetention = hour, cl_CancelledRetention = hour,
     cl_DeadRetention = hour, cl_Limit = limit\<rparr>"

abbreviation stales :: "lstore \<Rightarrow> job_row list" where
  "stales l \<equiv> filter (stale_since (rescue_cutoff the_rescue)) (snd l)"

abbreviation olds :: "int \<Rightarrow> lstore \<Rightarrow> job_row list" where
  "olds limit l \<equiv> filter (expired (the_clean limit)) (snd l)"

definition rescued :: "lstore \<Rightarrow> lstore" where
  "rescued l = (fst l, map (\<lambda>j. if stale_since (rescue_cutoff the_rescue) j then rescue_row (after hour) j else j) (snd l))"

definition cleaned :: "lstore \<Rightarrow> lstore" where
  "cleaned l = (fst l, filter (\<lambda>j. \<not> expired (the_clean 100) j) (snd l))"

text \<open>No row is in the way of both: the first kind is running and the second has ended.\<close>

lemma stale_not_old: "stale_since t j \<Longrightarrow> \<not> expired p j"
  by (simp add: stale_since_def expired_def)

lemma rescued_counts: "stales (rescued l) = []" "length (olds n (rescued l)) = length (olds n l)"
proof -
  have "\<not> stale_since t (rescue_row now j)" "\<not> expired p (rescue_row now j)" for t now j p
    by (simp_all add: stale_since_def rescue_row_def expired_def)
  then show "stales (rescued l) = []" "length (olds n (rescued l)) = length (olds n l)"
    by (auto simp: rescued_def filter_empty_conv filter_map comp_def stale_not_old intro!: arg_cong [where f = length] filter_cong)
qed

lemma cleaned_counts: "stales (cleaned l) = stales l" "olds 100 (cleaned l) = []"
  by (auto simp: cleaned_def filter_empty_conv stale_not_old intro!: filter_cong)

lemma staged_sweeps:
  "length (stales (stage n a c)) = length (filter (\<lambda>d. c \<le> d \<and> d < a) [0..<n])"
  "length (olds m (stage n a c)) = length (filter (\<lambda>d. d < c) [0..<n])"
proof -
  have "stale_since (rescue_cutoff the_rescue) (staged a c d) \<longleftrightarrow> c \<le> d \<and> d < a" "expired (the_clean m) (staged a c d) \<longleftrightarrow> d < c" for d
    by (simp_all add: staged_def stale_since_def expired_def claim_def one_claim_def sweep_row_def stamp_row_def suite_row_def zero_row_def
      rescue_cutoff_def the_rescue_def the_clean_def T0_def hour_def minute_def second_def nanosecond_def time_Add_def Let_def IsZero_def zero_time_def)
  then show "length (stales (stage n a c)) = length (filter (\<lambda>d. c \<le> d \<and> d < a) [0..<n])"
    "length (olds m (stage n a c)) = length (filter (\<lambda>d. d < c) [0..<n])"
    by (simp_all add: stage_def filter_map comp_def)
qed

lemma listed_rescued: "listed l \<Longrightarrow> listed (rescued l)"
  unfolding rescued_def by (rule listed_map) (simp_all add: rescue_row_def)

lemma listed_filter: "listed l \<Longrightarrow> listed (fst l, filter P (snd l))"
  by (auto simp: listed_def distinct_map_filter)

context suite_backend
begin

lemma run_rescue:
  assumes "fine (OpRescueStale [] the_rescue)" "listed l" "length (stales l) \<le> 100"
  shows "probe pick view (count_ok (OpRescueStale [] the_rescue) k) n l = probe pick view (k (int (length (stales l)))) (n + 1) (rescued l)"
proof -
  have f: "fits (stale_since (rescue_cutoff the_rescue)) (sr_Limit the_rescue) l" using assms(3) by (simp add: fits_def the_rescue_def)
  have "sr_Now the_rescue = after hour" by (simp add: the_rescue_def)
  then show ?thesis
    by (intro run_count [OF assms(1)]) (use f l_sweep_all [OF assms(2) f] in \<open>simp_all add: rescued_def\<close>)
qed

lemma run_clean:
  assumes "fine (OpClean [] (the_clean 100))" "listed l" "length (olds 100 l) \<le> 100"
  shows "probe pick view (count_ok (OpClean [] (the_clean 100)) k) n l = probe pick view (k (int (length (olds 100 l)))) (n + 1) (cleaned l)"
proof -
  have f: "fits (expired (the_clean 100)) (cl_Limit (the_clean 100)) l" using assms(3) by (simp add: fits_def the_clean_def)
  have "distinct (map ID (snd l))" using assms(2) by (simp add: listed_def)
  then have "ID j \<in> ID ` set (olds 100 l) \<longleftrightarrow> expired (the_clean 100) j" if "j \<in> set (snd l)" for j
    using that by (auto simp: distinct_map dest: inj_onD)
  then have "filter (\<lambda>j. ID j \<notin> ID ` set (olds 100 l)) (snd l) = snd (cleaned l)" by (simp add: cleaned_def cong: filter_cong)
  then show ?thesis
    by (intro run_count [OF assms(1)]) (use f in \<open>simp_all add: picked_order [OF assms(2) f] cleaned_def\<close>)
qed

lemma run_sweeps:
  assumes "fine (OpRescueStale [] the_rescue)" "fine (OpClean [] (the_clean 100))"
  shows "listed l \<Longrightarrow> length (stales l) \<le> 100 \<Longrightarrow> length (olds 100 l) \<le> 100 \<Longrightarrow>
    \<exists>n' l'. probe pick view (sweeps_then order r c k) n l =
      probe pick view (k (r + (if True \<in> set order then int (length (stales l)) else 0))
                         (c + (if False \<in> set order then int (length (olds 100 l)) else 0))) n' l'"
proof (induction order arbitrary: r c n l)
  case (Cons s order)
  have op: "call_rescue (after hour) minute 100 = OpRescueStale [] the_rescue"
    "call_clean (after (48 * hour)) hour hour hour 100 = OpClean [] (the_clean 100)"
    by (simp_all add: call_rescue_def call_clean_def the_rescue_def the_clean_def)
  show ?case
  proof (cases s)
    case True
    then show ?thesis
      using Cons.IH [of "rescued l" "r + int (length (stales l))" c "n + 1"] run_rescue [OF assms(1) Cons.prems(1,2)] listed_rescued [OF Cons.prems(1)]
        Cons.prems(3)
      by (simp add: op rescued_counts cong: if_cong)
  next
    case False
    have "listed (cleaned l)" unfolding cleaned_def using Cons.prems(1) by (rule listed_filter)
    then show ?thesis
      using Cons.IH [of "cleaned l" r "c + int (length (olds 100 l))" "n + 1"] run_clean [OF assms(2) Cons.prems(1,3)] Cons.prems(2) False
      by (simp add: op cleaned_counts cong: if_cong)
  qed
qed auto

lemma run_testConcurrentSweeps:
  assumes "fine (OpEnqueue \<lparr>ep_Jobs = [suite_row ''sweep'' ''q''], ep_Now = T0\<rparr>)" "fine (call_fetch ''q'' 1 ''c1'' T0)"
    "\<And>es. fine (call_complete T0 es)" "fine (OpRescueStale [] the_rescue)" "fine (OpClean [] (the_clean 100))"
    "True \<in> set order" "False \<in> set order"
  shows "probe pick view (testConcurrentSweepsDoNotDoubleCount order) 0 (0, []) = Some None"
proof -
  have n: "length (stales (stage 20 20 10)) = 10" "length (olds 100 (stage 20 20 10)) = 10"
    unfolding staged_sweeps by code_simp+
  let ?last = "\<lambda>rescued cleaned. check (rescued = (10::int)) ''no job may be rescued twice'' (
      check (cleaned = (10::int)) ''no row may be deleted twice'' Pass)"
  have "\<exists>n' l'. probe pick view (sweeps_then order 0 0 ?last) 50 (stage 20 20 10) = probe pick view (?last 10 10) n' l'"
    using run_sweeps [OF assms(4,5) listed_stage, of 20 20 10 order 0 0 ?last 50] n assms(6,7) by simp
  then have sweeps: "probe pick view (sweeps_then order 0 0 ?last) 50 (stage 20 20 10) = Some None" by (auto simp: check_def)
  have "stage 0 0 0 = (0, [])" by (simp add: stage_def)
  then show ?thesis
    using run_enqueues [OF assms(1), of "[0..<20]" _ 0 0] run_claimOnes [OF assms(2), of 0 20 20 _ 20] run_completes [OF assms(3), of 0 10 20 20 _ _ 40] sweeps
    by (simp add: testConcurrentSweepsDoNotDoubleCount_def take_map take_upt)
qed

end

subsection \<open>A cleaner whose limit leaves rows behind\<close>

lemma hits_count:
  assumes "listed l" "ranges ord (abs_of l)"
  shows "length (filter (hit P (lookup (snd l))) ord) = length (filter P (snd l))"
proof -
  have d: "distinct (map ID (snd l))" using assms(1) by (simp add: listed_def)
  have "set (filter (hit P (lookup (snd l))) ord) = set (map ID (filter P (snd l)))"
    using assms(2) d by (auto simp: ranges_def hit_iff lookup_Some)
  moreover have "distinct (filter (hit P (lookup (snd l))) ord)" "distinct (map ID (filter P (snd l)))"
    using assms(2) d by (simp_all add: ranges_def distinct_map_filter)
  ultimately have "length (filter (hit P (lookup (snd l))) ord) = length (map ID (filter P (snd l)))"
    by (metis distinct_card)
  then show ?thesis by simp
qed

lemma length_removed:
  assumes "distinct (map ID xs)" "set ids \<subseteq> ID ` set xs" "distinct ids"
  shows "length (filter (\<lambda>j. ID j \<notin> set ids) xs) = length xs - length ids"
proof -
  have "length (filter (\<lambda>j. ID j \<in> set ids) xs) = card (ID ` set xs \<inter> set ids)"
  proof -
    have "set (map ID (filter (\<lambda>j. ID j \<in> set ids) xs)) = ID ` set xs \<inter> set ids" by auto
    then show ?thesis using distinct_card [OF distinct_map_filter [OF assms(1)], of "\<lambda>j. ID j \<in> set ids"] by simp
  qed
  also have "ID ` set xs \<inter> set ids = set ids" using assms(2) by blast
  finally show ?thesis using sum_length_filter_compl [of "\<lambda>j. ID j \<in> set ids" xs] distinct_card [OF assms(3)] by simp
qed

text \<open>The six jobs, two of them completed, two cancelled and two dead.\<close>

definition fatal_attempt :: attempt_error where
  "fatal_attempt = attempt_err T0 3 ''fatal''"

definition ended1 :: lstore where
  "ended1 = snd (lexec (call_complete T0 [(1, 1), (2, 1)]) (stage 6 6 0))"

definition ended2 :: lstore where
  "ended2 = snd (lexec (call_cancel T0 [(3, 1, []), (4, 1, [])]) ended1)"

definition ended :: lstore where
  "ended = snd (lexec (call_kill T0 [(5, 1, fatal_attempt), (6, 1, fatal_attempt)]) ended2)"

lemma ended_replies:
  "fst (lexec (call_complete T0 [(1, 1), (2, 1)]) (stage 6 6 0)) = Finalized None"
  "fst (lexec (call_cancel T0 [(3, 1, []), (4, 1, [])]) ended1) = Finalized None"
  "fst (lexec (call_kill T0 [(5, 1, fatal_attempt), (6, 1, fatal_attempt)]) ended2) = Finalized None"
  by code_simp+

lemma ended_steps:
  "lexec (call_complete T0 [(1, 1), (2, 1)]) (stage 6 6 0) = (Finalized None, ended1)"
  "lexec (call_cancel T0 [(3, 1, []), (4, 1, [])]) ended1 = (Finalized None, ended2)"
  "lexec (call_kill T0 [(5, 1, fatal_attempt), (6, 1, fatal_attempt)]) ended2 = (Finalized None, ended)"
  using ended_replies by (simp_all add: prod_eq_iff ended1_def ended2_def ended_def)

lemma olds_ended: "length (olds 3 ended) = 6"
  by code_simp

lemma listed_ended: "listed ended"
  by code_simp

text \<open>What the calls report that take rows away until none is left.\<close>

primrec drained :: "nat \<Rightarrow> nat \<Rightarrow> int list \<Rightarrow> bool" where
  "drained most m [] \<longleftrightarrow> True"
| "drained most m (want # wants) \<longleftrightarrow> want = int (min most m) \<and> drained most (m - most) wants"

context suite_backend
begin

lemma run_cut:
  assumes "fine (OpClean [] (the_clean most))" "listed l"
  shows "\<exists>l'. probe pick view (count_ok (OpClean [] (the_clean most)) k) n l = probe pick view (k (int (min (nat most) (length (olds most l))))) (n + 1) l' \<and>
    listed l' \<and> length (olds most l') = length (olds most l) - nat most"
proof -
  let ?p = "the_clean most"
  obtain ord where o: "ranges ord (abs_of l)" "pick n (OpClean [] ?p) l = Some (OpClean ord ?p)"
    using pick_cut [OF assms, of n] by auto
  define ids where "ids = picked (expired ?p) most ord (lookup (snd l))"
  define l' where "l' = (fst l, filter (\<lambda>j. ID j \<notin> set ids) (snd l))"
  have len: "length ids = min (nat most) (length (olds most l))"
    using hits_count [OF assms(2) o(1), of "expired ?p"] by (simp add: ids_def picked_def min.commute)
  have d: "distinct (map ID (snd l))" "distinct ids" using assms(2) o(1) by (simp_all add: listed_def ids_def picked_def ranges_def)
  have "set ids \<subseteq> ID ` set (olds most l)" using d(1) by (auto simp: ids_def picked_def hit_lookup dest!: in_set_takeD)
  from length_removed [OF distinct_map_filter [OF d(1)] this d(2)]
  have "length (olds most l') = length (olds most l) - length ids" by (simp add: l'_def conj_commute)
  moreover have "cl_Limit ?p = most" by (simp add: the_clean_def)
  then have "lexec (OpClean ord ?p) l = (Counted (Inr (int (length ids))), l')" by (simp add: ids_def l'_def Let_def)
  then have "probe pick view (count_ok (OpClean [] ?p) k) n l = probe pick view (k (int (length ids))) (n + 1) l'"
    using o(2) by (simp add: count_ok_def count_of_def view_rest)
  moreover have "listed l'" unfolding l'_def using assms(2) by (rule listed_filter)
  ultimately show ?thesis unfolding len by (intro exI [of _ l']) simp
qed

lemma run_cuts:
  assumes "fine (OpClean [] (the_clean most))"
  shows "listed l \<Longrightarrow> drained (nat most) (length (olds most l)) wants \<Longrightarrow>
    probe pick view (for_each wants (\<lambda>want next. count_ok (OpClean [] (the_clean most)) (\<lambda>n. check (n = want) msg next)) Pass) n l = Some None"
proof (induction wants arbitrary: n l)
  case (Cons want wants)
  let ?rest = "for_each wants (\<lambda>want next. count_ok (OpClean [] (the_clean most)) (\<lambda>n. check (n = want) msg next)) Pass"
  from run_cut [OF assms Cons.prems(1), of "\<lambda>n. check (n = want) msg ?rest" n] Cons.prems(2)
  obtain l' where l': "listed l'" "length (olds most l') = length (olds most l) - nat most"
    "probe pick view (count_ok (OpClean [] (the_clean most)) (\<lambda>n. check (n = want) msg ?rest)) n l = probe pick view ?rest (n + 1) l'"
    by (auto simp: check_def)
  then show ?case using Cons.IH [of l' "n + 1"] Cons.prems(2) by simp
qed simp

lemma run_testCleanLimitIsGlobal:
  assumes "fine (OpEnqueue \<lparr>ep_Jobs = [suite_row ''sweep'' ''q''], ep_Now = T0\<rparr>)" "fine (call_fetch ''q'' 1 ''c1'' T0)"
    "\<And>es. fine (call_complete T0 es)" "\<And>es. fine (call_cancel T0 es)" "\<And>i j. fine (call_kill T0 [(i, 1, fatal_attempt), (j, 1, fatal_attempt)])"
    "fine (OpClean [] (the_clean 3))"
  shows "probe pick view testCleanLimitIsGlobal 0 (0, []) = Some None"
proof -
  have op: "call_clean (after (48 * hour)) hour hour hour 3 = OpClean [] (the_clean 3)" by (simp add: call_clean_def the_clean_def)
  have w: "uncut (call_complete T0 es) l" "with_order ord (call_complete T0 es) = call_complete T0 es"
    "uncut (call_cancel T0 cs) l" "with_order ord (call_cancel T0 cs) = call_cancel T0 cs"
    "uncut (call_kill T0 ks) l" "with_order ord (call_kill T0 ks) = call_kill T0 ks" for es cs ks l ord
    by (simp_all add: call_complete_def call_cancel_def call_kill_def)
  note fin = run_final [OF assms(3) w(1), unfolded w(2), OF ended_steps(1)] run_final [OF assms(4) w(3), unfolded w(4), OF ended_steps(2)]
    run_final [OF assms(5) w(5), unfolded w(6), OF ended_steps(3)]
  have "drained (nat 3) (length (olds 3 ended)) [3, 3, 0]" by (simp add: olds_ended)
  from run_cuts [OF assms(6) listed_ended this] have cuts: "probe pick view (for_each [3, 3, 0] (\<lambda>want next. count_ok (OpClean [] (the_clean 3))
      (\<lambda>n. check (n = want) ''Limit is one global cap across all terminal states'' next)) Pass) n ended = Some None" for n .
  have tok: "ID (stored (claim one_claim (sweep_row d))) = 1 + int d" "Generation (stored (claim one_claim (sweep_row d))) = 1" for d
    by (simp_all add: stored_token claim_def sweep_row_sel)
  have six: "[0..<6] = [0, 1, 2, 3, 4, 5::nat]" by (simp add: upt_rec)
  have "stage 0 0 0 = (0, [])" by (simp add: stage_def)
  then show ?thesis
    using run_enqueues [OF assms(1), of "[0..<6]" _ 0 0] run_claimOnes [OF assms(2), of 0 6 6 _ 6, unfolded add_0 six] fin cuts
    by (simp add: testCleanLimitIsGlobal_def op tok fatal_attempt_def del: for_each.simps)
qed

end

end
