(* ===== verification/Suite_Conforms.thy ===== *)
theory Suite_Conforms
  imports Suite_Memory Suite_Memory_Finalize Suite_Postgres Suite_Postgres_Finalize Suite_Postgres_Maint Suite_Sweeps
begin

text \<open>
  The conformance suite as a whole, and that both backends pass it: the memory backend in every order of its map and for
  every interleaving of the concurrent tests, the PostgreSQL backend on a server that keeps instants to the microsecond.
\<close>

text \<open>\<open>Run\<close>: the tests with their names. \<open>order\<close> is the interleaving of the eight goroutines of the sweeping test.\<close>

definition Run :: "bool list \<Rightarrow> (string \<times> script) list" where
  "Run order =
     [(''EnqueueFillsRow'', testEnqueueFillsRow),
      (''FetchClaimsExclusively'', testFetchClaimsExclusively),
      (''FetchOrdersByEffectiveTime'', testFetchOrdersByEffectiveTime),
      (''FetchSkipsOtherQueuesAndFuture'', testFetchSkipsOtherQueuesAndFuture),
      (''ConcurrentFetchNoDoubleDelivery'', testConcurrentFetchNoDoubleDelivery),
      (''FinalizationsAreFenced'', testFinalizationsAreFenced),
      (''RetrySchedulesBackoff'', testRetrySchedulesBackoff),
      (''SnoozeDoesNotConsumeAttempt'', testSnoozeDoesNotConsumeAttempt),
      (''KillAndCancelAreTerminal'', testKillAndCancelAreTerminal),
      (''HeartbeatRenewsOnlyRunning'', testHeartbeatRenewsOnlyRunning),
      (''SnoozeReplayIsFenced'', testSnoozeReplayIsFenced),
      (''MoveDueIsIdempotentUnderConcurrency'', testMoveDueIdempotent),
      (''RescueStaleRespectsTTL'', testRescueStaleRespectsTTL),
      (''RescuedJobKeepsAttemptAndFencesOldFinalize'', testRescueFencing),
      (''CleanHonorsRetentionAndLimit'', testCleanHonorsRetention),
      (''StaleHeartbeatDoesNotRenew'', testStaleHeartbeatDoesNotRenew),
      (''RejectsInstantsOutsideRange'', testRejectsInstantsOutsideRange),
      (''AcceptsRangeBoundaries'', testAcceptsRangeBoundaries),
      (''DerivedPriorityClamps'', testDerivedPriorityClamps),
      (''PartialBatchesApplyLiveEntries'', testPartialBatchesApplyLiveEntries),
      (''DuplicateEntriesApplyOnce'', testDuplicateEntriesApplyOnce),
      (''HeartbeatIgnoresStaleEntries'', testHeartbeatIgnoresStaleEntries),
      (''BatchAppliesPerRowValues'', testBatchAppliesPerRowValues),
      (''EnqueueBatchFillsEachRow'', testEnqueueBatchFillsEachRow),
      (''SubMicrosecondBoostsOrder'', testSubMicrosecondBoostsOrder),
      (''NilMetadataRoundTrips'', testNilMetadataRoundTrips),
      (''CleanLimitIsGlobal'', testCleanLimitIsGlobal),
      (''ConcurrentSweepsDoNotDoubleCount'', testConcurrentSweepsDoNotDoubleCount order),
      (''RescuedJobKeepsPriorityBoost'', testRescuedJobKeepsPriorityBoost),
      (''CleanDistinguishesTerminalStates'', testCleanDistinguishesTerminalStates),
      (''MetadataRoundTripsThroughLifecycle'', testMetadataRoundTripsThroughLifecycle),
      (''ErrorHistoryAccumulates'', testErrorHistoryAccumulates)]"

subsection \<open>The backends as the tests see them\<close>

interpretation suite_mem: suite_backend "mem_pick ord" Some "\<lambda>_. keys_of ord" id id for ord
proof unfold_locales
  fix x l n
  assume "keys_of ord" "listed l"
  then show "\<exists>o'. ranges o' (abs_of l) \<and> mem_pick ord n x l = Some (with_order o' x)"
    using listed_ranges [of l] listed_ids_ok [of l]
    by (intro exI [of _ "if uncut x l then map ID (snd l) else ord n (abs_of l)"]) (simp add: mem_pick_def keys_of_def)
qed (simp_all add: pick_uncut)

definition passing :: "pg_env \<Rightarrow> op \<Rightarrow> bool" where
  "passing E x \<longleftrightarrow> portable E x \<and> cuts E \<and> (\<forall>b. ids_ok b \<longrightarrow> serves E b)"

interpretation suite_pg: suite_backend "pg_pick E" "image_of E" "passing E" default_version "canon E" for E
proof unfold_locales
  fix x l n
  assume "passing E x" "listed l"
  then show "\<exists>o'. ranges o' (abs_of l) \<and> pg_pick E n x l = Some (with_order o' x)"
    using listed_ranges [of l] listed_ids_ok [of l] in_order_ranges [of E "abs_of l" x] by (auto simp: pg_pick_def passing_def portable_agreed_list)
qed (simp_all add: pick_uncut passing_def portable_agreed_list canon_def scanJobRow_def enc_row_def)

subsection \<open>The concurrent tests\<close>

lemma mem_concurrent:
  assumes "keys_of ord"
  shows "probe (mem_pick ord) Some testConcurrentFetchNoDoubleDelivery 0 (0, []) = Some None"
    "probe (mem_pick ord) Some testMoveDueIdempotent 0 (0, []) = Some None"
    "probe (mem_pick ord) Some testCleanLimitIsGlobal 0 (0, []) = Some None"
    "True \<in> set order \<Longrightarrow> False \<in> set order \<Longrightarrow> probe (mem_pick ord) Some (testConcurrentSweepsDoNotDoubleCount order) 0 (0, []) = Some None"
  unfolding testConcurrentFetchNoDoubleDelivery_def
  by (rule suite_mem.run_testConcurrentFetch suite_mem.run_testMoveDueIdempotent suite_mem.run_testCleanLimitIsGlobal
      suite_mem.run_testConcurrentSweeps; simp add: assms)+

lemma passing_micro: "passing micro_pg x \<longleftrightarrow> portable micro_pg x"
  using micro_serves micro_cuts by (simp add: passing_def)

lemma micro_passing:
  "r \<in> {suite_row ''k'' ''q'', (suite_row ''k'' ''q'')\<lparr>ScheduledAt := after second\<rparr>, suite_row ''sweep'' ''q''} \<Longrightarrow>
     passing micro_pg (OpEnqueue \<lparr>ep_Jobs = replicate m r, ep_Now = T0\<rparr>)"
  "0 \<le> n \<Longrightarrow> passing micro_pg (call_fetch ''q'' n c T0)"
  "passing micro_pg (call_move (after minute) 1000)"
  "passing micro_pg (call_complete T0 es)" "passing micro_pg (call_cancel T0 cs)"
  "passing micro_pg (call_kill T0 [(i, 1, fatal_attempt), (j, 1, fatal_attempt)])"
  "passing micro_pg (OpRescueStale [] the_rescue)" "passing micro_pg (OpClean [] (the_clean k))"
  unfolding passing_micro by (auto simp: micro_pg_def suite_images suite_calls suite_rows fatal_attempt_def the_rescue_def the_clean_def)

lemma pg_concurrent:
  "probe (pg_pick micro_pg) (image_of micro_pg) testConcurrentFetchNoDoubleDelivery 0 (0, []) = Some None"
  "probe (pg_pick micro_pg) (image_of micro_pg) testMoveDueIdempotent 0 (0, []) = Some None"
  "probe (pg_pick micro_pg) (image_of micro_pg) testCleanLimitIsGlobal 0 (0, []) = Some None"
  "True \<in> set order \<Longrightarrow> False \<in> set order \<Longrightarrow>
     probe (pg_pick micro_pg) (image_of micro_pg) (testConcurrentSweepsDoNotDoubleCount order) 0 (0, []) = Some None"
  unfolding testConcurrentFetchNoDoubleDelivery_def
  by (rule suite_pg.run_testConcurrentFetch suite_pg.run_testMoveDueIdempotent suite_pg.run_testCleanLimitIsGlobal
      suite_pg.run_testConcurrentSweeps; simp add: micro_passing micro_passing(1) [where m = 1, simplified])+

subsection \<open>Conformance\<close>

lemmas mem_sequential =
  mem_EnqueueFillsRow mem_FetchClaimsExclusively mem_FetchOrdersByEffectiveTime mem_FetchSkipsOtherQueuesAndFuture
  mem_EnqueueBatchFillsEachRow mem_SubMicrosecondBoostsOrder mem_FinalizationsAreFenced mem_RetrySchedulesBackoff
  mem_SnoozeDoesNotConsumeAttempt mem_KillAndCancelAreTerminal mem_SnoozeReplayIsFenced mem_PartialBatchesApplyLiveEntries
  mem_DuplicateEntriesApplyOnce mem_BatchAppliesPerRowValues mem_HeartbeatRenewsOnlyRunning mem_RescueStaleRespectsTTL
  mem_RescueFencing mem_CleanHonorsRetention mem_StaleHeartbeatDoesNotRenew mem_HeartbeatIgnoresStaleEntries
  mem_RescuedJobKeepsPriorityBoost mem_CleanDistinguishesTerminalStates mem_RejectsInstantsOutsideRange
  mem_AcceptsRangeBoundaries mem_DerivedPriorityClamps mem_NilMetadataRoundTrips mem_MetadataRoundTripsThroughLifecycle
  mem_ErrorHistoryAccumulates

lemmas pg_sequential = pg_AcceptsRangeBoundaries
  pg_EnqueueFillsRow pg_FetchClaimsExclusively pg_FetchOrdersByEffectiveTime pg_FetchSkipsOtherQueuesAndFuture
  pg_EnqueueBatchFillsEachRow pg_SubMicrosecondBoostsOrder pg_FinalizationsAreFenced pg_RetrySchedulesBackoff
  pg_SnoozeDoesNotConsumeAttempt pg_KillAndCancelAreTerminal pg_SnoozeReplayIsFenced pg_PartialBatchesApplyLiveEntries
  pg_DuplicateEntriesApplyOnce pg_BatchAppliesPerRowValues pg_HeartbeatRenewsOnlyRunning pg_RescueStaleRespectsTTL
  pg_RescueFencing pg_CleanHonorsRetention pg_StaleHeartbeatDoesNotRenew pg_HeartbeatIgnoresStaleEntries
  pg_RescuedJobKeepsPriorityBoost pg_CleanDistinguishesTerminalStates pg_RejectsInstantsOutsideRange pg_DerivedPriorityClamps
  pg_NilMetadataRoundTrips pg_MetadataRoundTripsThroughLifecycle pg_ErrorHistoryAccumulates

text \<open>Eight goroutines, four of either kind.\<close>

definition four_each :: "bool list \<Rightarrow> bool" where
  "four_each order \<longleftrightarrow> count_list order True = 4 \<and> count_list order False = 4"

lemma four_each_both: "four_each order \<Longrightarrow> True \<in> set order \<and> False \<in> set order"
  using count_notin [of True order] count_notin [of False order] by (auto simp: four_each_def)

lemma mem_passes: "keys_of ord \<Longrightarrow> probe (mem_pick ord) Some s 0 (0, []) = Some None \<Longrightarrow> mem_play ord s 0 New = None"
  using probe_mem [of ord s 0 "(0, [])" None] by (simp add: abs_of_New listed_def)

lemma pg_passes:
  "probe (pg_pick micro_pg) (image_of micro_pg) s 0 (0, []) = Some None \<Longrightarrow> pg_play F (run_stmt micro_pg) s pg_empty = None"
  using probe_pg [OF micro_serves, of s 0 "(0, [])" None F] by (simp add: abs_of_New listed_def table_of_New)

text \<open>C8: The memory backend passes the conformance suite: every test runs to its end without a failed check on a new
  backend, in whatever order Go ranges over the map of jobs at each call, and however the calls of the eight sweeping
  goroutines interleave.\<close>

theorem memory_conforms:
  assumes "keys_of ord" "four_each order"
  shows "list_all (\<lambda>(name, test). mem_play ord test 0 New = None) (Run order)"
  using four_each_both [OF assms(2)]
  by (simp add: Run_def mem_passes [OF assms(1)] mem_sequential mem_concurrent [OF assms(1)])

definition ascending :: "nat \<Rightarrow> mem \<Rightarrow> int list" where
  "ascending n b = filter (\<lambda>i. jobs b i \<noteq> None) [1..nextID b]"

lemma ascending_keys: "keys_of ascending"
  by (auto simp: keys_of_def ascending_def ranges_def dest: ids_ok_row)

lemma memory_conforms_witness:
  "list_all (\<lambda>(name, test). mem_play ascending test 0 New = None) (Run [True, False, True, False, True, False, True, False])"
  by (rule memory_conforms [OF ascending_keys]) (simp add: four_each_def)

text \<open>C9: The PostgreSQL backend passes the conformance suite from an empty table, with a server that keeps instants to the
  microsecond and scans by ID: every test runs to its end without a failed check, however the calls of the eight sweeping goroutines interleave.\<close>

theorem postgres_conforms:
  assumes "four_each order"
  shows "list_all (\<lambda>(name, test). pg_play F (run_stmt micro_pg) test pg_empty = None) (Run order)"
  using four_each_both [OF assms] by (simp add: Run_def pg_passes pg_sequential pg_concurrent)

lemma postgres_conforms_witness:
  "list_all (\<lambda>(name, test). pg_play sample_fmt (run_stmt micro_pg) test pg_empty = None)
     (Run [True, True, True, True, False, False, False, False])"
  by (rule postgres_conforms) (simp add: four_each_def)

end
