(* ===== verification/Spec2Isabelle.thy ===== *)
theory Spec2Isabelle
  imports Fake_Spec Pgx Copies_Spec Suite_Conforms
begin

text \<open>
  A verification library for \<^verbatim>\<open>goque\<close>, a library for background jobs in Go.

  \<^bold>\<open>The program.\<close> A client inserts jobs into a storage backend and works them. A job is a row with a state,
  a schedule, an attempt count and a generation. \<^verbatim>\<open>Fetch\<close> claims due rows and raises their generation; the pair
  of ID and generation is the token of one execution, and every finalization (complete, retry, snooze,
  cancel, kill) is accepted only for the current token of a running row. The dispatcher fetches and starts
  one goroutine per job; the executor runs the worker under its middleware and decides the outcome; the completer
  batches outcomes and flushes them to the storage; heartbeats and three maintenance loops keep executions alive,
  promote due jobs, rescue lost ones and delete old ones. \<^verbatim>\<open>Stop\<close> drains all of it. \<^verbatim>\<open>ProcessReady\<close> works queues
  synchronously, and the fake drives a client in tests with a clock of its own. There are two backends: one in
  memory, one on PostgreSQL.

  \<^bold>\<open>Theories and sources\<close> (under \<^verbatim>\<open>src/\<close>).
  \<^item> \<open>Prelude\<close>: 64-bit integers, Go's range over a map with a budget (\<open>range_limit\<close>), sorting facts.
  \<^item> \<open>Errors\<close>, \<open>Instants\<close>, \<open>Rows\<close>: \<^verbatim>\<open>backend/errors.go\<close>, \<^verbatim>\<open>backend/time.go\<close>, \<^verbatim>\<open>backend/backend.go\<close>, \<^verbatim>\<open>job.go\<close>. Go errors as a
    datatype with the walk of \<^verbatim>\<open>errors.Is\<close> and \<^verbatim>\<open>errors.As\<close>; a \<^verbatim>\<open>Backend\<close> as a record of functions on a state.
  \<^item> \<open>Json\<close>: the part of \<^verbatim>\<open>encoding/json\<close> in use, on syntax trees.
  \<^item> \<open>Memory\<close>: \<^verbatim>\<open>backend/memory/memory.go\<close>, one function per method. \<open>Memory_Facts\<close> has their closed forms,
    \<open>Lifecycle\<close> the steps a row may take and the row invariant, \<open>Store\<close> and \<open>Claims\<close> sequences of calls and
    tokens, \<open>Memory_Spec\<close>, \<open>Memory_Ops\<close>, \<open>Memory_Maint\<close> the theorems. These read a stored row as a value; \<open>Copies\<close> has the
    rows with their slices in a heap that callers write to, and \<open>Copies_Spec\<close> shows that they behave as values.
  \<^item> \<open>Storage\<close>: the storage contract as the locales \<open>storage\<close> and \<open>reliable_storage\<close>, interpreted on the memory
    backend; the client's theorems that need a storage are proved inside them.
  \<^item> \<open>Retry\<close>, \<open>Options\<close>, \<open>Workers\<close>, \<open>Executor\<close>, \<open>Completer\<close>, \<open>Process\<close>, \<open>Client\<close>, \<open>Dispatcher\<close>, \<open>Shutdown\<close>, \<open>Fake\<close>:
    \<^verbatim>\<open>retry.go\<close>, \<^verbatim>\<open>options.go\<close>, \<^verbatim>\<open>registry.go\<close> with \<^verbatim>\<open>middleware.go\<close> and \<^verbatim>\<open>middleware/middleware.go\<close>, \<^verbatim>\<open>executor.go\<close>,
    \<^verbatim>\<open>completer.go\<close>, \<^verbatim>\<open>process.go\<close>, \<^verbatim>\<open>client.go\<close>, \<^verbatim>\<open>dispatcher.go\<close> (the dispatch round and the heartbeat in \<open>Dispatcher\<close>,
    \<^verbatim>\<open>Start\<close> and \<^verbatim>\<open>Stop\<close> in \<open>Shutdown\<close>), \<^verbatim>\<open>fake.go\<close>. Each has a \<open>_Spec\<close> theory with what it promises;
    \<open>Flush_Spec\<close> is the completer over a storage.
  \<^item> \<open>Wire\<close>, \<open>Queries\<close>, \<open>Postgres\<close>: \<^verbatim>\<open>backend/postgres\<close>. \<open>Wire\<close> has the table, the documents of a batch and
    the reading of a row (\<^verbatim>\<open>wire.go\<close>, \<^verbatim>\<open>scan.go\<close>), \<open>Queries\<close> the SQL statements as operations on the table, \<open>Postgres\<close> the methods
    and the configuration over a driver. \<open>Postgres_Finalize\<close>, \<open>Postgres_Calls\<close>, \<open>Postgres_Sweeps\<close>, \<open>Postgres_Enqueue\<close> show call by
    call that the table does what the memory store does; \<open>Postgres_Spec\<close> composes them over histories;
    \<open>Postgres_Lost\<close> is about connections that break and about the schema name.
  \<^item> \<open>Migrate\<close>, \<open>Migrate_Run\<close>, \<open>Migrate_Spec\<close>: \<^verbatim>\<open>backend/postgres/goosemigrate\<close> and its command: versions and indexes of the
    migration files, the checks, the advisory lock, the sweep of broken indexes, \<^verbatim>\<open>Up\<close>. \<open>Pgx\<close>: the adapter \<^verbatim>\<open>pgxv5\<close>.
  \<^item> \<open>Suite\<close>, \<open>Suite_Tests\<close>: \<^verbatim>\<open>backendtest/suite.go\<close>, the conformance suite; each test is a script of calls and checks that does
    not know the backend. \<open>Suite_Run\<close> keeps a store as a list that evaluates, in agreement with the memory backend; \<open>Suite_Spec\<close>
    shows that one run on it stands for the memory backend in every order of its map and, by the refinement, for PostgreSQL;
    \<open>Suite_Concurrent\<close> and \<open>Suite_Sweeps\<close> have the tests that start goroutines inside the locale \<open>suite_backend\<close>,
    \<open>Suite_Memory\<close>, \<open>Suite_Memory_Finalize\<close>, \<open>Suite_Postgres\<close>, \<open>Suite_Postgres_Finalize\<close> and \<open>Suite_Postgres_Maint\<close> the others
    (the last three on the server of \<open>Suite_Server\<close>), \<open>Suite_Conforms\<close> the interpretations and the suite as a whole.
  \<^item> \<open>Samples\<close> and the \<open>sample_\<close> definitions of the other theories are concrete inputs.

  \<^bold>\<open>How the code is modelled.\<close> Stateful code is a function from the state to the result and the new state; a Go
  error is the left side of a sum, or an option; a panic is an error of its own that ends what it reaches.
  The order in which Go ranges over a map is an argument wherever it can show. Counters moved by one per
  operation are unbounded integers, durations and nanosecond counts are 64-bit words with their wrap-around.
  User code (workers, middleware, handlers, hooks, retry policies, clocks) and random numbers are
  parameters. Concurrency is modelled by its atomic steps: calls under the mutex of the memory backend
  (\<open>Store.run\<close>), events of the completer (\<open>cp_step\<close>), the dispatch loop with its goroutines (\<open>dispatch_step\<close>) and
  the life of a client (\<open>life_step\<close>) are transition systems, and their theorems hold for every interleaving; timers only say
  when a step may happen, so any step may happen at any time.

  \<^bold>\<open>What the theorems show.\<close>
  \<^item> Storage: claims are exclusive, a token finalizes at most once and stays dead, rows follow the documented state
    machine and their counters hang together; each method does what it documents on every branch; the
    PostgreSQL backend answers every portable history as the memory backend does, and repeating a
    finalization after a lost reply is harmless. Both pass every test of the conformance suite. Callers of the memory backend share no array with its rows.
  \<^item> Executions: each hands over exactly one finalization or leaves by a panic; the outcome is the documented one; a client that lost
    its heartbeat pushes nothing.
  \<^item> Completer: nothing is lost or doubled between push and flush, batches are in order and bounded, grouping a batch by
    kind does not show; one instant out of range poisons a batch.
  \<^item> Dispatch: limits hold in every interleaving, shares are fair up to a constant.
  \<^item> Life: no send on a closed channel, heartbeats outlive executions, a client that settled is quiet.
  \<^item> Passes and the fake: work is bounded, a drained queue has nothing due, idle means idle.
  \<^item> Migrations: the lock is held exactly between its two calls, waiting is bounded, the sweep drops broken indexes only,
    \<^verbatim>\<open>Up\<close> refuses what it documents. A transaction of the driver ends once.
  \<^item> Policies and options: round trips through JSON, bounds of the backoff and its jitter, rows as their options say.

  \<^bold>\<open>Bounds.\<close> Three definitions have fuel. For two it is the code's own bound: the promotion loop of a pass
  (\<^verbatim>\<open>moveDueMaxBatches\<close>) and the rounds of \<^verbatim>\<open>RunUntilIdle\<close> (\<^verbatim>\<open>maxRounds\<close>). The loop of the fetching goroutines of the suite has one
  call for each job and each goroutine, and a test that used it up would fail: passing it shows that it is enough. The loop over a queue ends by its job budget.

  \<^bold>\<open>Parameters of the PostgreSQL model.\<close> What a \<^verbatim>\<open>timestamptz\<close> and a \<^verbatim>\<open>jsonb\<close> keep of a value and the order of an unordered
  scan are functions of \<open>pg_env\<close>; a scan must visit each row once, and cutting an instant must not carry it past one the server keeps (\<open>serves\<close>).
  A call is \<open>portable\<close> when both backends take its parameters alike: metadata that is absent or a document but null, new
  rows, instants that can be stored, and for the sweeps cutoffs the server keeps, as whole microseconds are. The sequence of IDs has no gaps; a statement is atomic; rows locked by other
  sessions are skipped by the statements that skip them.

  \<^bold>\<open>Not modelled.\<close> Logging, the text of formatted values in messages, the grace timer and the context of the caller of
  \<^verbatim>\<open>Stop\<close>; the goose library, which is handed the callbacks of the lock; the test database, which is the set-up of
  tests.
\<close>

end
